theory Spec2Isabelle
  imports Main
begin

section \<open>JavaScript values used by the version bumper\<close>

text \<open>
  Strings are JavaScript strings whose code units lie below U+0100: one \<open>char\<close> is one
  code unit. Numbers are the integer-valued IEEE doubles together with \<open>NaN\<close> and the two
  infinities; \<open>Num n\<close> stands for the double whose value is the integer \<open>n\<close> (the two
  zeros are identified, their difference is never observed by the program). Fractional
  numbers never arise from \<open>parseInt\<close> and \<open>+ 1\<close>, the only arithmetic of the program.
\<close>

datatype jsnum = Num int | NaN | PosInf | NegInf

datatype jsval =
    JUndefined
  | JNull
  | JBool bool
  | JNum jsnum
  | JStr string
  | JArr "jsval list"
  | JObj "(string \<times> jsval) list"

datatype error =
    Error string
  | TypeError string
  | SyntaxError string
  | FsError string

subsection \<open>Characters\<close>

definition is_digit :: "char \<Rightarrow> bool" where
  "is_digit c = (c \<in> set ''0123456789'')"

definition digit_val :: "char \<Rightarrow> int" where
  "digit_val c = of_char c - 48"

definition digit_char :: "int \<Rightarrow> char" where
  "digit_char d = ''0123456789'' ! nat d"

definition is_hex_digit :: "char \<Rightarrow> bool" where
  "is_hex_digit c = (c \<in> set ''0123456789abcdefABCDEF'')"

definition hex_val :: "char \<Rightarrow> int" where
  "hex_val c =
     (if is_digit c then of_char c - 48
      else if c \<in> set ''abcdef'' then of_char c - 87
      else of_char c - 55)"

text \<open>The white space of \<open>\s\<close> and of \<open>parseInt\<close>, as far as it lies below U+0100:
  tab, line feed, vertical tab, form feed, carriage return, space, no-break space.\<close>

definition is_space :: "char \<Rightarrow> bool" where
  "is_space c = (c \<in> {CHR 0x09, CHR 0x0A, CHR 0x0B, CHR 0x0C, CHR 0x0D, CHR 0x20, CHR 0xA0})"

subsection \<open>Numbers: rounding to a double, printing, \<open>parseInt\<close>\<close>

function bit_length :: "int \<Rightarrow> nat" where
  "bit_length n = (if n \<le> 0 then 0 else Suc (bit_length (n div 2)))"
  by pat_completeness auto
termination
  by (relation "measure nat") auto

declare bit_length.simps [simp del]

text \<open>Round a non-negative integer to the nearest double, ties to the even significand;
  \<open>None\<close> is the overflow to infinity.\<close>

definition round_double :: "int \<Rightarrow> int option" where
  "round_double n =
     (if n < 2 ^ 53 then Some n
      else let e = bit_length n - 53;
               q = n div 2 ^ e;
               r = n mod 2 ^ e;
               h = 2 ^ (e - 1);
               v = (if h < r \<or> (r = h \<and> odd q) then q + 1 else q) * 2 ^ e
           in if v < 2 ^ 1024 then Some v else None)"

definition to_number :: "int \<Rightarrow> jsnum" where
  "to_number i =
     (if 0 \<le> i then (case round_double i of Some v \<Rightarrow> Num v | None \<Rightarrow> PosInf)
      else (case round_double (- i) of Some v \<Rightarrow> Num (- v) | None \<Rightarrow> NegInf))"

fun num_add :: "jsnum \<Rightarrow> int \<Rightarrow> jsnum" where
  "num_add (Num n) k = to_number (n + k)"
| "num_add NaN k = NaN"
| "num_add PosInf k = PosInf"
| "num_add NegInf k = NegInf"

function dec_digits :: "int \<Rightarrow> string" where
  "dec_digits n = (if n < 10 then [digit_char n] else dec_digits (n div 10) @ [digit_char (n mod 10)])"
  by pat_completeness auto
termination
  by (relation "measure nat") auto

declare dec_digits.simps [simp del]

definition digits_value :: "string \<Rightarrow> int" where
  "digits_value ds = foldl (\<lambda>acc c. acc * 10 + digit_val c) 0 ds"

definition hex_value :: "string \<Rightarrow> int" where
  "hex_value ds = foldl (\<lambda>acc c. acc * 16 + hex_val c) 0 ds"

text \<open>The shortest decimal significand that rounds back to a double \<open>x\<close> of \<open>nd\<close> digits,
  as an integer of \<open>nd\<close> digits; and the exponent notation of a double of at least
  \<open>10^21\<close>.\<close>

fun shortest :: "int \<Rightarrow> nat \<Rightarrow> nat \<Rightarrow> nat \<Rightarrow> int" where
  "shortest x nd k 0 = x"
| "shortest x nd k (Suc fuel) =
     (let p = 10 ^ (nd - k);
          lo = (x div p) * p;
          hi = lo + p;
          lo_ok = (round_double lo = Some x);
          hi_ok = (round_double hi = Some x)
      in if lo_ok \<and> hi_ok then
           (if x - lo < hi - x \<or> (x - lo = hi - x \<and> even (x div p)) then lo else hi)
         else if lo_ok then lo
         else if hi_ok then hi
         else shortest x nd (Suc k) fuel)"

definition strip_zeros :: "string \<Rightarrow> string" where
  "strip_zeros ds = rev (dropWhile (\<lambda>c. c = CHR ''0'') (rev ds))"

definition exp_form :: "int \<Rightarrow> string" where
  "exp_form x =
     (let full = dec_digits (shortest x (length (dec_digits x)) 1 17);
          m = strip_zeros full;
          e = dec_digits (int (length full) - 1)
      in if length m \<le> 1 then take 1 full @ ''e+'' @ e
         else take 1 m @ ''.'' @ drop 1 m @ ''e+'' @ e)"

text \<open>Number to string for a non-negative integral double: all its digits up to \<open>2^53\<close>;
  above, the shortest significand that rounds back to it, followed by zeros below \<open>10^21\<close>
  and in exponent notation from there.\<close>

definition nat_to_string :: "int \<Rightarrow> string" where
  "nat_to_string n =
     (if n \<le> 2 ^ 53 then dec_digits n
      else if n < 10 ^ 21 then dec_digits (shortest n (length (dec_digits n)) 1 17)
      else exp_form n)"

fun num_to_string :: "jsnum \<Rightarrow> string" where
  "num_to_string (Num n) = (if n < 0 then ''-'' @ nat_to_string (- n) else nat_to_string n)"
| "num_to_string NaN = ''NaN''"
| "num_to_string PosInf = ''Infinity''"
| "num_to_string NegInf = ''-Infinity''"

text \<open>\<open>parseInt(s)\<close> with no radix: leading white space, an optional sign, an optional
  \<open>0x\<close> prefix, then the longest run of digits; \<open>NaN\<close> when that run is empty.\<close>

definition parseInt_string :: "string \<Rightarrow> jsnum" where
  "parseInt_string s =
     (let s1 = dropWhile is_space s;
          neg = (take 1 s1 = ''-'');
          s2 = (if take 1 s1 = ''-'' \<or> take 1 s1 = ''+'' then drop 1 s1 else s1);
          hex = (take 2 s2 = ''0x'' \<or> take 2 s2 = ''0X'');
          z = (if hex then takeWhile is_hex_digit (drop 2 s2) else takeWhile is_digit s2);
          v = (if hex then hex_value z else digits_value z)
      in if z = [] then NaN else to_number (if neg then - v else v))"

fun join :: "string \<Rightarrow> string list \<Rightarrow> string" where
  "join sep [] = []"
| "join sep [x] = x"
| "join sep (x # y # ys) = x @ sep @ join sep (y # ys)"

fun to_string :: "jsval \<Rightarrow> string" where
  "to_string JUndefined = ''undefined''"
| "to_string JNull = ''null''"
| "to_string (JBool b) = (if b then ''true'' else ''false'')"
| "to_string (JNum n) = num_to_string n"
| "to_string (JStr s) = s"
| "to_string (JArr xs) =
     join '','' (map (\<lambda>x. if x = JUndefined \<or> x = JNull then [] else to_string x) xs)"
| "to_string (JObj kvs) = ''[object Object]''"

definition parseInt :: "jsval \<Rightarrow> jsnum" where
  "parseInt v = parseInt_string (to_string v)"

fun truthy :: "jsval \<Rightarrow> bool" where
  "truthy JUndefined = False"
| "truthy JNull = False"
| "truthy (JBool b) = b"
| "truthy (JNum n) = (n \<noteq> Num 0 \<and> n \<noteq> NaN)"
| "truthy (JStr s) = (s \<noteq> [])"
| "truthy (JArr xs) = True"
| "truthy (JObj kvs) = True"

section \<open>Regular expressions of the program\<close>

text \<open>
  Every regular expression of the source is a sequence of literals and of \<open>c+\<close> for a
  character class \<open>c\<close>, some of them capturing. In each of them the class of a \<open>c+\<close>
  excludes the character that must follow it, so the greedy match is the only one and
  no backtracking into a \<open>c+\<close> can succeed.
\<close>

datatype atom = Lit string | Plus "char \<Rightarrow> bool" | CapPlus "char \<Rightarrow> bool"

fun match_here :: "atom list \<Rightarrow> string \<Rightarrow> (string \<times> string list \<times> string) option" where
  "match_here [] s = Some ([], [], s)"
| "match_here (Lit l # as) s =
     (if take (length l) s = l then
        (case match_here as (drop (length l) s) of
           None \<Rightarrow> None
         | Some (m, cs, r) \<Rightarrow> Some (l @ m, cs, r))
      else None)"
| "match_here (Plus p # as) s =
     (if takeWhile p s = [] then None
      else (case match_here as (dropWhile p s) of
              None \<Rightarrow> None
            | Some (m, cs, r) \<Rightarrow> Some (takeWhile p s @ m, cs, r)))"
| "match_here (CapPlus p # as) s =
     (if takeWhile p s = [] then None
      else (case match_here as (dropWhile p s) of
              None \<Rightarrow> None
            | Some (m, cs, r) \<Rightarrow> Some (takeWhile p s @ m, takeWhile p s # cs, r)))"

text \<open>The leftmost match: the text before it, the match, its captures, the text after.\<close>

fun search :: "atom list \<Rightarrow> string \<Rightarrow> (string \<times> string \<times> string list \<times> string) option" where
  "search re [] =
     (case match_here re [] of None \<Rightarrow> None | Some (m, cs, r) \<Rightarrow> Some ([], m, cs, r))"
| "search re (c # s) =
     (case match_here re (c # s) of
        Some (m, cs, r) \<Rightarrow> Some ([], m, cs, r)
      | None \<Rightarrow> (case search re s of
                   None \<Rightarrow> None
                 | Some (b, m, cs, r) \<Rightarrow> Some (c # b, m, cs, r)))"

section \<open>version.js\<close>

record semver =
  major :: jsnum
  minor :: jsnum
  patch :: jsnum

text \<open>\<open>/^(\d+)\.(\d+)\.(\d+)$/\<close>\<close>

definition semver_re :: "atom list" where
  "semver_re = [CapPlus is_digit, Lit ''.'', CapPlus is_digit, Lit ''.'', CapPlus is_digit]"

definition parseSemanticVersion :: "string \<Rightarrow> error + semver" where
  "parseSemanticVersion versionString =
     (case match_here semver_re versionString of
        Some (m, [c1, c2, c3], []) \<Rightarrow>
          Inr \<lparr>major = parseInt (JStr c1), minor = parseInt (JStr c2), patch = parseInt (JStr c3)\<rparr>
      | _ \<Rightarrow> Inl (Error (''Invalid version format: '' @ versionString)))"

definition semver_string :: "semver \<Rightarrow> string" where
  "semver_string parsed =
     num_to_string (major parsed) @ ''.'' @ num_to_string (minor parsed) @ ''.''
       @ num_to_string (patch parsed)"

definition incrementSemanticVersion :: "string \<Rightarrow> string \<Rightarrow> error + string" where
  "incrementSemanticVersion version type =
     (case parseSemanticVersion version of
        Inl e \<Rightarrow> Inl e
      | Inr parsed \<Rightarrow>
          if type = ''major'' then
            Inr (semver_string (parsed\<lparr>major := num_add (major parsed) 1, minor := Num 0, patch := Num 0\<rparr>))
          else if type = ''minor'' then
            Inr (semver_string (parsed\<lparr>minor := num_add (minor parsed) 1, patch := Num 0\<rparr>))
          else if type = ''patch'' then
            Inr (semver_string (parsed\<lparr>patch := num_add (patch parsed) 1\<rparr>))
          else Inl (Error (''Invalid increment type: '' @ type)))"

definition calculateNewSemanticVersion :: "jsval \<Rightarrow> string \<Rightarrow> string \<Rightarrow> error + jsval" where
  "calculateNewSemanticVersion userValue currentValue incrementType =
     (if truthy userValue \<and> userValue \<noteq> JBool True then Inr userValue
      else map_sum id JStr (incrementSemanticVersion currentValue incrementType))"

definition calculateNewBuildNumber :: "jsval \<Rightarrow> jsval \<Rightarrow> jsnum" where
  "calculateNewBuildNumber userValue currentValue =
     (if truthy userValue \<and> userValue \<noteq> JBool True then parseInt userValue
      else num_add (parseInt currentValue) 1)"

text \<open>\<open>parseSemanticVersion(incrementSemanticVersion(v, kind))\<close>, an exception of the inner
  call propagating.\<close>

definition parse_after_increment :: "string \<Rightarrow> string \<Rightarrow> error + semver" where
  "parse_after_increment v kind =
     (case incrementSemanticVersion v kind of Inl e \<Rightarrow> Inl e | Inr s \<Rightarrow> parseSemanticVersion s)"

section \<open>Matching and replacing in file contents\<close>

lemma match_here_split: "match_here re s = Some (m, cs, r) \<Longrightarrow> s = m @ r"
proof (induction re s arbitrary: m cs r rule: match_here.induct)
  case (1 s)
  then show ?case by simp
next
  case (2 l as s)
  then show ?case
    by (auto split: if_splits option.splits) (metis append_take_drop_id)
next
  case (3 p as s)
  then show ?case
    by (auto split: if_splits option.splits) (metis takeWhile_dropWhile_id)
next
  case (4 p as s)
  then show ?case
    by (auto split: if_splits option.splits) (metis takeWhile_dropWhile_id)
qed

lemma search_split: "search re s = Some (b, m, cs, r) \<Longrightarrow> s = b @ m @ r"
proof (induction s arbitrary: b m cs r)
  case Nil
  then show ?case by (auto split: option.splits dest: match_here_split)
next
  case (Cons c s)
  then show ?case by (auto split: option.splits dest: match_here_split)
qed

text \<open>\<open>str.match(re)\<close> for a regular expression with the \<open>g\<close> flag: every match, left to
  right and without overlap (\<open>null\<close>, here the empty list, when there is none). After an
  empty match the search resumes one character further.\<close>

function match_all :: "atom list \<Rightarrow> string \<Rightarrow> string list" where
  "match_all re s =
     (case search re s of
        None \<Rightarrow> []
      | Some (b, m, cs, r) \<Rightarrow>
          if m = [] then (case r of [] \<Rightarrow> [m] | c # r' \<Rightarrow> m # match_all re r')
          else m # match_all re r)"
  by pat_completeness auto
termination
  by (relation "measure (\<lambda>(re, s). length s)") (auto dest: search_split)

declare match_all.simps [simp del]

text \<open>The replacement text of \<open>String.prototype.replace\<close> for a match \<open>m\<close> with the text
  \<open>b\<close> before it and \<open>a\<close> after it in the subject, and captures \<open>caps\<close>: \<open>$$\<close> is a
  dollar, \<open>$&\<close> the match, \<open>$`\<close> the text before, \<open>$'\<close> the text after, \<open>$n\<close> and
  \<open>$nn\<close> a capture when the expression has that many; any other dollar stands for itself.\<close>

definition capture_index :: "string \<Rightarrow> nat" where
  "capture_index ds = nat (digits_value ds)"

fun get_substitution :: "string \<Rightarrow> string \<Rightarrow> string \<Rightarrow> string list \<Rightarrow> string \<Rightarrow> string" where
  "get_substitution m b a caps [] = []"
| "get_substitution m b a caps [c] = [c]"
| "get_substitution m b a caps (c # d # t) =
     (if c \<noteq> CHR ''$'' then c # get_substitution m b a caps (d # t)
      else if d = CHR ''$'' then CHR ''$'' # get_substitution m b a caps t
      else if d = CHR ''&'' then m @ get_substitution m b a caps t
      else if d = CHR 0x60 then b @ get_substitution m b a caps t
      else if d = CHR 0x27 then a @ get_substitution m b a caps t
      else if is_digit d then
        (case t of
           e # t' \<Rightarrow>
             if is_digit e \<and> 1 \<le> capture_index [d, e] \<and> capture_index [d, e] \<le> length caps
             then caps ! (capture_index [d, e] - 1) @ get_substitution m b a caps t'
             else if 1 \<le> capture_index [d] \<and> capture_index [d] \<le> length caps
             then caps ! (capture_index [d] - 1) @ get_substitution m b a caps t
             else c # get_substitution m b a caps (d # t)
         | [] \<Rightarrow>
             if 1 \<le> capture_index [d] \<and> capture_index [d] \<le> length caps
             then caps ! (capture_index [d] - 1) @ get_substitution m b a caps t
             else c # get_substitution m b a caps (d # t))
      else c # get_substitution m b a caps (d # t))"

text \<open>\<open>str.replace(re, replacement)\<close> without the \<open>g\<close> flag: the first match only.\<close>

definition replace_first :: "atom list \<Rightarrow> string \<Rightarrow> string \<Rightarrow> string" where
  "replace_first re replacement s =
     (case search re s of
        None \<Rightarrow> s
      | Some (b, m, cs, r) \<Rightarrow> b @ get_substitution m b r cs replacement @ r)"

text \<open>\<open>str.replace(re, replacement)\<close> with the \<open>g\<close> flag: every match; \<open>pre\<close> is the part
  of the subject already passed, which \<open>$`\<close> refers to.\<close>

function replace_from :: "atom list \<Rightarrow> string \<Rightarrow> string \<Rightarrow> string \<Rightarrow> string" where
  "replace_from re replacement pre s =
     (case search re s of
        None \<Rightarrow> s
      | Some (b, m, cs, r) \<Rightarrow>
          b @ get_substitution m (pre @ b) r cs replacement @
            (if m = [] then
               (case r of [] \<Rightarrow> [] | c # r' \<Rightarrow> c # replace_from re replacement (pre @ b @ [c]) r')
             else replace_from re replacement (pre @ b @ m) r))"
  by pat_completeness auto
termination
  by (relation "measure (\<lambda>(re, replacement, pre, s). length s)") (auto dest: search_split)

declare replace_from.simps [simp del]

definition replace_all :: "atom list \<Rightarrow> string \<Rightarrow> string \<Rightarrow> string" where
  "replace_all re replacement s = replace_from re replacement [] s"





section \<open>Paths (the POSIX flavour of Node's \<open>path\<close> module)\<close>

fun split_on :: "char \<Rightarrow> string \<Rightarrow> string list" where
  "split_on sep [] = [[]]"
| "split_on sep (c # s) =
     (case split_on sep s of
        [] \<Rightarrow> [[c]]
      | w # ws \<Rightarrow> if c = sep then [] # w # ws else (c # w) # ws)"

text \<open>Resolve the segments \<open>.\<close>, \<open>..\<close> and the empty ones; \<open>acc\<close> is the reversed result.\<close>

fun normalize_segments :: "bool \<Rightarrow> string list \<Rightarrow> string list \<Rightarrow> string list" where
  "normalize_segments absolute acc [] = rev acc"
| "normalize_segments absolute acc (seg # segs) =
     (if seg = [] \<or> seg = ''.'' then normalize_segments absolute acc segs
      else if seg = ''..'' then
        (case acc of
           [] \<Rightarrow> normalize_segments absolute (if absolute then [] else [''..'']) segs
         | a # acc' \<Rightarrow>
             if a = ''..'' then normalize_segments absolute (''..'' # acc) segs
             else normalize_segments absolute acc' segs)
      else normalize_segments absolute (seg # acc) segs)"

definition isAbsolute :: "string \<Rightarrow> bool" where
  "isAbsolute p = (take 1 p = ''/'')"

definition path_normalize :: "string \<Rightarrow> string" where
  "path_normalize p =
     (if p = [] then ''.''
      else let body = join ''/'' (normalize_segments (isAbsolute p) [] (split_on (CHR ''/'') p));
               trailing = (last p = CHR ''/'');
               body' = (if body = [] \<and> \<not> isAbsolute p then ''.'' else body);
               body'' = (if body' \<noteq> [] \<and> trailing then body' @ ''/'' else body')
           in if isAbsolute p then ''/'' @ body'' else body'')"

definition path_join :: "string \<Rightarrow> string \<Rightarrow> string" where
  "path_join a b =
     (if a = [] \<and> b = [] then ''.''
      else if a = [] then path_normalize b
      else if b = [] then path_normalize a
      else path_normalize (a @ ''/'' @ b))"

text \<open>\<open>path.dirname\<close>: trailing slashes are passed over, then the text up to the last
  slash before the base name; \<open>/\<close> or \<open>.\<close> when there is no such slash.\<close>

definition path_dirname :: "string \<Rightarrow> string" where
  "path_dirname p =
     (if p = [] then ''.''
      else let body = rev (dropWhile (\<lambda>c. c = CHR ''/'') (rev (tl p)));
               dir = rev (dropWhile (\<lambda>c. c \<noteq> CHR ''/'') (rev body))
           in if dir = [] then (if isAbsolute p then ''/'' else ''.'')
              else if isAbsolute p \<and> length dir = 1 then ''//''
              else hd p # butlast dir)"

definition path_basename :: "string \<Rightarrow> string" where
  "path_basename p =
     rev (takeWhile (\<lambda>c. c \<noteq> CHR ''/'') (dropWhile (\<lambda>c. c = CHR ''/'') (rev p)))"

text \<open>\<open>path.parse(p).root\<close>\<close>

definition path_root :: "string \<Rightarrow> string" where
  "path_root p = (if isAbsolute p then ''/'' else [])"

definition path_resolve_segments :: "string \<Rightarrow> string \<Rightarrow> string list" where
  "path_resolve_segments cwd_dir p =
     normalize_segments True []
       (split_on (CHR ''/'') (if isAbsolute p then p else cwd_dir @ ''/'' @ p))"

fun drop_common :: "string list \<Rightarrow> string list \<Rightarrow> string list \<times> string list" where
  "drop_common (a # as) (b # bs) = (if a = b then drop_common as bs else (a # as, b # bs))"
| "drop_common as bs = (as, bs)"

definition path_relative :: "string \<Rightarrow> string \<Rightarrow> string \<Rightarrow> string" where
  "path_relative cwd_dir from to =
     (case drop_common (path_resolve_segments cwd_dir from) (path_resolve_segments cwd_dir to) of
        (up, down) \<Rightarrow> join ''/'' (map (\<lambda>_. ''..'') up @ down))"

section \<open>The run: options, disk and console\<close>

text \<open>
  The source passes one mutable \<open>options\<close> object through every call and reads and writes
  the disk through \<open>fs\<close>. The state below holds the fields of \<open>options\<close> the mutators
  use, the disk (a path is absent, a directory, or a file with its text), the log of
  \<open>writeFileSync\<close> calls and the messages of \<open>console.warn\<close>.
\<close>

datatype node = File string | Dir

record change =
  platform :: string
  file_rel :: string
  item :: string
  oldValue :: jsval
  newValue :: jsval

record state =
  projectRoot :: "string option"
  dryRun :: bool
  increment :: "string option"
  packageJsonPath :: "string option"
  packageJsonUpdated :: bool
  changes :: "change list"
  disk :: "string \<rightharpoonup> node"
  writes :: "(string \<times> string) list"
  warnings :: "string list"

text \<open>What the program takes from the Node runtime and is not modelled here:
  \<open>JSON.parse\<close> (\<open>None\<close> when it throws a SyntaxError), \<open>process.cwd()\<close>, and the
  default export of the JavaScript module at a path, loaded with \<open>import()\<close> (an error
  when loading throws).\<close>

record runtime =
  json_parse :: "string \<Rightarrow> jsval option"
  cwd :: string
  import_default :: "string \<Rightarrow> error + jsval"

definition existsSync :: "state \<Rightarrow> string \<Rightarrow> bool" where
  "existsSync st p = (disk st p \<noteq> None)"

definition readFileSync :: "state \<Rightarrow> string \<Rightarrow> error + string" where
  "readFileSync st p =
     (case disk st p of
        None \<Rightarrow> Inl (FsError (''ENOENT: '' @ p))
      | Some Dir \<Rightarrow> Inl (FsError (''EISDIR: '' @ p))
      | Some (File c) \<Rightarrow> Inr c)"

definition writeFileSync :: "string \<Rightarrow> string \<Rightarrow> state \<Rightarrow> state" where
  "writeFileSync p c st = st\<lparr>disk := (disk st)(p \<mapsto> File c), writes := writes st @ [(p, c)]\<rparr>"

definition warn :: "string \<Rightarrow> state \<Rightarrow> state" where
  "warn msg st = st\<lparr>warnings := warnings st @ [msg]\<rparr>"

text \<open>\<open>path.relative(options.projectRoot || process.cwd(), filePath)\<close>\<close>

definition relative_file :: "runtime \<Rightarrow> state \<Rightarrow> string \<Rightarrow> string" where
  "relative_file rt st filePath =
     path_relative (cwd rt)
       (case projectRoot st of None \<Rightarrow> cwd rt | Some r \<Rightarrow> if r = [] then cwd rt else r)
       filePath"

text \<open>\<open>options.increment || 'patch'\<close>\<close>

definition increment_or_patch :: "state \<Rightarrow> string" where
  "increment_or_patch st =
     (case increment st of None \<Rightarrow> ''patch'' | Some i \<Rightarrow> if i = [] then ''patch'' else i)"

section \<open>packageJson.js\<close>

abbreviation dq :: char where "dq \<equiv> CHR 0x22"
abbreviation backslash :: char where "backslash \<equiv> CHR 0x5C"
abbreviation newline :: char where "newline \<equiv> CHR 0x0A"

text \<open>\<open>JSON.stringify(value, null, 2)\<close>: strings are quoted with the escapes of JSON, an
  object or array opens a line per member, indented two spaces deeper, a member whose
  value is \<open>undefined\<close> is left out of an object and printed \<open>null\<close> in an array.\<close>

definition hex_char :: "nat \<Rightarrow> char" where
  "hex_char d = ''0123456789abcdef'' ! d"

definition quote_char :: "char \<Rightarrow> string" where
  "quote_char c =
     (if c = CHR 0x08 then [backslash, CHR ''b'']
      else if c = CHR 0x09 then [backslash, CHR ''t'']
      else if c = CHR 0x0A then [backslash, CHR ''n'']
      else if c = CHR 0x0C then [backslash, CHR ''f'']
      else if c = CHR 0x0D then [backslash, CHR ''r'']
      else if c = dq then [backslash, dq]
      else if c = backslash then [backslash, backslash]
      else if (of_char c :: nat) < 32 then
        [backslash, CHR ''u'', CHR ''0'', CHR ''0'', hex_char (of_char c div 16), hex_char (of_char c mod 16)]
      else [c])"

definition quote :: "string \<Rightarrow> string" where
  "quote s = dq # concat (map quote_char s) @ [dq]"

fun serialize :: "string \<Rightarrow> jsval \<Rightarrow> string" where
  "serialize ind JUndefined = ''null''"
| "serialize ind JNull = ''null''"
| "serialize ind (JBool b) = (if b then ''true'' else ''false'')"
| "serialize ind (JNum n) = (case n of Num i \<Rightarrow> num_to_string n | _ \<Rightarrow> ''null'')"
| "serialize ind (JStr s) = quote s"
| "serialize ind (JArr xs) =
     (if xs = [] then ''[]''
      else ''['' @ [newline] @ (ind @ ''  '')
           @ join ('','' @ [newline] @ (ind @ ''  '')) (map (serialize (ind @ ''  '')) xs)
           @ [newline] @ ind @ '']'')"
| "serialize ind (JObj kvs) =
     (if filter (\<lambda>kv. snd kv \<noteq> JUndefined) kvs = [] then ''{}''
      else ''{'' @ [newline] @ (ind @ ''  '')
           @ join ('','' @ [newline] @ (ind @ ''  ''))
               (map (\<lambda>kv. quote (fst kv) @ '': '' @ serialize (ind @ ''  '') (snd kv))
                  (filter (\<lambda>kv. snd kv \<noteq> JUndefined) kvs))
           @ [newline] @ ind @ ''}'')"

text \<open>Reading a property that is no built-in of its holder (\<open>version\<close>, \<open>dependencies\<close>,
  a configuration key): a TypeError on \<open>null\<close> and \<open>undefined\<close>, the member of an object,
  \<open>undefined\<close> elsewhere. Assigning a property keeps the place of an existing key.\<close>

definition get_prop :: "jsval \<Rightarrow> string \<Rightarrow> error + jsval" where
  "get_prop v k =
     (case v of
        JUndefined \<Rightarrow> Inl (TypeError (''Cannot read properties of undefined (reading '' @ k @ '')''))
      | JNull \<Rightarrow> Inl (TypeError (''Cannot read properties of null (reading '' @ k @ '')''))
      | JObj kvs \<Rightarrow> Inr (case map_of kvs k of None \<Rightarrow> JUndefined | Some x \<Rightarrow> x)
      | _ \<Rightarrow> Inr JUndefined)"

fun set_prop :: "(string \<times> jsval) list \<Rightarrow> string \<Rightarrow> jsval \<Rightarrow> (string \<times> jsval) list" where
  "set_prop [] k v = [(k, v)]"
| "set_prop ((k', v') # kvs) k v = (if k' = k then (k, v) # kvs else (k', v') # set_prop kvs k v)"

text \<open>The order in which an object enumerates the properties created in the order
  \<open>kvs\<close>: the array indices (canonical decimal strings below \<open>2^32 - 1\<close>) ascending, then
  the other keys as created.\<close>

definition array_index :: "string \<Rightarrow> int option" where
  "array_index k =
     (if k \<noteq> [] \<and> list_all is_digit k \<and> (k = ''0'' \<or> hd k \<noteq> CHR ''0'')
         \<and> digits_value k < 2 ^ 32 - 1
      then Some (digits_value k) else None)"

definition own_property_order :: "(string \<times> jsval) list \<Rightarrow> (string \<times> jsval) list" where
  "own_property_order kvs =
     sort_key (\<lambda>kv. the (array_index (fst kv))) (filter (\<lambda>kv. array_index (fst kv) \<noteq> None) kvs)
     @ filter (\<lambda>kv. array_index (fst kv) = None) kvs"

definition recordPackageJsonChange :: "runtime \<Rightarrow> string \<Rightarrow> jsval \<Rightarrow> jsval \<Rightarrow> state \<Rightarrow> state" where
  "recordPackageJsonChange rt jsonPath oldVersion newVersion st =
     st\<lparr>changes := changes st @
        [\<lparr>platform = ''Package.json'', file_rel = relative_file rt st jsonPath,
          item = ''version'', oldValue = oldVersion, newValue = newVersion\<rparr>]\<rparr>"

definition updatePackageJsonVersion ::
  "runtime \<Rightarrow> string \<Rightarrow> jsval \<Rightarrow> state \<Rightarrow> (error + jsval option) \<times> state" where
  "updatePackageJsonVersion rt jsonPath newVersion st =
     (if \<not> existsSync st jsonPath then
        (Inr None, warn (''package.json not found: '' @ jsonPath) st)
      else case readFileSync st jsonPath of
        Inl e \<Rightarrow> (Inl e, st)
      | Inr content \<Rightarrow>
         (case json_parse rt content of
            None \<Rightarrow> (Inl (SyntaxError content), st)
          | Some packageData \<Rightarrow>
             (case get_prop packageData ''version'' of
                Inl e \<Rightarrow> (Inl e, st)
              | Inr currentVersion \<Rightarrow>
                  if \<not> truthy currentVersion then
                    (Inr None, warn ''Could not find current version in package.json'' st)
                  else
                    let packageData' =
                          (case packageData of
                             JObj kvs \<Rightarrow> JObj (set_prop kvs ''version'' newVersion)
                           | v \<Rightarrow> v);
                        st1 = (if \<not> dryRun st
                               then writeFileSync jsonPath
                                      (serialize [] packageData' @ [newline]) st
                               else st);
                        st2 = recordPackageJsonChange rt jsonPath currentVersion newVersion st1
                    in (Inr (Some newVersion), st2))))"

section \<open>android.js\<close>

text \<open>\<open>/versionCode\s+(\d+)/\<close> and \<open>/versionName\s+"([^"]+)"/\<close> read the current values;
  \<open>/versionCode\s+\d+/\<close> and \<open>/versionName\s+"[^"]+"/\<close> are the ones replaced.\<close>

definition versionCode_re :: "atom list" where
  "versionCode_re = [Lit ''versionCode'', Plus is_space, CapPlus is_digit]"

definition versionName_re :: "atom list" where
  "versionName_re =
     [Lit ''versionName'', Plus is_space, Lit [dq], CapPlus (\<lambda>c. c \<noteq> dq), Lit [dq]]"

definition versionCode_replace_re :: "atom list" where
  "versionCode_replace_re = [Lit ''versionCode'', Plus is_space, Plus is_digit]"

definition versionName_replace_re :: "atom list" where
  "versionName_replace_re =
     [Lit ''versionName'', Plus is_space, Lit [dq], Plus (\<lambda>c. c \<noteq> dq), Lit [dq]]"

text \<open>\<open>content.match(re)?.[1]\<close>\<close>

definition first_capture :: "atom list \<Rightarrow> string \<Rightarrow> string option" where
  "first_capture re s =
     (case search re s of Some (b, m, c # cs, r) \<Rightarrow> Some c | _ \<Rightarrow> None)"

definition falsy_capture :: "string option \<Rightarrow> bool" where
  "falsy_capture c = (c = None \<or> c = Some [])"

datatype android_result = AndroidResult string jsnum jsval

definition updateAndroidFileContent :: "string \<Rightarrow> jsnum \<Rightarrow> jsval \<Rightarrow> bool \<Rightarrow> string" where
  "updateAndroidFileContent content newVersionCode newVersionName updateVersionName =
     (let content1 = replace_first versionCode_replace_re
                       (''versionCode '' @ num_to_string newVersionCode) content
      in if updateVersionName then
           replace_first versionName_replace_re
             (''versionName '' @ [dq] @ to_string newVersionName @ [dq]) content1
         else content1)"

definition recordAndroidChanges ::
  "runtime \<Rightarrow> string \<Rightarrow> string \<Rightarrow> jsnum \<Rightarrow> string \<Rightarrow> jsval \<Rightarrow> bool \<Rightarrow> state \<Rightarrow> state" where
  "recordAndroidChanges rt filePath oldVersionCode newVersionCode oldVersionName newVersionName
       versionNameUpdated st =
     (let st1 = st\<lparr>changes := changes st @
                  [\<lparr>platform = ''Android'', file_rel = relative_file rt st filePath,
                    item = ''versionCode'', oldValue = JStr oldVersionCode,
                    newValue = JNum newVersionCode\<rparr>]\<rparr>
      in if versionNameUpdated then
           st1\<lparr>changes := changes st1 @
                  [\<lparr>platform = ''Android'', file_rel = relative_file rt st filePath,
                    item = ''versionName'', oldValue = JStr oldVersionName,
                    newValue = newVersionName\<rparr>]\<rparr>
         else st1)"

text \<open>\<open>!options.packageJsonUpdated && options.packageJsonPath && field !== null\<close>\<close>

definition wants_package_update :: "state \<Rightarrow> jsval \<Rightarrow> bool" where
  "wants_package_update st field =
     (\<not> packageJsonUpdated st
      \<and> (case packageJsonPath st of None \<Rightarrow> False | Some p \<Rightarrow> p \<noteq> [])
      \<and> field \<noteq> JNull)"

definition processAndroidFile ::
  "runtime \<Rightarrow> string \<Rightarrow> jsval \<Rightarrow> jsval \<Rightarrow> state \<Rightarrow> (error + android_result option) \<times> state" where
  "processAndroidFile rt filePath versionCode versionName st =
     (if \<not> existsSync st filePath then
        (Inr None, warn (''Android build.gradle not found: '' @ filePath) st)
      else case readFileSync st filePath of
        Inl e \<Rightarrow> (Inl e, st)
      | Inr content \<Rightarrow>
         (let currentVersionCode = first_capture versionCode_re content;
              currentVersionName = first_capture versionName_re content
          in if falsy_capture currentVersionCode \<or> falsy_capture currentVersionName then
               (Inr None, warn (''Could not find version values in: '' @ filePath) st)
             else
               let newVersionCode = calculateNewBuildNumber versionCode (JStr (the currentVersionCode))
               in case (if versionName \<noteq> JNull
                        then calculateNewSemanticVersion versionName (the currentVersionName)
                               (increment_or_patch st)
                        else Inr (JStr (the currentVersionName))) of
                    Inl e \<Rightarrow> (Inl e, st)
                  | Inr newVersionName \<Rightarrow>
                     (let content' = updateAndroidFileContent content newVersionCode newVersionName
                                       (versionName \<noteq> JNull);
                          st1 = (if \<not> dryRun st then writeFileSync filePath content' st else st);
                          st2 = recordAndroidChanges rt filePath (the currentVersionCode) newVersionCode
                                  (the currentVersionName) newVersionName (versionName \<noteq> JNull) st1
                      in if wants_package_update st2 versionName then
                           (case updatePackageJsonVersion rt (the (packageJsonPath st2)) newVersionName st2 of
                              (Inl e, st3) \<Rightarrow> (Inl e, st3)
                            | (Inr r, st3) \<Rightarrow>
                                (Inr (Some (AndroidResult filePath newVersionCode newVersionName)),
                                 st3\<lparr>packageJsonUpdated := True\<rparr>))
                         else
                           (Inr (Some (AndroidResult filePath newVersionCode newVersionName)), st2))))"

fun updateAndroidVersions ::
  "runtime \<Rightarrow> string list \<Rightarrow> jsval \<Rightarrow> jsval \<Rightarrow> state \<Rightarrow> (error + android_result list) \<times> state" where
  "updateAndroidVersions rt [] versionCode versionName st = (Inr [], st)"
| "updateAndroidVersions rt (filePath # files) versionCode versionName st =
     (case processAndroidFile rt filePath versionCode versionName st of
        (Inl e, st') \<Rightarrow> (Inl e, st')
      | (Inr result, st') \<Rightarrow>
          (case updateAndroidVersions rt files versionCode versionName st' of
             (Inl e, st'') \<Rightarrow> (Inl e, st'')
           | (Inr results, st'') \<Rightarrow>
               (Inr (case result of None \<Rightarrow> results | Some r \<Rightarrow> r # results), st'')))"

section \<open>ios.js\<close>

text \<open>\<open>/CURRENT_PROJECT_VERSION = (\d+);/g\<close> and \<open>/MARKETING_VERSION = ([^;]+);/g\<close>, and
  the same without the capture for the replacement.\<close>

definition currentProjectVersion_re :: "atom list" where
  "currentProjectVersion_re = [Lit ''CURRENT_PROJECT_VERSION = '', CapPlus is_digit, Lit '';'']"

definition marketingVersion_re :: "atom list" where
  "marketingVersion_re = [Lit ''MARKETING_VERSION = '', CapPlus (\<lambda>c. c \<noteq> CHR '';''), Lit '';'']"

definition currentProjectVersion_replace_re :: "atom list" where
  "currentProjectVersion_replace_re = [Lit ''CURRENT_PROJECT_VERSION = '', Plus is_digit, Lit '';'']"

definition marketingVersion_replace_re :: "atom list" where
  "marketingVersion_replace_re = [Lit ''MARKETING_VERSION = '', Plus (\<lambda>c. c \<noteq> CHR '';''), Lit '';'']"

datatype ios_result = IOSResult string jsnum jsval

definition updateIOSFileContent :: "string \<Rightarrow> jsnum \<Rightarrow> jsval \<Rightarrow> bool \<Rightarrow> bool \<Rightarrow> string" where
  "updateIOSFileContent content newCurrentProjectVersion newMarketingVersion
       updateCurrentProjectVersion updateMarketingVersion =
     (let content1 = (if updateCurrentProjectVersion then
                        replace_all currentProjectVersion_replace_re
                          (''CURRENT_PROJECT_VERSION = '' @ num_to_string newCurrentProjectVersion @ '';'')
                          content
                      else content)
      in if updateMarketingVersion then
           replace_all marketingVersion_replace_re
             (''MARKETING_VERSION = '' @ to_string newMarketingVersion @ '';'') content1
         else content1)"

definition recordIOSChanges ::
  "runtime \<Rightarrow> string \<Rightarrow> string \<Rightarrow> jsnum \<Rightarrow> string \<Rightarrow> jsval \<Rightarrow> bool \<Rightarrow> bool \<Rightarrow> state \<Rightarrow> state" where
  "recordIOSChanges rt filePath oldCurrentProjectVersion newCurrentProjectVersion
       oldMarketingVersion newMarketingVersion currentProjectVersionUpdated marketingVersionUpdated st =
     (let st1 = (if currentProjectVersionUpdated then
                   st\<lparr>changes := changes st @
                     [\<lparr>platform = ''iOS'', file_rel = relative_file rt st filePath,
                       item = ''CURRENT_PROJECT_VERSION'', oldValue = JStr oldCurrentProjectVersion,
                       newValue = JNum newCurrentProjectVersion\<rparr>]\<rparr>
                 else st)
      in if marketingVersionUpdated then
           st1\<lparr>changes := changes st1 @
                  [\<lparr>platform = ''iOS'', file_rel = relative_file rt st filePath,
                    item = ''MARKETING_VERSION'', oldValue = JStr oldMarketingVersion,
                    newValue = newMarketingVersion\<rparr>]\<rparr>
         else st1)"

definition processIOSFile ::
  "runtime \<Rightarrow> string \<Rightarrow> jsval \<Rightarrow> jsval \<Rightarrow> state \<Rightarrow> (error + ios_result option) \<times> state" where
  "processIOSFile rt filePath currentProjectVersion marketingVersion st =
     (if \<not> existsSync st filePath then
        (Inr None, warn (''iOS project.pbxproj not found: '' @ filePath) st)
      else case readFileSync st filePath of
        Inl e \<Rightarrow> (Inl e, st)
      | Inr content \<Rightarrow>
         (let currentProjectVersionMatches = match_all currentProjectVersion_re content;
              marketingVersionMatches = match_all marketingVersion_re content
          in if currentProjectVersionMatches = [] \<or> marketingVersionMatches = [] then
               (Inr None, warn (''Could not find version values in: '' @ filePath) st)
             else
               case (first_capture [CapPlus is_digit] (hd currentProjectVersionMatches),
                     first_capture marketingVersion_re (hd marketingVersionMatches)) of
                 (Some currentProjectVersionValue, Some marketingVersionValue) \<Rightarrow>
                   (let newCurrentProjectVersion =
                          (if currentProjectVersion \<noteq> JNull
                           then calculateNewBuildNumber currentProjectVersion (JStr currentProjectVersionValue)
                           else parseInt (JStr currentProjectVersionValue))
                    in case (if marketingVersion \<noteq> JNull
                             then calculateNewSemanticVersion marketingVersion marketingVersionValue
                                    (increment_or_patch st)
                             else Inr (JStr marketingVersionValue)) of
                         Inl e \<Rightarrow> (Inl e, st)
                       | Inr newMarketingVersion \<Rightarrow>
                          (let content' = updateIOSFileContent content newCurrentProjectVersion
                                            newMarketingVersion (currentProjectVersion \<noteq> JNull)
                                            (marketingVersion \<noteq> JNull);
                               st1 = (if \<not> dryRun st then writeFileSync filePath content' st else st);
                               st2 = recordIOSChanges rt filePath currentProjectVersionValue
                                       newCurrentProjectVersion marketingVersionValue newMarketingVersion
                                       (currentProjectVersion \<noteq> JNull) (marketingVersion \<noteq> JNull) st1
                           in if wants_package_update st2 marketingVersion then
                                (case updatePackageJsonVersion rt (the (packageJsonPath st2))
                                        newMarketingVersion st2 of
                                   (Inl e, st3) \<Rightarrow> (Inl e, st3)
                                 | (Inr r, st3) \<Rightarrow>
                                     (Inr (Some (IOSResult filePath newCurrentProjectVersion newMarketingVersion)),
                                      st3\<lparr>packageJsonUpdated := True\<rparr>))
                              else
                                (Inr (Some (IOSResult filePath newCurrentProjectVersion newMarketingVersion)),
                                 st2)))
               | _ \<Rightarrow> (Inl (TypeError ''Cannot read properties of null (reading 1)''), st)))"

fun updateIOSVersions ::
  "runtime \<Rightarrow> string list \<Rightarrow> jsval \<Rightarrow> jsval \<Rightarrow> state \<Rightarrow> (error + ios_result list) \<times> state" where
  "updateIOSVersions rt [] currentProjectVersion marketingVersion st = (Inr [], st)"
| "updateIOSVersions rt (filePath # files) currentProjectVersion marketingVersion st =
     (case processIOSFile rt filePath currentProjectVersion marketingVersion st of
        (Inl e, st') \<Rightarrow> (Inl e, st')
      | (Inr result, st') \<Rightarrow>
          (case updateIOSVersions rt files currentProjectVersion marketingVersion st' of
             (Inl e, st'') \<Rightarrow> (Inl e, st'')
           | (Inr results, st'') \<Rightarrow>
               (Inr (case result of None \<Rightarrow> results | Some r \<Rightarrow> r # results), st'')))"

section \<open>detection.js\<close>

text \<open>The own enumerable properties that an object spread \<open>{...v}\<close> copies: the members
  of an object, the indexed elements of an array or string, nothing of any other value.\<close>

definition index_keys :: "nat \<Rightarrow> string list" where
  "index_keys n = map (\<lambda>i. dec_digits (int i)) [0..<n]"

definition spread_props :: "jsval \<Rightarrow> (string \<times> jsval) list" where
  "spread_props v =
     (case v of
        JObj kvs \<Rightarrow> kvs
      | JArr xs \<Rightarrow> zip (index_keys (length xs)) xs
      | JStr s \<Rightarrow> zip (index_keys (length s)) (map (\<lambda>c. JStr [c]) s)
      | _ \<Rightarrow> [])"

definition assign_all :: "(string \<times> jsval) list \<Rightarrow> (string \<times> jsval) list \<Rightarrow> (string \<times> jsval) list" where
  "assign_all target source = foldl (\<lambda>acc kv. set_prop acc (fst kv) (snd kv)) target source"

definition reactNativePackages :: "string list" where
  "reactNativePackages = [''react-native'', ''@react-native-community/cli'', ''react-native-cli'']"

definition hasReactNativeDependencies :: "jsval \<Rightarrow> error + bool" where
  "hasReactNativeDependencies packageJson =
     (case get_prop packageJson ''dependencies'' of
        Inl e \<Rightarrow> Inl e
      | Inr deps \<Rightarrow>
         (case get_prop packageJson ''devDependencies'' of
            Inl e \<Rightarrow> Inl e
          | Inr devDeps \<Rightarrow>
              let allDependencies = assign_all (assign_all [] (spread_props deps)) (spread_props devDeps)
              in Inr (list_ex (\<lambda>pkg. case map_of allDependencies pkg of
                                        None \<Rightarrow> False
                                      | Some v \<Rightarrow> truthy v) reactNativePackages)))"

text \<open>One round of the loop of \<open>detectReactNativeProject\<close>: whether \<open>currentDir\<close> is
  returned. Every exception of the \<open>try\<close> block ends in the empty \<open>catch\<close>.\<close>

definition is_project_dir :: "runtime \<Rightarrow> state \<Rightarrow> string \<Rightarrow> bool" where
  "is_project_dir rt st currentDir =
     (let packageJsonPath' = path_join currentDir ''package.json''
      in if existsSync st packageJsonPath' then
           (case readFileSync st packageJsonPath' of
              Inl e \<Rightarrow> False
            | Inr content \<Rightarrow>
               (case json_parse rt content of
                  None \<Rightarrow> False
                | Some packageJson \<Rightarrow>
                   (case hasReactNativeDependencies packageJson of
                      Inl e \<Rightarrow> False
                    | Inr has \<Rightarrow>
                        has \<and> (existsSync st (path_join currentDir ''android'')
                               \<or> existsSync st (path_join currentDir ''ios'')))))
         else False)"

text \<open>The loop \<open>while (currentDir !== root)\<close>; \<open>None\<close> is a walk that never ends,
  \<open>Some None\<close> the result \<open>null\<close>.\<close>

partial_function (option) detect_loop ::
  "runtime \<Rightarrow> state \<Rightarrow> string \<Rightarrow> string \<Rightarrow> string option option" where
  "detect_loop rt st root currentDir =
     (if currentDir = root then Some None
      else if is_project_dir rt st currentDir then Some (Some currentDir)
      else detect_loop rt st root (path_dirname currentDir))"

declare detect_loop.simps [code]

definition detectReactNativeProject :: "runtime \<Rightarrow> string \<Rightarrow> state \<Rightarrow> string option option" where
  "detectReactNativeProject rt startDir st = detect_loop rt st (path_root startDir) startDir"

definition DEFAULT_CONFIG :: jsval where
  "DEFAULT_CONFIG =
     JObj [(''android'', JObj [(''files'', JArr [JStr ''android/app/build.gradle''])]),
           (''ios'', JObj [(''files'', JArr [JStr ''ios/*.xcodeproj/project.pbxproj''])]),
           (''packageJson'', JStr ''package.json'')]"

definition getDefaultConfig :: jsval where
  "getDefaultConfig =
     JObj [(''android'', JObj [(''files'', JArr [JStr ''android/app/build.gradle''])]),
           (''ios'', JObj [(''files'', JArr [JStr ''ios/*.xcodeproj/project.pbxproj''])]),
           (''packageJson'', JStr ''package.json'')]"

text \<open>The names that \<open>key in obj\<close> finds on every plain object, through
  \<open>Object.prototype\<close>.\<close>

definition object_prototype_names :: "string list" where
  "object_prototype_names =
     [''constructor'', ''__defineGetter__'', ''__defineSetter__'', ''hasOwnProperty'',
      ''__lookupGetter__'', ''__lookupSetter__'', ''isPrototypeOf'', ''propertyIsEnumerable'',
      ''toString'', ''valueOf'', ''__proto__'', ''toLocaleString'']"

definition key_in :: "string \<Rightarrow> (string \<times> jsval) list \<Rightarrow> bool" where
  "key_in k kvs = (k \<in> set (map fst kvs) \<or> k \<in> set object_prototype_names)"

definition own_or_undefined :: "(string \<times> jsval) list \<Rightarrow> string \<Rightarrow> jsval" where
  "own_or_undefined kvs k = (case map_of kvs k of None \<Rightarrow> JUndefined | Some v \<Rightarrow> v)"

definition is_plain_object :: "jsval \<Rightarrow> bool" where
  "is_plain_object v = (case v of JObj kvs \<Rightarrow> True | _ \<Rightarrow> False)"

text \<open>The value \<open>mergeConfigs\<close> gives to a key of the default configuration.\<close>

definition merged_value :: "jsval \<Rightarrow> jsval \<Rightarrow> jsval" where
  "merged_value defaultValue userValue =
     (if truthy userValue \<and> is_plain_object userValue then
        JObj (own_property_order
                (assign_all (assign_all [] (spread_props defaultValue)) (spread_props userValue)))
      else if userValue \<noteq> JUndefined then userValue
      else (case defaultValue of JNull \<Rightarrow> JObj [] | v \<Rightarrow> v))"

definition mergeConfigs :: "(string \<times> jsval) list \<Rightarrow> (string \<times> jsval) list \<Rightarrow> jsval" where
  "mergeConfigs defaultConfig userConfig =
     (let result1 = foldl (\<lambda>result kv.
                       set_prop result (fst kv) (merged_value (snd kv) (own_or_undefined userConfig (fst kv))))
                     [] defaultConfig;
          result2 = foldl (\<lambda>result kv.
                       if \<not> key_in (fst kv) defaultConfig then set_prop result (fst kv) (snd kv)
                       else result)
                     result1 userConfig
      in JObj (own_property_order result2))"

definition ends_with :: "string \<Rightarrow> string \<Rightarrow> bool" where
  "ends_with s suffix = (length suffix \<le> length s \<and> drop (length s - length suffix) s = suffix)"

fun message :: "error \<Rightarrow> string" where
  "message (Error m) = m"
| "message (TypeError m) = m"
| "message (SyntaxError m) = m"
| "message (FsError m) = m"

text \<open>The \<open>try\<close> block of \<open>loadConfigFromPath\<close> up to the validation: the loaded value, or
  the exception of \<open>import()\<close>, \<open>readFileSync\<close> or \<open>JSON.parse\<close>.\<close>

definition load_config_value :: "runtime \<Rightarrow> state \<Rightarrow> string \<Rightarrow> error + jsval" where
  "load_config_value rt st configPath =
     (if ends_with configPath ''.js'' then import_default rt configPath
      else case readFileSync st configPath of
             Inl e \<Rightarrow> Inl e
           | Inr configContent \<Rightarrow>
              (case json_parse rt configContent of
                 None \<Rightarrow> Inl (SyntaxError configContent)
               | Some config \<Rightarrow> Inr config))"

definition loadConfigFromPath ::
  "runtime \<Rightarrow> string \<Rightarrow> state \<Rightarrow> (string \<times> jsval) list option \<times> state" where
  "loadConfigFromPath rt configPath st =
     (if \<not> existsSync st configPath then (None, st)
      else case load_config_value rt st configPath of
             Inl e \<Rightarrow>
               (None, warn (''Warning: Could not load config from '' @ path_basename configPath
                            @ '': '' @ message e) st)
           | Inr config \<Rightarrow>
              (case config of
                 JObj kvs \<Rightarrow> (Some kvs, st)
               | _ \<Rightarrow>
                  (None, warn (''Warning: Invalid configuration in '' @ path_basename configPath
                               @ '': must be an object'') st)))"

definition configFiles :: "string list" where
  "configFiles = [''vbump.config.js'', ''vbump.config.json'', ''.vbump.config.js'', ''.vbump.config.json'']"

definition default_members :: "(string \<times> jsval) list" where
  "default_members = (case DEFAULT_CONFIG of JObj kvs \<Rightarrow> kvs | _ \<Rightarrow> [])"

text \<open>The loop over the standard configuration files.\<close>

fun search_configs :: "runtime \<Rightarrow> string \<Rightarrow> string list \<Rightarrow> state \<Rightarrow> jsval \<times> state" where
  "search_configs rt projectRoot' [] st = (getDefaultConfig, st)"
| "search_configs rt projectRoot' (configFile # rest) st =
     (case loadConfigFromPath rt (path_join projectRoot' configFile) st of
        (Some config, st') \<Rightarrow> (mergeConfigs default_members config, st')
      | (None, st') \<Rightarrow> search_configs rt projectRoot' rest st')"

text \<open>\<open>loadProjectConfiguration\<close>. Its body stands in a \<open>try\<close> whose \<open>catch\<close> returns the
  defaults; nothing in the body throws on the values modelled here, every exception of a
  load being caught in \<open>loadConfigFromPath\<close>.\<close>

definition loadProjectConfiguration ::
  "runtime \<Rightarrow> string \<Rightarrow> string option \<Rightarrow> state \<Rightarrow> jsval \<times> state" where
  "loadProjectConfiguration rt projectRoot' customConfigPath st =
     (case (case customConfigPath of
              None \<Rightarrow> (None, st)
            | Some p \<Rightarrow> if p = [] then (None, st) else loadConfigFromPath rt p st) of
        (Some config, st') \<Rightarrow> (mergeConfigs default_members config, st')
      | (None, st') \<Rightarrow> search_configs rt projectRoot' configFiles st')"

section \<open>index.js: the platform updates of one invocation\<close>

text \<open>One \<open>if (platforms.includes(...)) { await update...(...) }\<close> of
  \<open>executePlatformUpdates\<close>, after the ones before it: an exception ends the run.\<close>

definition run_if ::
  "bool \<Rightarrow> (state \<Rightarrow> (error + 'a) \<times> state) \<Rightarrow> (error + unit) \<times> state \<Rightarrow> (error + unit) \<times> state" where
  "run_if c f r =
     (case r of
        (Inl e, st) \<Rightarrow> (Inl e, st)
      | (Inr u, st) \<Rightarrow>
          if c then (case f st of (Inl e, st') \<Rightarrow> (Inl e, st') | (Inr x, st') \<Rightarrow> (Inr (), st'))
          else (Inr (), st))"

definition executePlatformUpdates ::
  "runtime \<Rightarrow> string list \<Rightarrow> string list \<Rightarrow> string list \<Rightarrow> jsval \<Rightarrow> jsval \<Rightarrow> jsval \<Rightarrow> jsval
     \<Rightarrow> state \<Rightarrow> (error + unit) \<times> state" where
  "executePlatformUpdates rt platforms androidFiles iosFiles versionCode versionName
       currentProjectVersion marketingVersion st =
     (let r1 = run_if (''android'' \<in> set platforms)
                 (updateAndroidVersions rt androidFiles versionCode versionName) (Inr (), st);
          r2 = run_if (''android-code-only'' \<in> set platforms)
                 (updateAndroidVersions rt androidFiles versionCode JNull) r1;
          r3 = run_if (''android-name-only'' \<in> set platforms)
                 (updateAndroidVersions rt androidFiles JNull versionName) r2;
          r4 = run_if (''ios'' \<in> set platforms)
                 (updateIOSVersions rt iosFiles currentProjectVersion marketingVersion) r3;
          r5 = run_if (''ios-version-only'' \<in> set platforms)
                 (updateIOSVersions rt iosFiles currentProjectVersion JNull) r4;
          r6 = run_if (''ios-marketing-only'' \<in> set platforms)
                 (updateIOSVersions rt iosFiles JNull marketingVersion) r5;
          r7 = run_if (''build-numbers-only'' \<in> set platforms)
                 (updateAndroidVersions rt androidFiles versionCode JNull) r6
      in run_if (''build-numbers-only'' \<in> set platforms)
           (updateIOSVersions rt iosFiles currentProjectVersion JNull) r7)"

section \<open>A runtime for the examples\<close>

text \<open>A reader for the JSON texts of the examples below: objects, arrays, strings with
  the single-character escapes, integers, \<open>true\<close>, \<open>false\<close> and \<open>null\<close>. It rejects
  fractions, exponents and \<open>\u\<close> escapes, which \<open>JSON.parse\<close> accepts; the theorems about
  the program hold for every runtime and use this one for examples only.\<close>

definition json_ws :: "string \<Rightarrow> string" where
  "json_ws s = dropWhile (\<lambda>c. c \<in> {CHR 0x20, CHR 0x09, CHR 0x0A, CHR 0x0D}) s"

definition unescape :: "char \<Rightarrow> char option" where
  "unescape e =
     (if e = dq then Some dq
      else if e = backslash then Some backslash
      else if e = CHR ''/'' then Some (CHR ''/'')
      else if e = CHR ''b'' then Some (CHR 0x08)
      else if e = CHR ''f'' then Some (CHR 0x0C)
      else if e = CHR ''n'' then Some (CHR 0x0A)
      else if e = CHR ''r'' then Some (CHR 0x0D)
      else if e = CHR ''t'' then Some (CHR 0x09)
      else None)"

fun json_string_body :: "string \<Rightarrow> (string \<times> string) option" where
  "json_string_body [] = None"
| "json_string_body [c] = (if c = dq then Some ([], []) else None)"
| "json_string_body (c # e # s) =
     (if c = dq then Some ([], e # s)
      else if c = backslash then
        (case unescape e of
           None \<Rightarrow> None
         | Some ch \<Rightarrow> (case json_string_body s of None \<Rightarrow> None | Some (t, r) \<Rightarrow> Some (ch # t, r)))
      else if (of_char c :: nat) < 32 then None
      else (case json_string_body (e # s) of None \<Rightarrow> None | Some (t, r) \<Rightarrow> Some (c # t, r)))"

definition json_number :: "string \<Rightarrow> (jsval \<times> string) option" where
  "json_number s =
     (let neg = (take 1 s = ''-'');
          body = (if neg then drop 1 s else s);
          ds = takeWhile is_digit body;
          r = dropWhile is_digit body
      in if ds = [] \<or> (1 < length ds \<and> take 1 ds = ''0'')
            \<or> take 1 r = ''.'' \<or> take 1 r = ''e'' \<or> take 1 r = ''E''
         then None
         else Some (JNum (to_number (if neg then - digits_value ds else digits_value ds)), r))"

definition add_member :: "string \<Rightarrow> jsval \<Rightarrow> (string \<times> jsval) list \<Rightarrow> (string \<times> jsval) list" where
  "add_member k v rest =
     (k, case map_of rest k of None \<Rightarrow> v | Some v' \<Rightarrow> v') # filter (\<lambda>kv. fst kv \<noteq> k) rest"

fun json_value :: "nat \<Rightarrow> string \<Rightarrow> (jsval \<times> string) option"
  and json_elements :: "nat \<Rightarrow> string \<Rightarrow> (jsval list \<times> string) option"
  and json_members :: "nat \<Rightarrow> string \<Rightarrow> ((string \<times> jsval) list \<times> string) option" where
  "json_value 0 s = None"
| "json_value (Suc n) s =
     (if take 1 s = ''{'' then
        (if take 1 (json_ws (drop 1 s)) = ''}'' then Some (JObj [], drop 1 (json_ws (drop 1 s)))
         else (case json_members n (json_ws (drop 1 s)) of
                 None \<Rightarrow> None
               | Some (kvs, r) \<Rightarrow> Some (JObj (own_property_order kvs), r)))
      else if take 1 s = ''['' then
        (if take 1 (json_ws (drop 1 s)) = '']'' then Some (JArr [], drop 1 (json_ws (drop 1 s)))
         else (case json_elements n (json_ws (drop 1 s)) of
                 None \<Rightarrow> None
               | Some (xs, r) \<Rightarrow> Some (JArr xs, r)))
      else if take 1 s = [dq] then
        (case json_string_body (drop 1 s) of None \<Rightarrow> None | Some (t, r) \<Rightarrow> Some (JStr t, r))
      else if take 4 s = ''true'' then Some (JBool True, drop 4 s)
      else if take 5 s = ''false'' then Some (JBool False, drop 5 s)
      else if take 4 s = ''null'' then Some (JNull, drop 4 s)
      else json_number s)"
| "json_elements 0 s = None"
| "json_elements (Suc n) s =
     (case json_value n s of
        None \<Rightarrow> None
      | Some (x, r) \<Rightarrow>
          if take 1 (json_ws r) = '','' then
            (case json_elements n (json_ws (drop 1 (json_ws r))) of
               None \<Rightarrow> None
             | Some (xs, r') \<Rightarrow> Some (x # xs, r'))
          else if take 1 (json_ws r) = '']'' then Some ([x], drop 1 (json_ws r))
          else None)"
| "json_members 0 s = None"
| "json_members (Suc n) s =
     (if take 1 s = [dq] then
        (case json_string_body (drop 1 s) of
           None \<Rightarrow> None
         | Some (k, r) \<Rightarrow>
             if take 1 (json_ws r) = '':'' then
               (case json_value n (json_ws (drop 1 (json_ws r))) of
                  None \<Rightarrow> None
                | Some (v, r') \<Rightarrow>
                    if take 1 (json_ws r') = '','' then
                      (case json_members n (json_ws (drop 1 (json_ws r'))) of
                         None \<Rightarrow> None
                       | Some (kvs, r'') \<Rightarrow> Some (add_member k v kvs, r''))
                    else if take 1 (json_ws r') = ''}'' then Some ([(k, v)], drop 1 (json_ws r'))
                    else None)
             else None)
      else None)"

definition example_json_parse :: "string \<Rightarrow> jsval option" where
  "example_json_parse s =
     (case json_value (Suc (length s)) (json_ws s) of
        None \<Rightarrow> None
      | Some (v, r) \<Rightarrow> if json_ws r = [] then Some v else None)"

definition example_runtime :: runtime where
  "example_runtime =
     \<lparr>json_parse = example_json_parse, cwd = ''/home/dev'',
      import_default = (\<lambda>p. Inl (Error (''Cannot find module '' @ p)))\<rparr>"

definition example_state :: "(string \<times> node) list \<Rightarrow> state" where
  "example_state entries =
     \<lparr>projectRoot = Some ''/app'', dryRun = False, increment = None, packageJsonPath = None,
      packageJsonUpdated = False, changes = [], disk = map_of entries, writes = [],
      warnings = []\<rparr>"

text \<open>A \<open>build.gradle\<close> with \<open>versionCode 1\<close> and \<open>versionName "1.0.0"\<close>, a
  \<open>project.pbxproj\<close> with two build configurations, and a \<open>package.json\<close>.\<close>

definition example_gradle :: string where
  "example_gradle = ''versionCode 1 versionName '' @ [dq] @ ''1.0.0'' @ [dq]"

definition example_pbxproj :: string where
  "example_pbxproj =
     ''CURRENT_PROJECT_VERSION = 1; MARKETING_VERSION = 1.0.0; CURRENT_PROJECT_VERSION = 1; MARKETING_VERSION = 1.0.0;''"

definition example_package_json :: string where
  "example_package_json =
     ''{'' @ [dq] @ ''name'' @ [dq] @ '':'' @ [dq] @ ''app'' @ [dq] @ '',''
       @ [dq] @ ''version'' @ [dq] @ '':'' @ [dq] @ ''1.0.0'' @ [dq] @ ''}''"

definition example_project :: state where
  "example_project =
     example_state
       [(''/app/android/app/build.gradle'', File example_gradle),
        (''/app/ios/App.xcodeproj/project.pbxproj'', File example_pbxproj),
        (''/app/package.json'', File example_package_json),
        (''/app/README'', File ''hello'')]"

definition example_configured :: state where
  "example_configured = example_project\<lparr>packageJsonPath := Some ''/app/package.json''\<rparr>"

definition example_dry_run :: state where
  "example_dry_run = example_configured\<lparr>dryRun := True\<rparr>"

section \<open>Version arithmetic: proofs\<close>

lemma digit_char_is_digit: "0 \<le> d \<Longrightarrow> d < 10 \<Longrightarrow> is_digit (digit_char d) \<and> digit_val (digit_char d) = d"
proof -
  assume a: "0 \<le> d" "d < 10"
  then have "d = 0 \<or> d = 1 \<or> d = 2 \<or> d = 3 \<or> d = 4 \<or> d = 5 \<or> d = 6 \<or> d = 7 \<or> d = 8 \<or> d = 9"
    by arith
  then show ?thesis
    by (elim disjE) (simp_all add: is_digit_def digit_val_def digit_char_def)
qed

lemma digits_value_snoc: "digits_value (ds @ [c]) = digits_value ds * 10 + digit_val c"
  by (simp add: digits_value_def)

lemma dec_digits_ok:
  "0 \<le> n \<Longrightarrow> dec_digits n \<noteq> [] \<and> (\<forall>c \<in> set (dec_digits n). is_digit c) \<and> digits_value (dec_digits n) = n"
proof (induction n rule: dec_digits.induct)
  case (1 n)
  show ?case
  proof (cases "n < 10")
    case True
    with 1(2) digit_char_is_digit[of n] show ?thesis
      by (simp add: dec_digits.simps[of n] digits_value_def)
  next
    case False
    then have ih: "dec_digits (n div 10) \<noteq> [] \<and> (\<forall>c \<in> set (dec_digits (n div 10)). is_digit c)
          \<and> digits_value (dec_digits (n div 10)) = n div 10"
      using 1 by simp
    have d: "is_digit (digit_char (n mod 10)) \<and> digit_val (digit_char (n mod 10)) = n mod 10"
      by (rule digit_char_is_digit) simp_all
    from False ih d show ?thesis
      by (simp add: dec_digits.simps[of n] digits_value_snoc)
  qed
qed

lemma digit_val_range: "is_digit c \<Longrightarrow> 0 \<le> digit_val c"
  by (auto simp: is_digit_def digit_val_def)

lemma digits_value_nonneg: "\<forall>c \<in> set ds. is_digit c \<Longrightarrow> 0 \<le> digits_value ds"
proof (induction ds rule: rev_induct)
  case Nil
  then show ?case by (simp add: digits_value_def)
next
  case (snoc c ds)
  from snoc.prems have "is_digit c" by simp
  then have "0 \<le> digit_val c" by (rule digit_val_range)
  moreover from snoc have "0 \<le> digits_value ds" by simp
  ultimately show ?case by (simp add: digits_value_snoc)
qed

lemma not_space_digit: "is_digit c \<Longrightarrow> \<not> is_space c"
  by (auto simp: is_digit_def is_space_def)

lemma parseInt_digits:
  assumes "z \<noteq> []" and "\<forall>c \<in> set z. is_digit c"
  shows "parseInt (JStr z) = to_number (digits_value z)"
proof -
  from assms obtain c t where z: "z = c # t" by (cases z) auto
  with assms have c: "is_digit c" by simp
  then have "\<not> is_space c" by (rule not_space_digit)
  then have dw: "dropWhile is_space z = z" by (simp add: z)
  from c have sg: "take 1 z \<noteq> ''-''" "take 1 z \<noteq> ''+''" by (auto simp: is_digit_def z)
  have nx: "\<And>u. \<not> is_digit u \<Longrightarrow> take 2 z \<noteq> [CHR ''0'', u]"
  proof
    fix u assume u: "\<not> is_digit u" and h: "take 2 z = [CHR ''0'', u]"
    have "u \<in> set (take 2 z)" by (simp add: h)
    then have "u \<in> set z" by (rule in_set_takeD)
    with assms(2) u show False by simp
  qed
  have hx: "take 2 z \<noteq> ''0x''" "take 2 z \<noteq> ''0X''"
    by (rule nx, simp add: is_digit_def)+
  have tw: "takeWhile is_digit z = z" using assms by (simp add: takeWhile_eq_all_conv)
  show ?thesis
    unfolding parseInt_def parseInt_string_def to_string.simps Let_def dw
    using sg hx assms(1) by (simp add: tw)
qed


lemma round_double_small: "0 \<le> n \<Longrightarrow> n \<le> 2 ^ 53 \<Longrightarrow> to_number n = Num n"
proof (cases "n < 2 ^ 53")
  case True
  assume "0 \<le> n"
  with True show ?thesis by (simp add: to_number_def round_double_def)
next
  case False
  assume "0 \<le> n" "n \<le> 2 ^ 53"
  with False have n: "n = 9007199254740992" by simp
  have "bit_length 9007199254740992 = 54" by code_simp
  then show ?thesis unfolding n by (simp add: to_number_def round_double_def)
qed

lemma round_double_nonneg:
  assumes "0 \<le> n" and "round_double n = Some v"
  shows "0 \<le> v"
proof (cases "n < 2 ^ 53")
  case True
  with assms show ?thesis by (simp add: round_double_def)
next
  case False
  define e where "e = bit_length n - 53"
  have q: "0 \<le> n div 2 ^ e" using assms(1) by (simp add: pos_imp_zdiv_nonneg_iff)
  from False assms(2) have "v = n div 2 ^ e * 2 ^ e \<or> v = (n div 2 ^ e + 1) * 2 ^ e"
    unfolding round_double_def Let_def e_def by (simp split: if_splits)
  with q show ?thesis by auto
qed

lemma to_number_nonneg: "0 \<le> n \<Longrightarrow> to_number n = Num v \<Longrightarrow> 0 \<le> v"
  by (auto simp: to_number_def split: option.splits dest: round_double_nonneg)

lemma not_digit_dot: "\<not> is_digit (CHR ''.'')"
  by (simp add: is_digit_def)

lemma span_digits_dot:
  assumes "\<forall>c \<in> set d. is_digit c"
  shows "takeWhile is_digit (d @ CHR ''.'' # r) = d"
    and "dropWhile is_digit (d @ CHR ''.'' # r) = CHR ''.'' # r"
  using assms not_digit_dot by (simp_all add: takeWhile_append2 dropWhile_append2)

lemma span_digits_end:
  assumes "\<forall>c \<in> set d. is_digit c"
  shows "takeWhile is_digit d = d" and "dropWhile is_digit d = []"
  using assms by (simp_all add: takeWhile_eq_all_conv)

lemma match_semver:
  assumes "d1 \<noteq> []" "d2 \<noteq> []" "d3 \<noteq> []"
    and "\<forall>c \<in> set d1. is_digit c" "\<forall>c \<in> set d2. is_digit c" "\<forall>c \<in> set d3. is_digit c"
  shows "match_here semver_re (d1 @ CHR ''.'' # d2 @ CHR ''.'' # d3)
           = Some (d1 @ CHR ''.'' # d2 @ CHR ''.'' # d3, [d1, d2, d3], [])"
  using assms
  by (simp add: semver_re_def span_digits_dot span_digits_end not_digit_dot)

lemma parse_digits:
  assumes "d1 \<noteq> []" "d2 \<noteq> []" "d3 \<noteq> []"
    and "\<forall>c \<in> set d1. is_digit c" "\<forall>c \<in> set d2. is_digit c" "\<forall>c \<in> set d3. is_digit c"
  shows "parseSemanticVersion (d1 @ CHR ''.'' # d2 @ CHR ''.'' # d3)
           = Inr \<lparr>major = to_number (digits_value d1), minor = to_number (digits_value d2),
                  patch = to_number (digits_value d3)\<rparr>"
  using assms by (simp add: parseSemanticVersion_def match_semver parseInt_digits)

lemma parse_dec_digits:
  assumes "0 \<le> a" "a \<le> 2 ^ 53" "0 \<le> b" "b \<le> 2 ^ 53" "0 \<le> c" "c \<le> 2 ^ 53"
  shows "parseSemanticVersion (dec_digits a @ CHR ''.'' # dec_digits b @ CHR ''.'' # dec_digits c)
           = Inr \<lparr>major = Num a, minor = Num b, patch = Num c\<rparr>"
  using assms dec_digits_ok[of a] dec_digits_ok[of b] dec_digits_ok[of c]
  by (simp add: parse_digits round_double_small)

lemma semver_string_small:
  assumes "0 \<le> a" "a \<le> 2 ^ 53" "0 \<le> b" "b \<le> 2 ^ 53" "0 \<le> c" "c \<le> 2 ^ 53"
  shows "semver_string \<lparr>major = Num a, minor = Num b, patch = Num c\<rparr>
           = dec_digits a @ CHR ''.'' # dec_digits b @ CHR ''.'' # dec_digits c"
  using assms by (simp add: semver_string_def nat_to_string_def)

lemma match_semver_captures:
  assumes "match_here semver_re v = Some (m, cs, r)"
  shows "\<exists>c1 c2 c3. cs = [c1, c2, c3] \<and> c1 \<noteq> [] \<and> c2 \<noteq> [] \<and> c3 \<noteq> []
           \<and> (\<forall>c \<in> set c1. is_digit c) \<and> (\<forall>c \<in> set c2. is_digit c) \<and> (\<forall>c \<in> set c3. is_digit c)"
  using assms
  by (auto simp: semver_re_def split: if_splits option.splits dest: set_takeWhileD)

lemma parse_nonneg:
  assumes "parseSemanticVersion v = Inr \<lparr>major = Num a, minor = Num b, patch = Num c\<rparr>"
  shows "0 \<le> a \<and> 0 \<le> b \<and> 0 \<le> c"
proof -
  from assms obtain m cs r where mh: "match_here semver_re v = Some (m, cs, r)"
    by (auto simp: parseSemanticVersion_def split: option.splits)
  from match_semver_captures[OF mh] obtain c1 c2 c3 where
    cs: "cs = [c1, c2, c3]" and ne: "c1 \<noteq> []" "c2 \<noteq> []" "c3 \<noteq> []"
    and dg: "\<forall>c \<in> set c1. is_digit c" "\<forall>c \<in> set c2. is_digit c" "\<forall>c \<in> set c3. is_digit c"
    by blast
  from assms mh cs have
    "to_number (digits_value c1) = Num a" "to_number (digits_value c2) = Num b"
    "to_number (digits_value c3) = Num c"
    using ne dg by (auto simp: parseSemanticVersion_def parseInt_digits split: list.splits)
  then show ?thesis
    using digits_value_nonneg[OF dg(1)] digits_value_nonneg[OF dg(2)] digits_value_nonneg[OF dg(3)]
    by (auto dest: to_number_nonneg)
qed


lemma reparse_small:
  assumes "0 \<le> a" "a \<le> 2 ^ 53" "0 \<le> b" "b \<le> 2 ^ 53" "0 \<le> c" "c \<le> 2 ^ 53"
  shows "parseSemanticVersion (semver_string \<lparr>major = Num a, minor = Num b, patch = Num c\<rparr>)
           = Inr \<lparr>major = Num a, minor = Num b, patch = Num c\<rparr>"
  using assms by (simp only: semver_string_small parse_dec_digits)

lemma increment_small:
  assumes "parseSemanticVersion v = Inr \<lparr>major = Num M, minor = Num m, patch = Num p\<rparr>"
    and "M < 2 ^ 53" "m < 2 ^ 53" "p < 2 ^ 53"
  shows "parse_after_increment v ''patch'' = Inr \<lparr>major = Num M, minor = Num m, patch = Num (p + 1)\<rparr>"
    and "parse_after_increment v ''minor'' = Inr \<lparr>major = Num M, minor = Num (m + 1), patch = Num 0\<rparr>"
    and "parse_after_increment v ''major'' = Inr \<lparr>major = Num (M + 1), minor = Num 0, patch = Num 0\<rparr>"
proof -
  from parse_nonneg[OF assms(1)] have nn: "0 \<le> M" "0 \<le> m" "0 \<le> p" by simp_all
  have p1: "to_number (p + 1) = Num (p + 1)" using nn assms by (simp add: round_double_small)
  have m1: "to_number (m + 1) = Num (m + 1)" using nn assms by (simp add: round_double_small)
  have M1: "to_number (M + 1) = Num (M + 1)" using nn assms by (simp add: round_double_small)
  have rp: "parseSemanticVersion (semver_string \<lparr>major = Num M, minor = Num m, patch = Num (p + 1)\<rparr>)
           = Inr \<lparr>major = Num M, minor = Num m, patch = Num (p + 1)\<rparr>"
    using nn assms by (intro reparse_small) simp_all
  have rm: "parseSemanticVersion (semver_string \<lparr>major = Num M, minor = Num (m + 1), patch = Num 0\<rparr>)
           = Inr \<lparr>major = Num M, minor = Num (m + 1), patch = Num 0\<rparr>"
    using nn assms by (intro reparse_small) simp_all
  have rM: "parseSemanticVersion (semver_string \<lparr>major = Num (M + 1), minor = Num 0, patch = Num 0\<rparr>)
           = Inr \<lparr>major = Num (M + 1), minor = Num 0, patch = Num 0\<rparr>"
    using nn assms by (intro reparse_small) simp_all
  show "parse_after_increment v ''patch'' = Inr \<lparr>major = Num M, minor = Num m, patch = Num (p + 1)\<rparr>"
    by (simp add: parse_after_increment_def incrementSemanticVersion_def assms(1) p1 rp)
  show "parse_after_increment v ''minor'' = Inr \<lparr>major = Num M, minor = Num (m + 1), patch = Num 0\<rparr>"
    by (simp add: parse_after_increment_def incrementSemanticVersion_def assms(1) m1 rm)
  show "parse_after_increment v ''major'' = Inr \<lparr>major = Num (M + 1), minor = Num 0, patch = Num 0\<rparr>"
    by (simp add: parse_after_increment_def incrementSemanticVersion_def assms(1) M1 rM)
qed

lemma parse_error_message:
  "parseSemanticVersion v = Inl e \<Longrightarrow> e = Error (''Invalid version format: '' @ v)"
  by (auto simp: parseSemanticVersion_def split: option.splits list.splits)

text \<open>
  Claim C5, as amended. For a version string that parses to \<open>{M, m, p}\<close> with all three
  components below \<open>2^53\<close> (the range in which a double counts exactly), parsing the
  result of \<open>incrementSemanticVersion\<close> yields \<open>{M, m, p+1}\<close> for \<open>patch\<close>,
  \<open>{M, m+1, 0}\<close> for \<open>minor\<close> and \<open>{M+1, 0, 0}\<close> for \<open>major\<close>. An unparseable
  version fails with the error naming the version string, and an unrecognized kind on a
  parseable version fails with the error naming the kind.
\<close>

theorem increment_then_parse:
  "(parseSemanticVersion v = Inr \<lparr>major = Num M, minor = Num m, patch = Num p\<rparr>
      \<and> M < 2 ^ 53 \<and> m < 2 ^ 53 \<and> p < 2 ^ 53 \<longrightarrow>
        parse_after_increment v ''patch'' = Inr \<lparr>major = Num M, minor = Num m, patch = Num (p + 1)\<rparr>
      \<and> parse_after_increment v ''minor'' = Inr \<lparr>major = Num M, minor = Num (m + 1), patch = Num 0\<rparr>
      \<and> parse_after_increment v ''major'' = Inr \<lparr>major = Num (M + 1), minor = Num 0, patch = Num 0\<rparr>)
   \<and> (parseSemanticVersion v = Inl e \<longrightarrow>
        incrementSemanticVersion v kind = Inl (Error (''Invalid version format: '' @ v)))
   \<and> (parseSemanticVersion v = Inr sv \<and> kind \<noteq> ''major'' \<and> kind \<noteq> ''minor'' \<and> kind \<noteq> ''patch'' \<longrightarrow>
        incrementSemanticVersion v kind = Inl (Error (''Invalid increment type: '' @ kind)))"
proof (intro conjI impI)
  assume "parseSemanticVersion v = Inl e"
  then show "incrementSemanticVersion v kind = Inl (Error (''Invalid version format: '' @ v))"
    using parse_error_message[of v e] by (simp add: incrementSemanticVersion_def)
next
  assume "parseSemanticVersion v = Inr sv \<and> kind \<noteq> ''major'' \<and> kind \<noteq> ''minor'' \<and> kind \<noteq> ''patch''"
  then show "incrementSemanticVersion v kind = Inl (Error (''Invalid increment type: '' @ kind))"
    by (simp add: incrementSemanticVersion_def)
qed (simp_all add: increment_small)

text \<open>The theorem at \<open>1.2.3\<close>, at the unparseable \<open>1.2\<close> and at the kind \<open>bogus\<close>.\<close>

theorem increment_then_parse_witness:
  "parseSemanticVersion ''1.2.3'' = Inr \<lparr>major = Num 1, minor = Num 2, patch = Num 3\<rparr>
   \<and> parse_after_increment ''1.2.3'' ''patch'' = Inr \<lparr>major = Num 1, minor = Num 2, patch = Num 4\<rparr>
   \<and> parse_after_increment ''1.2.3'' ''minor'' = Inr \<lparr>major = Num 1, minor = Num 3, patch = Num 0\<rparr>
   \<and> parse_after_increment ''1.2.3'' ''major'' = Inr \<lparr>major = Num 2, minor = Num 0, patch = Num 0\<rparr>
   \<and> parseSemanticVersion ''1.2'' = Inl (Error ''Invalid version format: 1.2'')
   \<and> incrementSemanticVersion ''1.2'' ''patch'' = Inl (Error ''Invalid version format: 1.2'')
   \<and> incrementSemanticVersion ''1.2.3'' ''bogus'' = Inl (Error ''Invalid increment type: bogus'')"
proof -
  have a: "parseSemanticVersion ''1.2.3'' = Inr \<lparr>major = Num 1, minor = Num 2, patch = Num 3\<rparr>"
    by code_simp
  have b: "parseSemanticVersion ''1.2'' = Inl (Error ''Invalid version format: 1.2'')"
    by code_simp
  show ?thesis
    using a b
      increment_then_parse[of "''1.2.3''" 1 2 3 "Error []" "''bogus''" "\<lparr>major = Num 1, minor = Num 2, patch = Num 3\<rparr>"]
      increment_then_parse[of "''1.2''" 0 0 0 "Error ''Invalid version format: 1.2''" "''patch''"
        "\<lparr>major = Num 0, minor = Num 0, patch = Num 0\<rparr>"]
    by simp
qed

text \<open>
  Claim C5 as stated fails at the valid version string \<open>0.0.9007199254740992\<close>: the
  patch component is \<open>2^53\<close>, adding one to it rounds back to \<open>2^53\<close>, and the
  incremented version parses to the same patch number.
\<close>

theorem increment_safe_range_counterexample:
  "parseSemanticVersion ''0.0.9007199254740992''
     = Inr \<lparr>major = Num 0, minor = Num 0, patch = Num 9007199254740992\<rparr>
   \<and> parse_after_increment ''0.0.9007199254740992'' ''patch''
     = Inr \<lparr>major = Num 0, minor = Num 0, patch = Num 9007199254740992\<rparr>
   \<and> parse_after_increment ''0.0.9007199254740992'' ''patch''
     \<noteq> Inr \<lparr>major = Num 0, minor = Num 0, patch = Num (9007199254740992 + 1)\<rparr>"
  by code_simp


text \<open>
  Claim C3, as amended. \<open>calculateNewBuildNumber\<close> auto-increments the current value when
  the user value is \<open>true\<close> or falsy (the empty string, \<open>false\<close>, \<open>undefined\<close>,
  \<open>null\<close>, the number zero, \<open>NaN\<close>) and otherwise returns \<open>parseInt\<close> of the user
  value; the string \<open>"0"\<close> is an override giving 0; and the five concrete values of the
  specification hold.
\<close>

theorem calculateNewBuildNumber_cases:
  "calculateNewBuildNumber u c =
     (if u = JBool True \<or> u = JStr [] \<or> u = JBool False \<or> u = JUndefined \<or> u = JNull
         \<or> u = JNum (Num 0) \<or> u = JNum NaN
      then num_add (parseInt c) 1 else parseInt u)
   \<and> calculateNewBuildNumber (JStr ''0'') c = Num 0
   \<and> calculateNewBuildNumber (JBool True) (JStr ''41'') = Num 42
   \<and> calculateNewBuildNumber (JStr ''99'') (JStr ''41'') = Num 99
   \<and> calculateNewBuildNumber (JStr ''0'') (JStr ''10'') = Num 0
   \<and> calculateNewBuildNumber (JStr []) (JStr ''10'') = Num 11
   \<and> calculateNewBuildNumber (JBool False) (JStr ''10'') = Num 11"
proof -
  have g: "calculateNewBuildNumber u c =
     (if u = JBool True \<or> u = JStr [] \<or> u = JBool False \<or> u = JUndefined \<or> u = JNull
         \<or> u = JNum (Num 0) \<or> u = JNum NaN
      then num_add (parseInt c) 1 else parseInt u)"
    by (cases u) (auto simp: calculateNewBuildNumber_def)
  have z: "parseInt (JStr ''0'') = Num 0" by code_simp
  have e1: "num_add (parseInt (JStr ''41'')) 1 = Num 42" by code_simp
  have e2: "parseInt (JStr ''99'') = Num 99" by code_simp
  have e3: "num_add (parseInt (JStr ''10'')) 1 = Num 11" by code_simp
  show ?thesis
    using g z e1 e2 e3 by (simp add: calculateNewBuildNumber_def)
qed

text \<open>
  Claim C3 as stated fails at the numeric zero: \<open>parseInt(0)\<close> is 0, but the number 0 is
  falsy, so \<open>calculateNewBuildNumber(0, "10")\<close> auto-increments to 11.
\<close>

theorem calculateNewBuildNumber_zero_counterexample:
  "parseInt (JNum (Num 0)) = Num 0
   \<and> calculateNewBuildNumber (JNum (Num 0)) (JStr ''10'') = Num 11"
  by code_simp

section \<open>The mutators: proofs\<close>

lemma warn_fields [simp]:
  "disk (warn m st) = disk st" "writes (warn m st) = writes st" "changes (warn m st) = changes st"
  "packageJsonUpdated (warn m st) = packageJsonUpdated st" "dryRun (warn m st) = dryRun st"
  "packageJsonPath (warn m st) = packageJsonPath st" "projectRoot (warn m st) = projectRoot st"
  "increment (warn m st) = increment st" "warnings (warn m st) = warnings st @ [m]"
  by (simp_all add: warn_def)

lemma readFileSync_File: "disk st p = Some (File c) \<Longrightarrow> readFileSync st p = Inr c"
  by (simp add: readFileSync_def)










text \<open>With \<open>null\<close> (Skip) for \<open>versionCode\<close>, \<open>processAndroidFile\<close> does exactly what it
  does for \<open>true\<close> (auto-increment): \<open>calculateNewBuildNumber\<close> takes \<open>null\<close> for "not
  provided", and the replacement and the change record of \<open>versionCode\<close> are
  unconditional.\<close>

lemma calculateNewBuildNumber_null:
  "calculateNewBuildNumber JNull c = calculateNewBuildNumber (JBool True) c"
  by (simp add: calculateNewBuildNumber_def)

lemma android_null_versionCode_autoincrements:
  "processAndroidFile rt f JNull vn st = processAndroidFile rt f (JBool True) vn st"
  unfolding processAndroidFile_def calculateNewBuildNumber_null by (rule refl)

text \<open>
  Claim C1 fails on the code for the Android build number. At the example project, in
  name-only mode (\<open>versionCode\<close> is \<open>null\<close>, Skip, and \<open>versionName\<close> is
  auto-incremented), the file on disk has \<open>versionCode 2\<close> in place of \<open>versionCode 1\<close>
  and the change log holds a record for \<open>versionCode\<close>.
\<close>

theorem android_skip_versionCode_rewritten:
  "disk example_project ''/app/android/app/build.gradle''
     = Some (File (''versionCode 1 versionName '' @ [dq] @ ''1.0.0'' @ [dq]))
   \<and> disk (snd (updateAndroidVersions example_runtime [''/app/android/app/build.gradle'']
                  JNull (JBool True) example_project)) ''/app/android/app/build.gradle''
     = Some (File (''versionCode 2 versionName '' @ [dq] @ ''1.0.1'' @ [dq]))
   \<and> map (\<lambda>c. (item c, oldValue c, newValue c))
        (changes (snd (updateAndroidVersions example_runtime [''/app/android/app/build.gradle'']
                         JNull (JBool True) example_project)))
     = [(''versionCode'', JStr ''1'', JNum (Num 2)),
        (''versionName'', JStr ''1.0.0'', JStr ''1.0.1'')]
   \<and> fst (updateAndroidVersions example_runtime [''/app/android/app/build.gradle'']
            JNull (JBool True) example_project)
     = Inr [AndroidResult ''/app/android/app/build.gradle'' (Num 2) (JStr ''1.0.1'')]"
  by code_simp

section \<open>Replacing every occurrence: proofs\<close>
























section \<open>Dry run: proofs\<close>

text \<open>Two runs side by side, one dry and one not: they agree on everything but the
  disk, the write log and the flag, and their disks agree outside the set \<open>W\<close> of paths
  the second run has written.\<close>

definition sim :: "string set \<Rightarrow> state \<Rightarrow> state \<Rightarrow> bool" where
  "sim W sd sw =
     (projectRoot sd = projectRoot sw \<and> increment sd = increment sw
      \<and> packageJsonPath sd = packageJsonPath sw \<and> packageJsonUpdated sd = packageJsonUpdated sw
      \<and> changes sd = changes sw \<and> warnings sd = warnings sw
      \<and> dryRun sd \<and> \<not> dryRun sw \<and> (\<forall>p. p \<notin> W \<longrightarrow> disk sd p = disk sw p))"

lemma sim_mono: "sim W sd sw \<Longrightarrow> W \<subseteq> W' \<Longrightarrow> sim W' sd sw"
  by (auto simp: sim_def)

lemma sim_start: "dryRun st \<Longrightarrow> sim {} st (st\<lparr>dryRun := False\<rparr>)"
  by (simp add: sim_def)

lemma sim_warn: "sim W sd sw \<Longrightarrow> sim W (warn m sd) (warn m sw)"
  by (simp add: sim_def)

lemma sim_read:
  "sim W sd sw \<Longrightarrow> p \<notin> W \<Longrightarrow> existsSync sd p = existsSync sw p \<and> readFileSync sd p = readFileSync sw p"
  by (simp add: sim_def existsSync_def readFileSync_def)

lemma sim_relative: "sim W sd sw \<Longrightarrow> relative_file rt sd p = relative_file rt sw p"
  by (simp add: sim_def relative_file_def)

lemma relative_file_frame [simp]:
  "relative_file rt (writeFileSync p c st) q = relative_file rt st q"
  "relative_file rt (st\<lparr>changes := cs\<rparr>) q = relative_file rt st q"
  by (simp_all add: relative_file_def writeFileSync_def)

lemma updatePackageJsonVersion_dry:
  "dryRun st \<Longrightarrow>
   disk (snd (updatePackageJsonVersion rt p v st)) = disk st
   \<and> writes (snd (updatePackageJsonVersion rt p v st)) = writes st"
  by (auto simp: updatePackageJsonVersion_def Let_def recordPackageJsonChange_def
        split: sum.splits option.splits)

lemma updatePackageJsonVersion_static:
  "dryRun (snd (updatePackageJsonVersion rt p v st)) = dryRun st
   \<and> packageJsonPath (snd (updatePackageJsonVersion rt p v st)) = packageJsonPath st
   \<and> packageJsonUpdated (snd (updatePackageJsonVersion rt p v st)) = packageJsonUpdated st
   \<and> projectRoot (snd (updatePackageJsonVersion rt p v st)) = projectRoot st
   \<and> increment (snd (updatePackageJsonVersion rt p v st)) = increment st"
  by (auto simp: updatePackageJsonVersion_def Let_def recordPackageJsonChange_def writeFileSync_def
        split: sum.splits option.splits)

lemma updatePackageJsonVersion_sim:
  assumes "sim W sd sw" and "p \<notin> W"
  shows "fst (updatePackageJsonVersion rt p v sd) = fst (updatePackageJsonVersion rt p v sw)
         \<and> sim (insert p W) (snd (updatePackageJsonVersion rt p v sd))
                (snd (updatePackageJsonVersion rt p v sw))"
proof -
  from sim_read[OF assms] have r: "existsSync sd p = existsSync sw p"
    "readFileSync sd p = readFileSync sw p" by simp_all
  from assms(1) have d: "dryRun sd" "\<not> dryRun sw" by (simp_all add: sim_def)
  have s1: "sim (insert p W) sd sw" using assms(1) by (rule sim_mono) auto
  have sw: "\<And>m. sim (insert p W) (warn m sd) (warn m sw)" using s1 by (rule sim_warn)
  have rec: "\<And>c old. sim (insert p W) (recordPackageJsonChange rt p old v sd)
                (recordPackageJsonChange rt p old v (writeFileSync p c sw))"
    using s1 by (auto simp: sim_def recordPackageJsonChange_def writeFileSync_def relative_file_def)
  show ?thesis
    unfolding updatePackageJsonVersion_def r
    using d s1 sw rec
    by (auto simp: Let_def split: sum.splits option.splits)
qed


lemma sim_write: "sim W sd sw \<Longrightarrow> sim (insert f W) sd (writeFileSync f c sw)"
  by (auto simp: sim_def writeFileSync_def)

lemma sim_guard:
  "sim W a b \<Longrightarrow> sim W (a\<lparr>packageJsonUpdated := True\<rparr>) (b\<lparr>packageJsonUpdated := True\<rparr>)"
  by (simp add: sim_def)

lemma sim_wants: "sim W a b \<Longrightarrow> wants_package_update a x = wants_package_update b x"
  by (simp add: sim_def wants_package_update_def)

lemma sim_increment: "sim W a b \<Longrightarrow> increment_or_patch a = increment_or_patch b"
  by (simp add: sim_def increment_or_patch_def)

lemma sim_path: "sim W a b \<Longrightarrow> packageJsonPath a = packageJsonPath b"
  by (simp add: sim_def)

lemma sim_recordAndroidChanges:
  "sim W a b \<Longrightarrow>
   sim W (recordAndroidChanges rt f oc nc on nn u a) (recordAndroidChanges rt f oc nc on nn u b)"
  by (auto simp: sim_def recordAndroidChanges_def Let_def relative_file_def)

lemma sim_recordIOSChanges:
  "sim W a b \<Longrightarrow>
   sim W (recordIOSChanges rt f oc nc on nn u1 u2 a) (recordIOSChanges rt f oc nc on nn u1 u2 b)"
  by (auto simp: sim_def recordIOSChanges_def Let_def relative_file_def)

lemma recordAndroidChanges_static [simp]:
  "packageJsonPath (recordAndroidChanges rt f oc nc on nn u a) = packageJsonPath a"
  "packageJsonUpdated (recordAndroidChanges rt f oc nc on nn u a) = packageJsonUpdated a"
  "dryRun (recordAndroidChanges rt f oc nc on nn u a) = dryRun a"
  "disk (recordAndroidChanges rt f oc nc on nn u a) = disk a"
  "writes (recordAndroidChanges rt f oc nc on nn u a) = writes a"
  "projectRoot (recordAndroidChanges rt f oc nc on nn u a) = projectRoot a"
  "increment (recordAndroidChanges rt f oc nc on nn u a) = increment a"
  "warnings (recordAndroidChanges rt f oc nc on nn u a) = warnings a"
  by (simp_all add: recordAndroidChanges_def Let_def)

lemma recordIOSChanges_static [simp]:
  "packageJsonPath (recordIOSChanges rt f oc nc on nn u1 u2 a) = packageJsonPath a"
  "packageJsonUpdated (recordIOSChanges rt f oc nc on nn u1 u2 a) = packageJsonUpdated a"
  "dryRun (recordIOSChanges rt f oc nc on nn u1 u2 a) = dryRun a"
  "disk (recordIOSChanges rt f oc nc on nn u1 u2 a) = disk a"
  "writes (recordIOSChanges rt f oc nc on nn u1 u2 a) = writes a"
  "projectRoot (recordIOSChanges rt f oc nc on nn u1 u2 a) = projectRoot a"
  "increment (recordIOSChanges rt f oc nc on nn u1 u2 a) = increment a"
  "warnings (recordIOSChanges rt f oc nc on nn u1 u2 a) = warnings a"
  by (simp_all add: recordIOSChanges_def Let_def)

lemma writeFileSync_static [simp]:
  "packageJsonPath (writeFileSync f c a) = packageJsonPath a"
  "packageJsonUpdated (writeFileSync f c a) = packageJsonUpdated a"
  "dryRun (writeFileSync f c a) = dryRun a"
  "projectRoot (writeFileSync f c a) = projectRoot a"
  "increment (writeFileSync f c a) = increment a"
  "changes (writeFileSync f c a) = changes a"
  "warnings (writeFileSync f c a) = warnings a"
  by (simp_all add: writeFileSync_def)

text \<open>What a platform mutator does once the file is read and both fields are found.\<close>

definition finish_file ::
  "runtime \<Rightarrow> 'r \<Rightarrow> jsval \<Rightarrow> jsval \<Rightarrow> state \<Rightarrow> (error + 'r option) \<times> state" where
  "finish_file rt res field newVersion st2 =
     (if wants_package_update st2 field then
        (case updatePackageJsonVersion rt (the (packageJsonPath st2)) newVersion st2 of
           (Inl e, st3) \<Rightarrow> (Inl e, st3)
         | (Inr r, st3) \<Rightarrow> (Inr (Some res), st3\<lparr>packageJsonUpdated := True\<rparr>))
      else (Inr (Some res), st2))"

lemma updatePackageJsonVersion_error:
  "fst (updatePackageJsonVersion rt p v st) = Inl e \<Longrightarrow> snd (updatePackageJsonVersion rt p v st) = st"
  by (auto simp: updatePackageJsonVersion_def Let_def split: sum.splits option.splits if_splits)

text \<open>The paths the second run may have written after a file: the file itself and,
  when the guard went up in this step, the package manifest.\<close>

definition touched :: "state \<Rightarrow> state \<Rightarrow> string set" where
  "touched before after =
     (if packageJsonUpdated after \<and> \<not> packageJsonUpdated before
      then set_option (packageJsonPath before) else {})"

lemma finish_file_sim:
  assumes "sim W a b"
    and "\<not> packageJsonUpdated a \<longrightarrow> (\<forall>q. packageJsonPath a = Some q \<longrightarrow> q \<notin> W)"
  shows "fst (finish_file rt res field nv a) = fst (finish_file rt res field nv b)
         \<and> sim (W \<union> touched a (snd (finish_file rt res field nv a)))
               (snd (finish_file rt res field nv a)) (snd (finish_file rt res field nv b))"
proof (cases "wants_package_update a field")
  case False
  with sim_wants[OF assms(1), of field] have "\<not> wants_package_update b field" by simp
  with False show ?thesis
    using assms(1) by (auto simp: finish_file_def intro: sim_mono)
next
  case True
  with sim_wants[OF assms(1), of field] have wb: "wants_package_update b field" by simp
  from True obtain q where q: "packageJsonPath a = Some q" "\<not> packageJsonUpdated a"
    by (auto simp: wants_package_update_def split: option.splits)
  with assms(2) have qW: "q \<notin> W" by simp
  from sim_path[OF assms(1)] q have qb: "packageJsonPath b = Some q" by simp
  from updatePackageJsonVersion_sim[OF assms(1) qW, of rt nv]
  have u: "fst (updatePackageJsonVersion rt q nv a) = fst (updatePackageJsonVersion rt q nv b)"
    "sim (insert q W) (snd (updatePackageJsonVersion rt q nv a)) (snd (updatePackageJsonVersion rt q nv b))"
    by simp_all
  obtain ra sa where a: "updatePackageJsonVersion rt q nv a = (ra, sa)"
    by (cases "updatePackageJsonVersion rt q nv a")
  obtain rb sb where b: "updatePackageJsonVersion rt q nv b = (rb, sb)"
    by (cases "updatePackageJsonVersion rt q nv b")
  from u a b have e: "ra = rb" "sim (insert q W) sa sb" by simp_all
  show ?thesis
  proof (cases rb)
    case (Inl err)
    from updatePackageJsonVersion_error[of rt q nv a err] a e Inl have sa: "sa = a" by simp
    from updatePackageJsonVersion_error[of rt q nv b err] b Inl have sb: "sb = b" by simp
    show ?thesis
      using True wb q qb a b e Inl sa sb assms(1)
      by (simp add: finish_file_def touched_def)
  next
    case (Inr r)
    show ?thesis
      using True wb q qb a b e Inr sim_guard[OF e(2)]
      by (simp add: finish_file_def touched_def)
  qed
qed

lemma finish_file_static:
  "packageJsonPath (snd (finish_file rt res field nv a)) = packageJsonPath a
   \<and> dryRun (snd (finish_file rt res field nv a)) = dryRun a
   \<and> (packageJsonUpdated a \<longrightarrow> packageJsonUpdated (snd (finish_file rt res field nv a)))"
  using updatePackageJsonVersion_static[of rt "the (packageJsonPath a)" nv a]
  by (auto simp: finish_file_def split: prod.splits sum.splits)

lemma finish_file_dry:
  "dryRun a \<Longrightarrow>
   disk (snd (finish_file rt res field nv a)) = disk a
   \<and> writes (snd (finish_file rt res field nv a)) = writes a"
  using updatePackageJsonVersion_dry[of a rt "the (packageJsonPath a)" nv]
  by (auto simp: finish_file_def split: prod.splits sum.splits)

text \<open>What a platform mutator computes from the text it has read: an exception, a skip,
  or the old values, the new values and the new text.\<close>

definition android_plan ::
  "error + string \<Rightarrow> string \<Rightarrow> jsval \<Rightarrow> jsval
     \<Rightarrow> error + (string \<times> string \<times> jsnum \<times> jsval \<times> string) option" where
  "android_plan rd inc vc vn =
     (case rd of
        Inl e \<Rightarrow> Inl e
      | Inr content \<Rightarrow>
          if falsy_capture (first_capture versionCode_re content)
             \<or> falsy_capture (first_capture versionName_re content) then Inr None
          else
            (case (if vn \<noteq> JNull
                   then calculateNewSemanticVersion vn (the (first_capture versionName_re content)) inc
                   else Inr (JStr (the (first_capture versionName_re content)))) of
               Inl e \<Rightarrow> Inl e
             | Inr nvn \<Rightarrow>
                 Inr (Some (the (first_capture versionCode_re content),
                            the (first_capture versionName_re content),
                            calculateNewBuildNumber vc (JStr (the (first_capture versionCode_re content))),
                            nvn,
                            updateAndroidFileContent content
                              (calculateNewBuildNumber vc (JStr (the (first_capture versionCode_re content))))
                              nvn (vn \<noteq> JNull)))))"

lemma processAndroidFile_plan:
  "processAndroidFile rt f vc vn st =
     (if \<not> existsSync st f then (Inr None, warn (''Android build.gradle not found: '' @ f) st)
      else case android_plan (readFileSync st f) (increment_or_patch st) vc vn of
             Inl e \<Rightarrow> (Inl e, st)
           | Inr None \<Rightarrow> (Inr None, warn (''Could not find version values in: '' @ f) st)
           | Inr (Some (cvc, cvn, nvc, nvn, content')) \<Rightarrow>
               finish_file rt (AndroidResult f nvc nvn) vn nvn
                 (recordAndroidChanges rt f cvc nvc cvn nvn (vn \<noteq> JNull)
                    (if \<not> dryRun st then writeFileSync f content' st else st)))"
  unfolding processAndroidFile_def android_plan_def finish_file_def Let_def
  by (simp split: sum.splits)

definition ios_plan ::
  "error + string \<Rightarrow> string \<Rightarrow> jsval \<Rightarrow> jsval
     \<Rightarrow> error + (string \<times> string \<times> jsnum \<times> jsval \<times> string) option" where
  "ios_plan rd inc cpv mv =
     (case rd of
        Inl e \<Rightarrow> Inl e
      | Inr content \<Rightarrow>
          if match_all currentProjectVersion_re content = []
             \<or> match_all marketingVersion_re content = [] then Inr None
          else
            (case (first_capture [CapPlus is_digit] (hd (match_all currentProjectVersion_re content)),
                   first_capture marketingVersion_re (hd (match_all marketingVersion_re content))) of
               (Some cv, Some mvv) \<Rightarrow>
                 (case (if mv \<noteq> JNull then calculateNewSemanticVersion mv mvv inc
                        else Inr (JStr mvv)) of
                    Inl e \<Rightarrow> Inl e
                  | Inr nmv \<Rightarrow>
                      Inr (Some (cv, mvv,
                                 (if cpv \<noteq> JNull then calculateNewBuildNumber cpv (JStr cv)
                                  else parseInt (JStr cv)),
                                 nmv,
                                 updateIOSFileContent content
                                   (if cpv \<noteq> JNull then calculateNewBuildNumber cpv (JStr cv)
                                    else parseInt (JStr cv))
                                   nmv (cpv \<noteq> JNull) (mv \<noteq> JNull))))
             | _ \<Rightarrow> Inl (TypeError ''Cannot read properties of null (reading 1)'')))"

lemma processIOSFile_plan:
  "processIOSFile rt f cpv mv st =
     (if \<not> existsSync st f then (Inr None, warn (''iOS project.pbxproj not found: '' @ f) st)
      else case ios_plan (readFileSync st f) (increment_or_patch st) cpv mv of
             Inl e \<Rightarrow> (Inl e, st)
           | Inr None \<Rightarrow> (Inr None, warn (''Could not find version values in: '' @ f) st)
           | Inr (Some (cv, mvv, ncv, nmv, content')) \<Rightarrow>
               finish_file rt (IOSResult f ncv nmv) mv nmv
                 (recordIOSChanges rt f cv ncv mvv nmv (cpv \<noteq> JNull) (mv \<noteq> JNull)
                    (if \<not> dryRun st then writeFileSync f content' st else st)))"
  unfolding processIOSFile_def ios_plan_def finish_file_def Let_def
  by (simp split: sum.splits option.splits)


lemma processAndroidFile_static:
  "packageJsonPath (snd (processAndroidFile rt f vc vn st)) = packageJsonPath st
   \<and> dryRun (snd (processAndroidFile rt f vc vn st)) = dryRun st
   \<and> (packageJsonUpdated st \<longrightarrow> packageJsonUpdated (snd (processAndroidFile rt f vc vn st)))"
  unfolding processAndroidFile_plan
  by (auto simp: finish_file_static split: sum.splits option.splits)

lemma processIOSFile_static:
  "packageJsonPath (snd (processIOSFile rt f cpv mv st)) = packageJsonPath st
   \<and> dryRun (snd (processIOSFile rt f cpv mv st)) = dryRun st
   \<and> (packageJsonUpdated st \<longrightarrow> packageJsonUpdated (snd (processIOSFile rt f cpv mv st)))"
  unfolding processIOSFile_plan
  by (auto simp: finish_file_static split: sum.splits option.splits)

lemma processAndroidFile_dry:
  "dryRun st \<Longrightarrow>
   disk (snd (processAndroidFile rt f vc vn st)) = disk st
   \<and> writes (snd (processAndroidFile rt f vc vn st)) = writes st"
  unfolding processAndroidFile_plan
  by (auto simp: finish_file_dry split: sum.splits option.splits)

lemma processIOSFile_dry:
  "dryRun st \<Longrightarrow>
   disk (snd (processIOSFile rt f cpv mv st)) = disk st
   \<and> writes (snd (processIOSFile rt f cpv mv st)) = writes st"
  unfolding processIOSFile_plan
  by (auto simp: finish_file_dry split: sum.splits option.splits)

lemma updateAndroidVersions_dry:
  "dryRun st \<Longrightarrow>
   disk (snd (updateAndroidVersions rt files vc vn st)) = disk st
   \<and> writes (snd (updateAndroidVersions rt files vc vn st)) = writes st"
proof (induction files arbitrary: st)
  case Nil
  then show ?case by simp
next
  case (Cons f files)
  obtain r s1 where p: "processAndroidFile rt f vc vn st = (r, s1)"
    by (cases "processAndroidFile rt f vc vn st")
  from processAndroidFile_dry[OF Cons.prems, of rt f vc vn] processAndroidFile_static[of rt f vc vn st] p
    Cons.prems
  have s1: "disk s1 = disk st" "writes s1 = writes st" "dryRun s1" by simp_all
  from Cons.IH[OF s1(3)] s1 p show ?case
    by (auto split: sum.splits prod.splits)
qed

lemma updateIOSVersions_dry:
  "dryRun st \<Longrightarrow>
   disk (snd (updateIOSVersions rt files cpv mv st)) = disk st
   \<and> writes (snd (updateIOSVersions rt files cpv mv st)) = writes st"
proof (induction files arbitrary: st)
  case Nil
  then show ?case by simp
next
  case (Cons f files)
  obtain r s1 where p: "processIOSFile rt f cpv mv st = (r, s1)"
    by (cases "processIOSFile rt f cpv mv st")
  from processIOSFile_dry[OF Cons.prems, of rt f cpv mv] processIOSFile_static[of rt f cpv mv st] p
    Cons.prems
  have s1: "disk s1 = disk st" "writes s1 = writes st" "dryRun s1" by simp_all
  from Cons.IH[OF s1(3)] s1 p show ?case
    by (auto split: sum.splits prod.splits)
qed


lemma touched_record [simp]:
  "touched (recordAndroidChanges rt f oc nc on nn u a) s = touched a s"
  "touched (recordIOSChanges rt f oc nc on nn u1 u2 a) s = touched a s"
  by (simp_all add: touched_def)

lemma processAndroidFile_sim:
  assumes "sim W a b" and "f \<notin> W"
    and "\<not> packageJsonUpdated a \<longrightarrow> (\<forall>q. packageJsonPath a = Some q \<longrightarrow> q \<notin> W \<and> q \<noteq> f)"
  shows "fst (processAndroidFile rt f vc vn a) = fst (processAndroidFile rt f vc vn b)
         \<and> sim (insert f W \<union> touched a (snd (processAndroidFile rt f vc vn a)))
               (snd (processAndroidFile rt f vc vn a)) (snd (processAndroidFile rt f vc vn b))"
proof -
  from sim_read[OF assms(1,2)] have r: "existsSync a f = existsSync b f"
    "readFileSync a f = readFileSync b f" by simp_all
  note i = sim_increment[OF assms(1)]
  from assms(1) have d: "dryRun a" "\<not> dryRun b" by (simp_all add: sim_def)
  have big: "\<And>m W'. sim (insert f W \<union> W') (warn m a) (warn m b)"
    using assms(1) by (intro sim_mono[OF sim_warn]) auto
  have err: "\<And>W'. sim (insert f W \<union> W') a b"
    using assms(1) by (rule sim_mono) auto
  show ?thesis
  proof (cases "android_plan (readFileSync b f) (increment_or_patch b) vc vn")
    case (Inl e)
    then show ?thesis unfolding processAndroidFile_plan r i using big err by simp
  next
    case (Inr opt)
    show ?thesis
    proof (cases opt)
      case None
      with Inr show ?thesis unfolding processAndroidFile_plan r i using big by simp
    next
      case (Some t)
      obtain cvc cvn nvc nvn c' where t: "t = (cvc, cvn, nvc, nvn, c')" by (cases t) auto
      let ?a1 = "recordAndroidChanges rt f cvc nvc cvn nvn (vn \<noteq> JNull) a"
      let ?b1 = "recordAndroidChanges rt f cvc nvc cvn nvn (vn \<noteq> JNull) (writeFileSync f c' b)"
      have s1: "sim (insert f W) ?a1 ?b1"
        by (intro sim_recordAndroidChanges sim_write assms(1))
      have inv: "\<not> packageJsonUpdated ?a1 \<longrightarrow> (\<forall>q. packageJsonPath ?a1 = Some q \<longrightarrow> q \<notin> insert f W)"
        using assms(3) by auto
      from finish_file_sim[OF s1 inv, of rt "AndroidResult f nvc nvn" vn nvn]
      show ?thesis
        unfolding processAndroidFile_plan r i using Inr Some t d big by simp
    qed
  qed
qed

lemma processIOSFile_sim:
  assumes "sim W a b" and "f \<notin> W"
    and "\<not> packageJsonUpdated a \<longrightarrow> (\<forall>q. packageJsonPath a = Some q \<longrightarrow> q \<notin> W \<and> q \<noteq> f)"
  shows "fst (processIOSFile rt f cpv mv a) = fst (processIOSFile rt f cpv mv b)
         \<and> sim (insert f W \<union> touched a (snd (processIOSFile rt f cpv mv a)))
               (snd (processIOSFile rt f cpv mv a)) (snd (processIOSFile rt f cpv mv b))"
proof -
  from sim_read[OF assms(1,2)] have r: "existsSync a f = existsSync b f"
    "readFileSync a f = readFileSync b f" by simp_all
  note i = sim_increment[OF assms(1)]
  from assms(1) have d: "dryRun a" "\<not> dryRun b" by (simp_all add: sim_def)
  have big: "\<And>m W'. sim (insert f W \<union> W') (warn m a) (warn m b)"
    using assms(1) by (intro sim_mono[OF sim_warn]) auto
  have err: "\<And>W'. sim (insert f W \<union> W') a b"
    using assms(1) by (rule sim_mono) auto
  show ?thesis
  proof (cases "ios_plan (readFileSync b f) (increment_or_patch b) cpv mv")
    case (Inl e)
    then show ?thesis unfolding processIOSFile_plan r i using big err by simp
  next
    case (Inr opt)
    show ?thesis
    proof (cases opt)
      case None
      with Inr show ?thesis unfolding processIOSFile_plan r i using big by simp
    next
      case (Some t)
      obtain cv mvv ncv nmv c' where t: "t = (cv, mvv, ncv, nmv, c')" by (cases t) auto
      let ?a1 = "recordIOSChanges rt f cv ncv mvv nmv (cpv \<noteq> JNull) (mv \<noteq> JNull) a"
      let ?b1 = "recordIOSChanges rt f cv ncv mvv nmv (cpv \<noteq> JNull) (mv \<noteq> JNull) (writeFileSync f c' b)"
      have s1: "sim (insert f W) ?a1 ?b1"
        by (intro sim_recordIOSChanges sim_write assms(1))
      have inv: "\<not> packageJsonUpdated ?a1 \<longrightarrow> (\<forall>q. packageJsonPath ?a1 = Some q \<longrightarrow> q \<notin> insert f W)"
        using assms(3) by auto
      from finish_file_sim[OF s1 inv, of rt "IOSResult f ncv nmv" mv nmv]
      show ?thesis
        unfolding processIOSFile_plan r i using Inr Some t d big by simp
    qed
  qed
qed

text \<open>The condition under which a batch reads no path that the non-dry run has written
  before: no file comes twice, none is in \<open>W\<close>, and while the guard is down the package
  manifest is neither in \<open>W\<close> nor among the files.\<close>

definition fresh :: "string set \<Rightarrow> string list \<Rightarrow> state \<Rightarrow> bool" where
  "fresh W files st =
     (distinct files \<and> set files \<inter> W = {}
      \<and> (packageJsonUpdated st \<or> (case packageJsonPath st of
                                       None \<Rightarrow> True
                                     | Some q \<Rightarrow> q \<notin> W \<and> q \<notin> set files)))"

lemma fresh_step:
  assumes "fresh W (f # files) a"
    and "packageJsonPath a' = packageJsonPath a"
    and "packageJsonUpdated a \<longrightarrow> packageJsonUpdated a'"
  shows "fresh (insert f W \<union> touched a a') files a'"
  using assms by (auto simp: fresh_def touched_def split: option.splits)

lemma fresh_Nil: "fresh W files st \<Longrightarrow> fresh W [] st"
  by (auto simp: fresh_def split: option.splits)

lemma updateAndroidVersions_sim:
  "sim W a b \<Longrightarrow> fresh W files a \<Longrightarrow>
   fst (updateAndroidVersions rt files vc vn a) = fst (updateAndroidVersions rt files vc vn b)
   \<and> (\<exists>W'. sim W' (snd (updateAndroidVersions rt files vc vn a))
               (snd (updateAndroidVersions rt files vc vn b))
            \<and> fresh W' [] (snd (updateAndroidVersions rt files vc vn a)))"
proof (induction files arbitrary: W a b)
  case Nil
  then show ?case by auto
next
  case (Cons f files)
  obtain ra a1 where pa: "processAndroidFile rt f vc vn a = (ra, a1)"
    by (cases "processAndroidFile rt f vc vn a")
  obtain rb b1 where pb: "processAndroidFile rt f vc vn b = (rb, b1)"
    by (cases "processAndroidFile rt f vc vn b")
  from Cons.prems(2) have fW: "f \<notin> W"
    and inv: "\<not> packageJsonUpdated a \<longrightarrow> (\<forall>q. packageJsonPath a = Some q \<longrightarrow> q \<notin> W \<and> q \<noteq> f)"
    by (auto simp: fresh_def)
  from processAndroidFile_sim[OF Cons.prems(1) fW inv, of rt vc vn] pa pb
  have e: "ra = rb" and s1: "sim (insert f W \<union> touched a a1) a1 b1" by simp_all
  from processAndroidFile_static[of rt f vc vn a] pa
  have st: "packageJsonPath a1 = packageJsonPath a" "packageJsonUpdated a \<longrightarrow> packageJsonUpdated a1"
    by simp_all
  from fresh_step[OF Cons.prems(2) st] have f1: "fresh (insert f W \<union> touched a a1) files a1" .
  from Cons.IH[OF s1 f1] show ?case
  proof (cases rb)
    case (Inl err)
    with e pa pb s1 fresh_Nil[OF f1] show ?thesis
      by (auto intro!: exI[of _ "insert f W \<union> touched a a1"])
  next
    case (Inr r)
    with e pa pb Cons.IH[OF s1 f1] show ?thesis
      by (auto split: sum.splits prod.splits)
  qed
qed

lemma updateIOSVersions_sim:
  "sim W a b \<Longrightarrow> fresh W files a \<Longrightarrow>
   fst (updateIOSVersions rt files cpv mv a) = fst (updateIOSVersions rt files cpv mv b)
   \<and> (\<exists>W'. sim W' (snd (updateIOSVersions rt files cpv mv a))
               (snd (updateIOSVersions rt files cpv mv b))
            \<and> fresh W' [] (snd (updateIOSVersions rt files cpv mv a)))"
proof (induction files arbitrary: W a b)
  case Nil
  then show ?case by auto
next
  case (Cons f files)
  obtain ra a1 where pa: "processIOSFile rt f cpv mv a = (ra, a1)"
    by (cases "processIOSFile rt f cpv mv a")
  obtain rb b1 where pb: "processIOSFile rt f cpv mv b = (rb, b1)"
    by (cases "processIOSFile rt f cpv mv b")
  from Cons.prems(2) have fW: "f \<notin> W"
    and inv: "\<not> packageJsonUpdated a \<longrightarrow> (\<forall>q. packageJsonPath a = Some q \<longrightarrow> q \<notin> W \<and> q \<noteq> f)"
    by (auto simp: fresh_def)
  from processIOSFile_sim[OF Cons.prems(1) fW inv, of rt cpv mv] pa pb
  have e: "ra = rb" and s1: "sim (insert f W \<union> touched a a1) a1 b1" by simp_all
  from processIOSFile_static[of rt f cpv mv a] pa
  have st: "packageJsonPath a1 = packageJsonPath a" "packageJsonUpdated a \<longrightarrow> packageJsonUpdated a1"
    by simp_all
  from fresh_step[OF Cons.prems(2) st] have f1: "fresh (insert f W \<union> touched a a1) files a1" .
  from Cons.IH[OF s1 f1] show ?case
  proof (cases rb)
    case (Inl err)
    with e pa pb s1 fresh_Nil[OF f1] show ?thesis
      by (auto intro!: exI[of _ "insert f W \<union> touched a a1"])
  next
    case (Inr r)
    with e pa pb Cons.IH[OF s1 f1] show ?thesis
      by (auto split: sum.splits prod.splits)
  qed
qed


lemma sim_report:
  "sim W a b \<Longrightarrow>
   changes a = changes b \<and> packageJsonUpdated a = packageJsonUpdated b \<and> warnings a = warnings b"
  by (simp add: sim_def)

lemma fresh_start:
  "distinct files \<Longrightarrow> packageJsonUpdated st \<or> (\<forall>q. packageJsonPath st = Some q \<longrightarrow> q \<notin> set files)
   \<Longrightarrow> fresh {} files st"
  by (auto simp: fresh_def split: option.splits)

text \<open>
  Claim C6, as amended. With the dry-run flag set, \<open>updateAndroidVersions\<close>,
  \<open>updateIOSVersions\<close> and \<open>updatePackageJsonVersion\<close> leave the disk as it was and call
  \<open>writeFileSync\<close> not once, whether they return or throw. What they return, the change
  log, the guard and the warnings are those of the same call without the flag: for
  \<open>updatePackageJsonVersion\<close> always, for a batch when no file of the batch is listed twice
  and the package manifest (if it is still to be updated) is not one of the batch's files.
\<close>

theorem dry_run_writes_nothing:
  "dryRun st \<longrightarrow>
     disk (snd (updateAndroidVersions rt files vc vn st)) = disk st
   \<and> writes (snd (updateAndroidVersions rt files vc vn st)) = writes st
   \<and> disk (snd (updateIOSVersions rt files cpv mv st)) = disk st
   \<and> writes (snd (updateIOSVersions rt files cpv mv st)) = writes st
   \<and> disk (snd (updatePackageJsonVersion rt p v st)) = disk st
   \<and> writes (snd (updatePackageJsonVersion rt p v st)) = writes st
   \<and> fst (updatePackageJsonVersion rt p v st)
        = fst (updatePackageJsonVersion rt p v (st\<lparr>dryRun := False\<rparr>))
   \<and> changes (snd (updatePackageJsonVersion rt p v st))
        = changes (snd (updatePackageJsonVersion rt p v (st\<lparr>dryRun := False\<rparr>)))
   \<and> (distinct files
        \<and> (packageJsonUpdated st \<or> (\<forall>q. packageJsonPath st = Some q \<longrightarrow> q \<notin> set files)) \<longrightarrow>
        fst (updateAndroidVersions rt files vc vn st)
          = fst (updateAndroidVersions rt files vc vn (st\<lparr>dryRun := False\<rparr>))
      \<and> changes (snd (updateAndroidVersions rt files vc vn st))
          = changes (snd (updateAndroidVersions rt files vc vn (st\<lparr>dryRun := False\<rparr>)))
      \<and> packageJsonUpdated (snd (updateAndroidVersions rt files vc vn st))
          = packageJsonUpdated (snd (updateAndroidVersions rt files vc vn (st\<lparr>dryRun := False\<rparr>)))
      \<and> warnings (snd (updateAndroidVersions rt files vc vn st))
          = warnings (snd (updateAndroidVersions rt files vc vn (st\<lparr>dryRun := False\<rparr>)))
      \<and> fst (updateIOSVersions rt files cpv mv st)
          = fst (updateIOSVersions rt files cpv mv (st\<lparr>dryRun := False\<rparr>))
      \<and> changes (snd (updateIOSVersions rt files cpv mv st))
          = changes (snd (updateIOSVersions rt files cpv mv (st\<lparr>dryRun := False\<rparr>)))
      \<and> packageJsonUpdated (snd (updateIOSVersions rt files cpv mv st))
          = packageJsonUpdated (snd (updateIOSVersions rt files cpv mv (st\<lparr>dryRun := False\<rparr>)))
      \<and> warnings (snd (updateIOSVersions rt files cpv mv st))
          = warnings (snd (updateIOSVersions rt files cpv mv (st\<lparr>dryRun := False\<rparr>))))"
proof (intro impI)
  assume d: "dryRun st"
  note s0 = sim_start[OF d]
  from updatePackageJsonVersion_sim[OF s0, of p rt v]
  have pk: "fst (updatePackageJsonVersion rt p v st)
        = fst (updatePackageJsonVersion rt p v (st\<lparr>dryRun := False\<rparr>))"
    "changes (snd (updatePackageJsonVersion rt p v st))
        = changes (snd (updatePackageJsonVersion rt p v (st\<lparr>dryRun := False\<rparr>)))"
    by (auto dest: sim_report)
  have batch: "distinct files
        \<and> (packageJsonUpdated st \<or> (\<forall>q. packageJsonPath st = Some q \<longrightarrow> q \<notin> set files)) \<longrightarrow>
        fst (updateAndroidVersions rt files vc vn st)
          = fst (updateAndroidVersions rt files vc vn (st\<lparr>dryRun := False\<rparr>))
      \<and> changes (snd (updateAndroidVersions rt files vc vn st))
          = changes (snd (updateAndroidVersions rt files vc vn (st\<lparr>dryRun := False\<rparr>)))
      \<and> packageJsonUpdated (snd (updateAndroidVersions rt files vc vn st))
          = packageJsonUpdated (snd (updateAndroidVersions rt files vc vn (st\<lparr>dryRun := False\<rparr>)))
      \<and> warnings (snd (updateAndroidVersions rt files vc vn st))
          = warnings (snd (updateAndroidVersions rt files vc vn (st\<lparr>dryRun := False\<rparr>)))
      \<and> fst (updateIOSVersions rt files cpv mv st)
          = fst (updateIOSVersions rt files cpv mv (st\<lparr>dryRun := False\<rparr>))
      \<and> changes (snd (updateIOSVersions rt files cpv mv st))
          = changes (snd (updateIOSVersions rt files cpv mv (st\<lparr>dryRun := False\<rparr>)))
      \<and> packageJsonUpdated (snd (updateIOSVersions rt files cpv mv st))
          = packageJsonUpdated (snd (updateIOSVersions rt files cpv mv (st\<lparr>dryRun := False\<rparr>)))
      \<and> warnings (snd (updateIOSVersions rt files cpv mv st))
          = warnings (snd (updateIOSVersions rt files cpv mv (st\<lparr>dryRun := False\<rparr>)))"
  proof (intro impI)
    assume h: "distinct files
        \<and> (packageJsonUpdated st \<or> (\<forall>q. packageJsonPath st = Some q \<longrightarrow> q \<notin> set files))"
    then have fr: "fresh {} files st" by (intro fresh_start) auto
    from updateAndroidVersions_sim[OF s0 fr, of rt vc vn]
    obtain W1 where a: "fst (updateAndroidVersions rt files vc vn st)
          = fst (updateAndroidVersions rt files vc vn (st\<lparr>dryRun := False\<rparr>))"
      "sim W1 (snd (updateAndroidVersions rt files vc vn st))
          (snd (updateAndroidVersions rt files vc vn (st\<lparr>dryRun := False\<rparr>)))"
      by blast
    from updateIOSVersions_sim[OF s0 fr, of rt cpv mv]
    obtain W2 where i: "fst (updateIOSVersions rt files cpv mv st)
          = fst (updateIOSVersions rt files cpv mv (st\<lparr>dryRun := False\<rparr>))"
      "sim W2 (snd (updateIOSVersions rt files cpv mv st))
          (snd (updateIOSVersions rt files cpv mv (st\<lparr>dryRun := False\<rparr>)))"
      by blast
    from a(1) i(1) sim_report[OF a(2)] sim_report[OF i(2)]
    show "fst (updateAndroidVersions rt files vc vn st)
          = fst (updateAndroidVersions rt files vc vn (st\<lparr>dryRun := False\<rparr>))
      \<and> changes (snd (updateAndroidVersions rt files vc vn st))
          = changes (snd (updateAndroidVersions rt files vc vn (st\<lparr>dryRun := False\<rparr>)))
      \<and> packageJsonUpdated (snd (updateAndroidVersions rt files vc vn st))
          = packageJsonUpdated (snd (updateAndroidVersions rt files vc vn (st\<lparr>dryRun := False\<rparr>)))
      \<and> warnings (snd (updateAndroidVersions rt files vc vn st))
          = warnings (snd (updateAndroidVersions rt files vc vn (st\<lparr>dryRun := False\<rparr>)))
      \<and> fst (updateIOSVersions rt files cpv mv st)
          = fst (updateIOSVersions rt files cpv mv (st\<lparr>dryRun := False\<rparr>))
      \<and> changes (snd (updateIOSVersions rt files cpv mv st))
          = changes (snd (updateIOSVersions rt files cpv mv (st\<lparr>dryRun := False\<rparr>)))
      \<and> packageJsonUpdated (snd (updateIOSVersions rt files cpv mv st))
          = packageJsonUpdated (snd (updateIOSVersions rt files cpv mv (st\<lparr>dryRun := False\<rparr>)))
      \<and> warnings (snd (updateIOSVersions rt files cpv mv st))
          = warnings (snd (updateIOSVersions rt files cpv mv (st\<lparr>dryRun := False\<rparr>)))"
      by simp
  qed
  from updateAndroidVersions_dry[OF d, of rt files vc vn] updateIOSVersions_dry[OF d, of rt files cpv mv]
    updatePackageJsonVersion_dry[OF d, of rt p v] pk batch
  show "disk (snd (updateAndroidVersions rt files vc vn st)) = disk st
   \<and> writes (snd (updateAndroidVersions rt files vc vn st)) = writes st
   \<and> disk (snd (updateIOSVersions rt files cpv mv st)) = disk st
   \<and> writes (snd (updateIOSVersions rt files cpv mv st)) = writes st
   \<and> disk (snd (updatePackageJsonVersion rt p v st)) = disk st
   \<and> writes (snd (updatePackageJsonVersion rt p v st)) = writes st
   \<and> fst (updatePackageJsonVersion rt p v st)
        = fst (updatePackageJsonVersion rt p v (st\<lparr>dryRun := False\<rparr>))
   \<and> changes (snd (updatePackageJsonVersion rt p v st))
        = changes (snd (updatePackageJsonVersion rt p v (st\<lparr>dryRun := False\<rparr>)))
   \<and> (distinct files
        \<and> (packageJsonUpdated st \<or> (\<forall>q. packageJsonPath st = Some q \<longrightarrow> q \<notin> set files)) \<longrightarrow>
        fst (updateAndroidVersions rt files vc vn st)
          = fst (updateAndroidVersions rt files vc vn (st\<lparr>dryRun := False\<rparr>))
      \<and> changes (snd (updateAndroidVersions rt files vc vn st))
          = changes (snd (updateAndroidVersions rt files vc vn (st\<lparr>dryRun := False\<rparr>)))
      \<and> packageJsonUpdated (snd (updateAndroidVersions rt files vc vn st))
          = packageJsonUpdated (snd (updateAndroidVersions rt files vc vn (st\<lparr>dryRun := False\<rparr>)))
      \<and> warnings (snd (updateAndroidVersions rt files vc vn st))
          = warnings (snd (updateAndroidVersions rt files vc vn (st\<lparr>dryRun := False\<rparr>)))
      \<and> fst (updateIOSVersions rt files cpv mv st)
          = fst (updateIOSVersions rt files cpv mv (st\<lparr>dryRun := False\<rparr>))
      \<and> changes (snd (updateIOSVersions rt files cpv mv st))
          = changes (snd (updateIOSVersions rt files cpv mv (st\<lparr>dryRun := False\<rparr>)))
      \<and> packageJsonUpdated (snd (updateIOSVersions rt files cpv mv st))
          = packageJsonUpdated (snd (updateIOSVersions rt files cpv mv (st\<lparr>dryRun := False\<rparr>)))
      \<and> warnings (snd (updateIOSVersions rt files cpv mv st))
          = warnings (snd (updateIOSVersions rt files cpv mv (st\<lparr>dryRun := False\<rparr>))))"
    by blast
qed


text \<open>The theorem at the example project, run dry: the Android batch, the iOS batch and
  the manifest, with the values each of them computes.\<close>

theorem dry_run_writes_nothing_witness:
  "dryRun example_dry_run
   \<and> disk (snd (updateAndroidVersions example_runtime [''/app/android/app/build.gradle'']
        (JBool True) (JBool True) example_dry_run)) = disk example_dry_run
   \<and> writes (snd (updateAndroidVersions example_runtime [''/app/android/app/build.gradle'']
        (JBool True) (JBool True) example_dry_run)) = writes example_dry_run
   \<and> fst (updateAndroidVersions example_runtime [''/app/android/app/build.gradle'']
        (JBool True) (JBool True) example_dry_run)
      = fst (updateAndroidVersions example_runtime [''/app/android/app/build.gradle'']
        (JBool True) (JBool True) (example_dry_run\<lparr>dryRun := False\<rparr>))
   \<and> changes (snd (updateAndroidVersions example_runtime [''/app/android/app/build.gradle'']
        (JBool True) (JBool True) example_dry_run))
      = changes (snd (updateAndroidVersions example_runtime [''/app/android/app/build.gradle'']
        (JBool True) (JBool True) (example_dry_run\<lparr>dryRun := False\<rparr>)))
   \<and> disk (snd (updateIOSVersions example_runtime [''/app/ios/App.xcodeproj/project.pbxproj'']
        (JBool True) (JBool True) example_dry_run)) = disk example_dry_run
   \<and> writes (snd (updateIOSVersions example_runtime [''/app/ios/App.xcodeproj/project.pbxproj'']
        (JBool True) (JBool True) example_dry_run)) = writes example_dry_run
   \<and> fst (updateIOSVersions example_runtime [''/app/ios/App.xcodeproj/project.pbxproj'']
        (JBool True) (JBool True) example_dry_run)
      = fst (updateIOSVersions example_runtime [''/app/ios/App.xcodeproj/project.pbxproj'']
        (JBool True) (JBool True) (example_dry_run\<lparr>dryRun := False\<rparr>))
   \<and> changes (snd (updateIOSVersions example_runtime [''/app/ios/App.xcodeproj/project.pbxproj'']
        (JBool True) (JBool True) example_dry_run))
      = changes (snd (updateIOSVersions example_runtime [''/app/ios/App.xcodeproj/project.pbxproj'']
        (JBool True) (JBool True) (example_dry_run\<lparr>dryRun := False\<rparr>)))
   \<and> disk (snd (updatePackageJsonVersion example_runtime ''/app/package.json'' (JStr ''2.0.0'') example_dry_run)) = disk example_dry_run
   \<and> writes (snd (updatePackageJsonVersion example_runtime ''/app/package.json'' (JStr ''2.0.0'') example_dry_run)) = writes example_dry_run
   \<and> fst (updatePackageJsonVersion example_runtime ''/app/package.json'' (JStr ''2.0.0'') example_dry_run)
      = fst (updatePackageJsonVersion example_runtime ''/app/package.json'' (JStr ''2.0.0'') (example_dry_run\<lparr>dryRun := False\<rparr>))
   \<and> changes (snd (updatePackageJsonVersion example_runtime ''/app/package.json'' (JStr ''2.0.0'') example_dry_run))
      = changes (snd (updatePackageJsonVersion example_runtime ''/app/package.json'' (JStr ''2.0.0'') (example_dry_run\<lparr>dryRun := False\<rparr>)))
   \<and> fst (updateAndroidVersions example_runtime [''/app/android/app/build.gradle'']
        (JBool True) (JBool True) example_dry_run)
      = Inr [AndroidResult ''/app/android/app/build.gradle'' (Num 2) (JStr ''1.0.1'')]
   \<and> map (\<lambda>c. (platform c, item c, newValue c)) (changes (snd (updateAndroidVersions example_runtime [''/app/android/app/build.gradle'']
        (JBool True) (JBool True) example_dry_run)))
      = [(''Android'', ''versionCode'', JNum (Num 2)), (''Android'', ''versionName'', JStr ''1.0.1''),
         (''Package.json'', ''version'', JStr ''1.0.1'')]
   \<and> writes (snd (updateAndroidVersions example_runtime [''/app/android/app/build.gradle'']
        (JBool True) (JBool True) example_dry_run)) = []
   \<and> map fst (writes (snd (updateAndroidVersions example_runtime [''/app/android/app/build.gradle'']
        (JBool True) (JBool True) (example_dry_run\<lparr>dryRun := False\<rparr>))))
      = [''/app/android/app/build.gradle'', ''/app/package.json'']
   \<and> fst (updateIOSVersions example_runtime [''/app/ios/App.xcodeproj/project.pbxproj'']
        (JBool True) (JBool True) example_dry_run)
      = Inr [IOSResult ''/app/ios/App.xcodeproj/project.pbxproj'' (Num 2) (JStr ''1.0.1'')]
   \<and> map (\<lambda>c. (platform c, item c, newValue c)) (changes (snd (updateIOSVersions example_runtime [''/app/ios/App.xcodeproj/project.pbxproj'']
        (JBool True) (JBool True) example_dry_run)))
      = [(''iOS'', ''CURRENT_PROJECT_VERSION'', JNum (Num 2)), (''iOS'', ''MARKETING_VERSION'', JStr ''1.0.1''),
         (''Package.json'', ''version'', JStr ''1.0.1'')]
   \<and> writes (snd (updateIOSVersions example_runtime [''/app/ios/App.xcodeproj/project.pbxproj'']
        (JBool True) (JBool True) example_dry_run)) = []
   \<and> map fst (writes (snd (updateIOSVersions example_runtime [''/app/ios/App.xcodeproj/project.pbxproj'']
        (JBool True) (JBool True) (example_dry_run\<lparr>dryRun := False\<rparr>))))
      = [''/app/ios/App.xcodeproj/project.pbxproj'', ''/app/package.json'']
   \<and> fst (updatePackageJsonVersion example_runtime ''/app/package.json'' (JStr ''2.0.0'') example_dry_run) = Inr (Some (JStr ''2.0.0''))
   \<and> map (\<lambda>c. (platform c, item c, oldValue c, newValue c)) (changes (snd (updatePackageJsonVersion example_runtime ''/app/package.json'' (JStr ''2.0.0'') example_dry_run)))
      = [(''Package.json'', ''version'', JStr ''1.0.0'', JStr ''2.0.0'')]
   \<and> writes (snd (updatePackageJsonVersion example_runtime ''/app/package.json'' (JStr ''2.0.0'') example_dry_run)) = []
   \<and> map fst (writes (snd (updatePackageJsonVersion example_runtime ''/app/package.json'' (JStr ''2.0.0'') (example_dry_run\<lparr>dryRun := False\<rparr>)))) = [''/app/package.json'']"
proof -
  have h1: "dryRun example_dry_run" by (simp add: example_dry_run_def)
  have h2: "distinct [''/app/android/app/build.gradle'']
      \<and> (packageJsonUpdated example_dry_run
          \<or> (\<forall>q. packageJsonPath example_dry_run = Some q \<longrightarrow> q \<notin> set [''/app/android/app/build.gradle'']))"
    by (simp add: example_dry_run_def example_configured_def)
  have h3: "distinct [''/app/ios/App.xcodeproj/project.pbxproj'']
      \<and> (packageJsonUpdated example_dry_run
          \<or> (\<forall>q. packageJsonPath example_dry_run = Some q \<longrightarrow> q \<notin> set [''/app/ios/App.xcodeproj/project.pbxproj'']))"
    by (simp add: example_dry_run_def example_configured_def)
  from dry_run_writes_nothing[of example_dry_run example_runtime "[''/app/android/app/build.gradle'']"
      "JBool True" "JBool True" "JBool True" "JBool True" "''/app/package.json''" "JStr ''2.0.0''"]
    h1 h2
  have a: "disk (snd (updateAndroidVersions example_runtime [''/app/android/app/build.gradle'']
        (JBool True) (JBool True) example_dry_run)) = disk example_dry_run
     \<and> writes (snd (updateAndroidVersions example_runtime [''/app/android/app/build.gradle'']
        (JBool True) (JBool True) example_dry_run)) = writes example_dry_run
     \<and> fst (updateAndroidVersions example_runtime [''/app/android/app/build.gradle'']
        (JBool True) (JBool True) example_dry_run)
      = fst (updateAndroidVersions example_runtime [''/app/android/app/build.gradle'']
        (JBool True) (JBool True) (example_dry_run\<lparr>dryRun := False\<rparr>))
     \<and> changes (snd (updateAndroidVersions example_runtime [''/app/android/app/build.gradle'']
        (JBool True) (JBool True) example_dry_run))
      = changes (snd (updateAndroidVersions example_runtime [''/app/android/app/build.gradle'']
        (JBool True) (JBool True) (example_dry_run\<lparr>dryRun := False\<rparr>)))"
    and p: "disk (snd (updatePackageJsonVersion example_runtime ''/app/package.json'' (JStr ''2.0.0'') example_dry_run)) = disk example_dry_run
     \<and> writes (snd (updatePackageJsonVersion example_runtime ''/app/package.json'' (JStr ''2.0.0'') example_dry_run)) = writes example_dry_run
     \<and> fst (updatePackageJsonVersion example_runtime ''/app/package.json'' (JStr ''2.0.0'') example_dry_run)
      = fst (updatePackageJsonVersion example_runtime ''/app/package.json'' (JStr ''2.0.0'') (example_dry_run\<lparr>dryRun := False\<rparr>))
     \<and> changes (snd (updatePackageJsonVersion example_runtime ''/app/package.json'' (JStr ''2.0.0'') example_dry_run))
      = changes (snd (updatePackageJsonVersion example_runtime ''/app/package.json'' (JStr ''2.0.0'') (example_dry_run\<lparr>dryRun := False\<rparr>)))"
    by blast+
  from dry_run_writes_nothing[of example_dry_run example_runtime "[''/app/ios/App.xcodeproj/project.pbxproj'']"
      "JBool True" "JBool True" "JBool True" "JBool True" "''/app/package.json''" "JStr ''2.0.0''"]
    h1 h3
  have i: "disk (snd (updateIOSVersions example_runtime [''/app/ios/App.xcodeproj/project.pbxproj'']
        (JBool True) (JBool True) example_dry_run)) = disk example_dry_run
     \<and> writes (snd (updateIOSVersions example_runtime [''/app/ios/App.xcodeproj/project.pbxproj'']
        (JBool True) (JBool True) example_dry_run)) = writes example_dry_run
     \<and> fst (updateIOSVersions example_runtime [''/app/ios/App.xcodeproj/project.pbxproj'']
        (JBool True) (JBool True) example_dry_run)
      = fst (updateIOSVersions example_runtime [''/app/ios/App.xcodeproj/project.pbxproj'']
        (JBool True) (JBool True) (example_dry_run\<lparr>dryRun := False\<rparr>))
     \<and> changes (snd (updateIOSVersions example_runtime [''/app/ios/App.xcodeproj/project.pbxproj'']
        (JBool True) (JBool True) example_dry_run))
      = changes (snd (updateIOSVersions example_runtime [''/app/ios/App.xcodeproj/project.pbxproj'']
        (JBool True) (JBool True) (example_dry_run\<lparr>dryRun := False\<rparr>)))"
    by blast
  have e1: "fst (updateAndroidVersions example_runtime [''/app/android/app/build.gradle'']
        (JBool True) (JBool True) example_dry_run)
      = Inr [AndroidResult ''/app/android/app/build.gradle'' (Num 2) (JStr ''1.0.1'')]"
    by code_simp
  have e2: "map (\<lambda>c. (platform c, item c, newValue c)) (changes (snd (updateAndroidVersions example_runtime [''/app/android/app/build.gradle'']
        (JBool True) (JBool True) example_dry_run)))
      = [(''Android'', ''versionCode'', JNum (Num 2)), (''Android'', ''versionName'', JStr ''1.0.1''),
         (''Package.json'', ''version'', JStr ''1.0.1'')]"
    by code_simp
  have e3: "writes (snd (updateAndroidVersions example_runtime [''/app/android/app/build.gradle'']
        (JBool True) (JBool True) example_dry_run)) = []"
    by code_simp
  have e4: "map fst (writes (snd (updateAndroidVersions example_runtime [''/app/android/app/build.gradle'']
        (JBool True) (JBool True) (example_dry_run\<lparr>dryRun := False\<rparr>))))
      = [''/app/android/app/build.gradle'', ''/app/package.json'']"
    by code_simp
  have e5: "fst (updateIOSVersions example_runtime [''/app/ios/App.xcodeproj/project.pbxproj'']
        (JBool True) (JBool True) example_dry_run)
      = Inr [IOSResult ''/app/ios/App.xcodeproj/project.pbxproj'' (Num 2) (JStr ''1.0.1'')]"
    by code_simp
  have e6: "map (\<lambda>c. (platform c, item c, newValue c)) (changes (snd (updateIOSVersions example_runtime [''/app/ios/App.xcodeproj/project.pbxproj'']
        (JBool True) (JBool True) example_dry_run)))
      = [(''iOS'', ''CURRENT_PROJECT_VERSION'', JNum (Num 2)), (''iOS'', ''MARKETING_VERSION'', JStr ''1.0.1''),
         (''Package.json'', ''version'', JStr ''1.0.1'')]"
    by code_simp
  have e7: "writes (snd (updateIOSVersions example_runtime [''/app/ios/App.xcodeproj/project.pbxproj'']
        (JBool True) (JBool True) example_dry_run)) = []"
    by code_simp
  have e8: "map fst (writes (snd (updateIOSVersions example_runtime [''/app/ios/App.xcodeproj/project.pbxproj'']
        (JBool True) (JBool True) (example_dry_run\<lparr>dryRun := False\<rparr>))))
      = [''/app/ios/App.xcodeproj/project.pbxproj'', ''/app/package.json'']"
    by code_simp
  have e9: "fst (updatePackageJsonVersion example_runtime ''/app/package.json'' (JStr ''2.0.0'') example_dry_run) = Inr (Some (JStr ''2.0.0''))"
    by code_simp
  have e10: "map (\<lambda>c. (platform c, item c, oldValue c, newValue c)) (changes (snd (updatePackageJsonVersion example_runtime ''/app/package.json'' (JStr ''2.0.0'') example_dry_run)))
      = [(''Package.json'', ''version'', JStr ''1.0.0'', JStr ''2.0.0'')]"
    by code_simp
  have e11: "writes (snd (updatePackageJsonVersion example_runtime ''/app/package.json'' (JStr ''2.0.0'') example_dry_run)) = []"
    by code_simp
  have e12: "map fst (writes (snd (updatePackageJsonVersion example_runtime ''/app/package.json'' (JStr ''2.0.0'') (example_dry_run\<lparr>dryRun := False\<rparr>)))) = [''/app/package.json'']"
    by code_simp
  from h1 a i p e1 e2 e3 e4 e5 e6 e7 e8 e9 e10 e11 e12 show ?thesis by blast
qed

text \<open>Claim C6 as stated fails on a batch that lists a file twice: the dry run reads the
  unchanged file the second time and computes the same values again, the run without the
  flag reads what it has written and computes the next ones.\<close>

theorem dry_run_repeated_file_counterexample:
  "dryRun example_dry_run
   \<and> fst (updateAndroidVersions example_runtime [''/app/android/app/build.gradle'', ''/app/android/app/build.gradle'']
        (JBool True) (JBool True) example_dry_run)
      = Inr [AndroidResult ''/app/android/app/build.gradle'' (Num 2) (JStr ''1.0.1''),
             AndroidResult ''/app/android/app/build.gradle'' (Num 2) (JStr ''1.0.1'')]
   \<and> fst (updateAndroidVersions example_runtime [''/app/android/app/build.gradle'', ''/app/android/app/build.gradle'']
        (JBool True) (JBool True) (example_dry_run\<lparr>dryRun := False\<rparr>))
      = Inr [AndroidResult ''/app/android/app/build.gradle'' (Num 2) (JStr ''1.0.1''),
             AndroidResult ''/app/android/app/build.gradle'' (Num 3) (JStr ''1.0.2'')]"
  by code_simp

section \<open>The package manifest: proofs\<close>

lemma set_prop_keys: "k \<in> fst ` set kvs \<Longrightarrow> map fst (set_prop kvs k v) = map fst kvs"
proof (induction kvs)
  case Nil
  then show ?case by simp
next
  case (Cons kv kvs)
  show ?case
  proof (cases "fst kv = k")
    case True
    then show ?thesis by (cases kv) simp
  next
    case False
    with Cons.prems have "k \<in> fst ` set kvs" by auto
    with Cons.IH False show ?thesis by (cases kv) simp
  qed
qed

lemma set_prop_map_of: "map_of (set_prop kvs k v) = (map_of kvs)(k \<mapsto> v)"
  by (induction kvs) (auto simp: fun_eq_iff)

lemma updatePackageJsonVersion_success:
  assumes "disk st p = Some (File c)" and "json_parse rt c = Some (JObj kvs)"
    and "map_of kvs ''version'' = Some v0" and "truthy v0"
  shows "updatePackageJsonVersion rt p v st =
           (Inr (Some v),
            recordPackageJsonChange rt p v0 v
              (if dryRun st then st
               else writeFileSync p (serialize [] (JObj (set_prop kvs ''version'' v)) @ [newline]) st))"
proof -
  have ex: "existsSync st p" using assms(1) by (simp add: existsSync_def)
  have gp: "get_prop (JObj kvs) ''version'' = Inr v0" using assms(3) by (simp add: get_prop_def)
  show ?thesis
    using ex readFileSync_File[OF assms(1)] assms(2) gp assms(4)
    by (simp add: updatePackageJsonVersion_def Let_def)
qed

text \<open>
  Claim C7, as amended. When the manifest exists, parses to an object and has a truthy
  \<open>version\<close>, \<open>updatePackageJsonVersion\<close> returns the new version and appends exactly one
  change record (old value, new value). Unless the run is dry it writes the file once:
  the parsed document with \<open>version\<close> set to the new value, serialized by
  \<open>JSON.stringify\<close> with two spaces of indentation, and a line feed after it, whatever
  the style of the text read. In the document written every key stands where it stood,
  and every key but \<open>version\<close> has the value it had.
\<close>

theorem package_version_rewritten:
  "disk st p = Some (File c) \<and> json_parse rt c = Some (JObj kvs)
     \<and> map_of kvs ''version'' = Some v0 \<and> truthy v0 \<longrightarrow>
     fst (updatePackageJsonVersion rt p v st) = Inr (Some v)
   \<and> changes (snd (updatePackageJsonVersion rt p v st))
        = changes st @ [\<lparr>platform = ''Package.json'', file_rel = relative_file rt st p,
                         item = ''version'', oldValue = v0, newValue = v\<rparr>]
   \<and> (if dryRun st
       then disk (snd (updatePackageJsonVersion rt p v st)) = disk st
          \<and> writes (snd (updatePackageJsonVersion rt p v st)) = writes st
       else disk (snd (updatePackageJsonVersion rt p v st))
              = (disk st)(p \<mapsto> File (serialize [] (JObj (set_prop kvs ''version'' v)) @ [newline]))
          \<and> writes (snd (updatePackageJsonVersion rt p v st))
              = writes st @ [(p, serialize [] (JObj (set_prop kvs ''version'' v)) @ [newline])])
   \<and> map fst (set_prop kvs ''version'' v) = map fst kvs
   \<and> map_of (set_prop kvs ''version'' v) = (map_of kvs)(''version'' \<mapsto> v)"
proof (intro impI)
  assume a: "disk st p = Some (File c) \<and> json_parse rt c = Some (JObj kvs)
     \<and> map_of kvs ''version'' = Some v0 \<and> truthy v0"
  then have k: "''version'' \<in> fst ` set kvs" by (auto dest: map_of_SomeD intro: rev_image_eqI)
  from a have u: "updatePackageJsonVersion rt p v st =
           (Inr (Some v),
            recordPackageJsonChange rt p v0 v
              (if dryRun st then st
               else writeFileSync p (serialize [] (JObj (set_prop kvs ''version'' v)) @ [newline]) st))"
    by (intro updatePackageJsonVersion_success) auto
  show "fst (updatePackageJsonVersion rt p v st) = Inr (Some v)
   \<and> changes (snd (updatePackageJsonVersion rt p v st))
        = changes st @ [\<lparr>platform = ''Package.json'', file_rel = relative_file rt st p,
                         item = ''version'', oldValue = v0, newValue = v\<rparr>]
   \<and> (if dryRun st
       then disk (snd (updatePackageJsonVersion rt p v st)) = disk st
          \<and> writes (snd (updatePackageJsonVersion rt p v st)) = writes st
       else disk (snd (updatePackageJsonVersion rt p v st))
              = (disk st)(p \<mapsto> File (serialize [] (JObj (set_prop kvs ''version'' v)) @ [newline]))
          \<and> writes (snd (updatePackageJsonVersion rt p v st))
              = writes st @ [(p, serialize [] (JObj (set_prop kvs ''version'' v)) @ [newline])])
   \<and> map fst (set_prop kvs ''version'' v) = map fst kvs
   \<and> map_of (set_prop kvs ''version'' v) = (map_of kvs)(''version'' \<mapsto> v)"
    unfolding u using set_prop_keys[OF k, of v] set_prop_map_of[of kvs "''version''" v]
    by (simp add: recordPackageJsonChange_def writeFileSync_def relative_file_def
          del: serialize.simps)
qed


text \<open>The theorem at the manifest of the example project.\<close>

theorem package_version_rewritten_witness:
  "disk example_configured ''/app/package.json'' = Some (File example_package_json)
   \<and> json_parse example_runtime example_package_json
        = Some (JObj [(''name'', JStr ''app''), (''version'', JStr ''1.0.0'')])
   \<and> map_of [(''name'', JStr ''app''), (''version'', JStr ''1.0.0'')] ''version'' = Some (JStr ''1.0.0'')
   \<and> truthy (JStr ''1.0.0'')
   \<and> fst (updatePackageJsonVersion example_runtime ''/app/package.json'' (JStr ''1.0.1'') example_configured)
        = Inr (Some (JStr ''1.0.1''))
   \<and> changes (snd (updatePackageJsonVersion example_runtime ''/app/package.json'' (JStr ''1.0.1'')
                     example_configured))
        = changes example_configured
            @ [\<lparr>platform = ''Package.json'',
                file_rel = relative_file example_runtime example_configured ''/app/package.json'',
                item = ''version'', oldValue = JStr ''1.0.0'', newValue = JStr ''1.0.1''\<rparr>]
   \<and> map fst (set_prop [(''name'', JStr ''app''), (''version'', JStr ''1.0.0'')] ''version'' (JStr ''1.0.1''))
        = map fst [(''name'', JStr ''app''), (''version'', JStr ''1.0.0'')]
   \<and> relative_file example_runtime example_configured ''/app/package.json'' = ''package.json''
   \<and> changes example_configured = []"
proof -
  have h1: "disk example_configured ''/app/package.json'' = Some (File example_package_json)"
    by (simp add: example_configured_def example_project_def example_state_def)
  have h2: "json_parse example_runtime example_package_json
        = Some (JObj [(''name'', JStr ''app''), (''version'', JStr ''1.0.0'')])"
    by code_simp
  have h3: "map_of [(''name'', JStr ''app''), (''version'', JStr ''1.0.0'')] ''version'' = Some (JStr ''1.0.0'')"
    by simp
  have h4: "truthy (JStr ''1.0.0'')" by simp
  have e1: "relative_file example_runtime example_configured ''/app/package.json'' = ''package.json''"
    by code_simp
  have e2: "changes example_configured = []"
    by (simp add: example_configured_def example_project_def example_state_def)
  from package_version_rewritten[of example_configured "''/app/package.json''" example_package_json
      example_runtime "[(''name'', JStr ''app''), (''version'', JStr ''1.0.0'')]" "JStr ''1.0.0''"
      "JStr ''1.0.1''"] h1 h2 h3 h4
  have c: "fst (updatePackageJsonVersion example_runtime ''/app/package.json'' (JStr ''1.0.1'') example_configured)
        = Inr (Some (JStr ''1.0.1''))
   \<and> changes (snd (updatePackageJsonVersion example_runtime ''/app/package.json'' (JStr ''1.0.1'')
                     example_configured))
        = changes example_configured
            @ [\<lparr>platform = ''Package.json'',
                file_rel = relative_file example_runtime example_configured ''/app/package.json'',
                item = ''version'', oldValue = JStr ''1.0.0'', newValue = JStr ''1.0.1''\<rparr>]
   \<and> map fst (set_prop [(''name'', JStr ''app''), (''version'', JStr ''1.0.0'')] ''version'' (JStr ''1.0.1''))
        = map fst [(''name'', JStr ''app''), (''version'', JStr ''1.0.0'')]"
    by blast
  from h1 h2 h3 h4 c e1 e2 show ?thesis by blast
qed

text \<open>
  Claim C7 as stated fails on the serialization style. The manifest of the example
  project is one line without indentation and without a line feed at its end; the file
  written has a line per member, indented by two spaces, and ends with a line feed.
\<close>

theorem package_style_counterexample:
  "disk example_configured ''/app/package.json''
     = Some (File (''{'' @ [dq] @ ''name'' @ [dq] @ '':'' @ [dq] @ ''app'' @ [dq] @ '',''
                   @ [dq] @ ''version'' @ [dq] @ '':'' @ [dq] @ ''1.0.0'' @ [dq] @ ''}''))
   \<and> fst (updatePackageJsonVersion example_runtime ''/app/package.json'' (JStr ''1.0.1'') example_configured)
     = Inr (Some (JStr ''1.0.1''))
   \<and> disk (snd (updatePackageJsonVersion example_runtime ''/app/package.json'' (JStr ''1.0.1'')
                  example_configured)) ''/app/package.json''
     = Some (File (''{'' @ [newline] @ ''  '' @ [dq] @ ''name'' @ [dq] @ '': '' @ [dq] @ ''app'' @ [dq]
                   @ '','' @ [newline] @ ''  '' @ [dq] @ ''version'' @ [dq] @ '': '' @ [dq] @ ''1.0.1''
                   @ [dq] @ [newline] @ ''}'' @ [newline]))"
  by code_simp

section \<open>One manifest update for each invocation: proofs\<close>

text \<open>The change records against the shared manifest.\<close>

definition pkg_records :: "state \<Rightarrow> change list" where
  "pkg_records st = filter (\<lambda>c. platform c = ''Package.json'') (changes st)"

text \<open>From one state of a run to a later one: at most one record against the manifest
  is added, none once the guard is up, and the guard is up after one was added.\<close>

definition once :: "state \<Rightarrow> state \<Rightarrow> bool" where
  "once a b =
     ((packageJsonUpdated a \<longrightarrow> packageJsonUpdated b \<and> pkg_records b = pkg_records a)
      \<and> (\<exists>extra. pkg_records b = pkg_records a @ extra \<and> length extra \<le> 1
                  \<and> (extra \<noteq> [] \<longrightarrow> packageJsonUpdated b)))"

lemma once_refl: "once a a"
  by (simp add: once_def)

lemma once_trans:
  assumes "once a b" and "once b c"
  shows "once a c"
proof -
  from assms(1) obtain e1 where e1: "pkg_records b = pkg_records a @ e1" "length e1 \<le> 1"
    "e1 \<noteq> [] \<longrightarrow> packageJsonUpdated b"
    and ga: "packageJsonUpdated a \<longrightarrow> packageJsonUpdated b \<and> pkg_records b = pkg_records a"
    unfolding once_def by blast
  from assms(2) obtain e2 where e2: "pkg_records c = pkg_records b @ e2" "length e2 \<le> 1"
    "e2 \<noteq> [] \<longrightarrow> packageJsonUpdated c"
    and gb: "packageJsonUpdated b \<longrightarrow> packageJsonUpdated c \<and> pkg_records c = pkg_records b"
    unfolding once_def by blast
  show ?thesis
  proof (cases "packageJsonUpdated b")
    case True
    with gb have c: "packageJsonUpdated c" "pkg_records c = pkg_records b" by simp_all
    have "pkg_records c = pkg_records a @ e1 \<and> length e1 \<le> 1 \<and> (e1 \<noteq> [] \<longrightarrow> packageJsonUpdated c)"
      using c e1 by simp
    moreover have "packageJsonUpdated a \<longrightarrow> packageJsonUpdated c \<and> pkg_records c = pkg_records a"
      using ga c by simp
    ultimately show ?thesis unfolding once_def by blast
  next
    case False
    with e1 ga have n: "e1 = []" "\<not> packageJsonUpdated a" by auto
    have "pkg_records c = pkg_records a @ e2 \<and> length e2 \<le> 1 \<and> (e2 \<noteq> [] \<longrightarrow> packageJsonUpdated c)"
      using e1 e2 n by simp
    with n show ?thesis unfolding once_def by blast
  qed
qed

lemma once_same:
  "pkg_records b = pkg_records a \<Longrightarrow> packageJsonUpdated b = packageJsonUpdated a \<Longrightarrow> once a b"
  by (simp add: once_def)

lemma pkg_records_frame [simp]:
  "pkg_records (warn m st) = pkg_records st"
  "pkg_records (writeFileSync f c st) = pkg_records st"
  "pkg_records (recordAndroidChanges rt f oc nc on nn u st) = pkg_records st"
  "pkg_records (recordIOSChanges rt f oc nc on nn u1 u2 st) = pkg_records st"
  by (simp_all add: pkg_records_def recordAndroidChanges_def recordIOSChanges_def Let_def)

lemma updatePackageJsonVersion_records:
  "\<exists>extra. pkg_records (snd (updatePackageJsonVersion rt p v st)) = pkg_records st @ extra
           \<and> length extra \<le> 1"
  by (auto simp: updatePackageJsonVersion_def Let_def recordPackageJsonChange_def pkg_records_def
        split: sum.splits option.splits)

lemma finish_file_once: "once a (snd (finish_file rt res field nv a))"
proof (cases "wants_package_update a field")
  case False
  then show ?thesis by (simp add: finish_file_def once_refl)
next
  case True
  then have g: "\<not> packageJsonUpdated a" by (simp add: wants_package_update_def)
  obtain r s where u: "updatePackageJsonVersion rt (the (packageJsonPath a)) nv a = (r, s)"
    by (cases "updatePackageJsonVersion rt (the (packageJsonPath a)) nv a")
  from updatePackageJsonVersion_records[of rt "the (packageJsonPath a)" nv a] u
  obtain extra where e: "pkg_records s = pkg_records a @ extra" "length extra \<le> 1" by auto
  from updatePackageJsonVersion_static[of rt "the (packageJsonPath a)" nv a] u g
  have gs: "\<not> packageJsonUpdated s" by simp
  show ?thesis
  proof (cases r)
    case (Inl err)
    with updatePackageJsonVersion_error[of rt "the (packageJsonPath a)" nv a err] u
    have "s = a" by simp
    with True u Inl show ?thesis by (simp add: finish_file_def once_refl)
  next
    case (Inr x)
    have "pkg_records (s\<lparr>packageJsonUpdated := True\<rparr>) = pkg_records s"
      by (simp add: pkg_records_def)
    with True u Inr e g show ?thesis
      by (auto simp: finish_file_def once_def)
  qed
qed

lemma processAndroidFile_once: "once st (snd (processAndroidFile rt f vc vn st))"
proof -
  have w: "\<And>m. once st (warn m st)" by (simp add: once_same)
  have r: "\<And>cvc nvc cvn nvn c' res.
      once st (snd (finish_file rt res vn nvn
         (recordAndroidChanges rt f cvc nvc cvn nvn (vn \<noteq> JNull)
            (if \<not> dryRun st then writeFileSync f c' st else st))))"
    by (rule once_trans[OF _ finish_file_once]) (simp add: once_same)
  show ?thesis
    unfolding processAndroidFile_plan using w r
    by (auto simp: once_refl split: sum.splits option.splits)
qed

lemma processIOSFile_once: "once st (snd (processIOSFile rt f cpv mv st))"
proof -
  have w: "\<And>m. once st (warn m st)" by (simp add: once_same)
  have r: "\<And>cv ncv mvv nmv c' res.
      once st (snd (finish_file rt res mv nmv
         (recordIOSChanges rt f cv ncv mvv nmv (cpv \<noteq> JNull) (mv \<noteq> JNull)
            (if \<not> dryRun st then writeFileSync f c' st else st))))"
    by (rule once_trans[OF _ finish_file_once]) (simp add: once_same)
  show ?thesis
    unfolding processIOSFile_plan using w r
    by (auto simp: once_refl split: sum.splits option.splits)
qed

lemma updateAndroidVersions_once: "once st (snd (updateAndroidVersions rt files vc vn st))"
proof (induction files arbitrary: st)
  case Nil
  then show ?case by (simp add: once_refl)
next
  case (Cons f files)
  obtain r s1 where p: "processAndroidFile rt f vc vn st = (r, s1)"
    by (cases "processAndroidFile rt f vc vn st")
  from processAndroidFile_once[of st rt f vc vn] p have o1: "once st s1" by simp
  from once_trans[OF o1 Cons.IH[of s1]] o1 p show ?case
    by (auto split: sum.splits prod.splits)
qed

lemma updateIOSVersions_once: "once st (snd (updateIOSVersions rt files cpv mv st))"
proof (induction files arbitrary: st)
  case Nil
  then show ?case by (simp add: once_refl)
next
  case (Cons f files)
  obtain r s1 where p: "processIOSFile rt f cpv mv st = (r, s1)"
    by (cases "processIOSFile rt f cpv mv st")
  from processIOSFile_once[of st rt f cpv mv] p have o1: "once st s1" by simp
  from once_trans[OF o1 Cons.IH[of s1]] o1 p show ?case
    by (auto split: sum.splits prod.splits)
qed

lemma run_if_once:
  assumes "\<And>s. once s (snd (f s))" and "once st (snd r)"
  shows "once st (snd (run_if c f r))"
proof (cases r)
  case (Pair x s)
  show ?thesis
  proof (cases x)
    case (Inl e)
    with Pair assms(2) show ?thesis by (simp add: run_if_def)
  next
    case (Inr u)
    from once_trans[OF _ assms(1)[of s]] assms(2) Pair have "once st (snd (f s))" by simp
    with Pair Inr assms(2) show ?thesis
      by (auto simp: run_if_def split: prod.splits sum.splits)
  qed
qed

lemma executePlatformUpdates_once:
  "once st (snd (executePlatformUpdates rt platforms af ifs vc vn cpv mv st))"
  unfolding executePlatformUpdates_def Let_def
  by (intro run_if_once updateAndroidVersions_once updateIOSVersions_once) (simp add: once_refl)


subsection \<open>What a run adds to the change log and to the write log\<close>

text \<open>The records and the writes a run has added; the records of a new semantic version
  of a platform file (\<open>versionName\<close>, \<open>MARKETING_VERSION\<close>), the records against the
  manifest, the writes to the manifest; and the new semantic version of the first
  platform file processed with that field enabled, if there is one.\<close>

definition added_changes :: "state \<Rightarrow> state \<Rightarrow> change list" where
  "added_changes st st' = drop (length (changes st)) (changes st')"

definition added_writes :: "state \<Rightarrow> state \<Rightarrow> (string \<times> string) list" where
  "added_writes st st' = drop (length (writes st)) (writes st')"

definition semver_record :: "change \<Rightarrow> bool" where
  "semver_record c =
     ((platform c = ''Android'' \<and> item c = ''versionName'')
      \<or> (platform c = ''iOS'' \<and> item c = ''MARKETING_VERSION''))"

definition manifest_change :: "change \<Rightarrow> bool" where
  "manifest_change c = (platform c = ''Package.json'')"

definition manifest_writes :: "string \<Rightarrow> (string \<times> string) list \<Rightarrow> (string \<times> string) list" where
  "manifest_writes q ws = filter (\<lambda>w. fst w = q) ws"

definition first_version :: "change list \<Rightarrow> jsval list" where
  "first_version cs = take 1 (map newValue (filter semver_record cs))"

text \<open>The guard is down, the manifest path \<open>q\<close> is configured, and the manifest on disk
  parses to the object \<open>kvs\<close> with the truthy \<open>version\<close> \<open>v0\<close>.\<close>

definition manifest_ready ::
  "runtime \<Rightarrow> state \<Rightarrow> string \<Rightarrow> (string \<times> jsval) list \<Rightarrow> jsval \<Rightarrow> bool" where
  "manifest_ready rt st q kvs v0 =
     (\<not> packageJsonUpdated st \<and> packageJsonPath st = Some q \<and> q \<noteq> []
      \<and> (\<exists>c. disk st q = Some (File c) \<and> json_parse rt c = Some (JObj kvs))
      \<and> map_of kvs ''version'' = Some v0 \<and> truthy v0)"

definition manifest_record :: "runtime \<Rightarrow> state \<Rightarrow> string \<Rightarrow> jsval \<Rightarrow> jsval \<Rightarrow> change" where
  "manifest_record rt st q v0 nv =
     \<lparr>platform = ''Package.json'', file_rel = relative_file rt st q, item = ''version'',
      oldValue = v0, newValue = nv\<rparr>"

definition manifest_text :: "(string \<times> jsval) list \<Rightarrow> jsval \<Rightarrow> string" where
  "manifest_text kvs nv = serialize [] (JObj (set_prop kvs ''version'' nv)) @ [newline]"

text \<open>The invariant of a run from \<open>st\<close>, where \<open>q\<close> is the manifest path and no platform
  file: the manifest is written as often as a record against it is added; and when the
  manifest was ready in \<open>st\<close>, the guard is up exactly when a semantic version has been
  recorded, and the records against the manifest and the writes to it are those of the
  first such version.\<close>

definition tracked ::
  "runtime \<Rightarrow> state \<Rightarrow> string \<Rightarrow> (string \<times> jsval) list \<Rightarrow> jsval \<Rightarrow> state \<Rightarrow> bool" where
  "tracked rt st q kvs v0 a =
     (\<exists>added w.
        changes a = changes st @ added \<and> writes a = writes st @ w
        \<and> dryRun a = dryRun st \<and> packageJsonPath a = packageJsonPath st
        \<and> projectRoot a = projectRoot st
        \<and> length (manifest_writes q w)
            = (if dryRun st then 0 else length (filter manifest_change added))
        \<and> (manifest_ready rt st q kvs v0 \<longrightarrow>
              filter manifest_change added = map (manifest_record rt st q v0) (first_version added)
            \<and> manifest_writes q w
                = (if dryRun st then [] else map (\<lambda>nv. (q, manifest_text kvs nv)) (first_version added))
            \<and> packageJsonUpdated a = (first_version added \<noteq> [])
            \<and> (\<not> packageJsonUpdated a \<longrightarrow> disk a q = disk st q)))"

lemma tracked_start: "tracked rt st q kvs v0 st"
  unfolding tracked_def
  by (rule exI[of _ "[]"], rule exI[of _ "[]"])
     (simp add: manifest_writes_def first_version_def manifest_ready_def)

lemma tracked_warn: "tracked rt st q kvs v0 a \<Longrightarrow> tracked rt st q kvs v0 (warn m a)"
  unfolding tracked_def by simp

lemma first_version_append:
  "first_version (xs @ ys) = (if first_version xs \<noteq> [] then first_version xs else first_version ys)"
  unfolding first_version_def by (cases "map newValue (filter semver_record xs)") simp_all

lemma first_version_single: "first_version cs = (if vs = [] then [] else [hd vs])"
  if "map newValue (filter semver_record cs) = vs"
  using that unfolding first_version_def by (cases vs) simp_all

lemma updatePackageJsonVersion_link:
  "\<exists>ex wx. changes (snd (updatePackageJsonVersion rt p v s)) = changes s @ ex
         \<and> writes (snd (updatePackageJsonVersion rt p v s)) = writes s @ wx
         \<and> filter manifest_change ex = ex \<and> filter semver_record ex = []
         \<and> manifest_writes p wx = wx
         \<and> length wx = (if dryRun s then 0 else length ex)"
proof -
  have r: "\<And>c. manifest_change \<lparr>platform = ''Package.json'', file_rel = c, item = ''version'',
                    oldValue = x, newValue = y\<rparr>"
    "\<And>c. \<not> semver_record \<lparr>platform = ''Package.json'', file_rel = c, item = ''version'',
                    oldValue = x, newValue = y\<rparr>" for x y
    by (simp_all add: manifest_change_def semver_record_def)
  show ?thesis
    unfolding updatePackageJsonVersion_def Let_def recordPackageJsonChange_def
    by (auto simp: writeFileSync_def manifest_writes_def r split: sum.splits option.splits)
qed

text \<open>The step every processed file ends with: from a tracked state \<open>a\<close>, the platform
  file is written and its records \<open>recs\<close> are added, giving \<open>s2\<close>, and \<open>finish_file\<close> runs.\<close>

lemma finish_file_tracked:
  assumes inv: "tracked rt st q kvs v0 a"
    and path: "packageJsonPath st = Some q"
    and ch: "changes s2 = changes a @ recs" and wr: "writes s2 = writes a @ ws"
    and wsq: "manifest_writes q ws = []" and rp: "filter manifest_change recs = []"
    and rs: "map newValue (filter semver_record recs) = (if field \<noteq> JNull then [nv] else [])"
    and fr: "dryRun s2 = dryRun a" "packageJsonPath s2 = packageJsonPath a"
      "projectRoot s2 = projectRoot a" "packageJsonUpdated s2 = packageJsonUpdated a"
      "disk s2 q = disk a q"
  shows "tracked rt st q kvs v0 (snd (finish_file rt res field nv s2))"
proof -
  from inv obtain added w where
    a: "changes a = changes st @ added" "writes a = writes st @ w"
      "dryRun a = dryRun st" "packageJsonPath a = packageJsonPath st" "projectRoot a = projectRoot st"
    and lk: "length (manifest_writes q w)
              = (if dryRun st then 0 else length (filter manifest_change added))"
    and rd: "manifest_ready rt st q kvs v0 \<Longrightarrow>
              filter manifest_change added = map (manifest_record rt st q v0) (first_version added)
            \<and> manifest_writes q w
                = (if dryRun st then [] else map (\<lambda>nv. (q, manifest_text kvs nv)) (first_version added))
            \<and> packageJsonUpdated a = (first_version added \<noteq> [])
            \<and> (\<not> packageJsonUpdated a \<longrightarrow> disk a q = disk st q)"
    unfolding tracked_def by blast
  have fv: "first_version recs = (if field \<noteq> JNull then [nv] else [])"
    using first_version_single[OF rs] by simp
  have mw: "\<And>xs ys. manifest_writes q (xs @ ys) = manifest_writes q xs @ manifest_writes q ys"
    by (simp add: manifest_writes_def)
  show ?thesis
  proof (cases "wants_package_update s2 field")
    case False
    then have b: "snd (finish_file rt res field nv s2) = s2" by (simp add: finish_file_def)
    have "manifest_ready rt st q kvs v0 \<Longrightarrow>
            first_version (added @ recs) = first_version added
            \<and> packageJsonUpdated s2 = (first_version added \<noteq> [])
            \<and> (\<not> packageJsonUpdated s2 \<longrightarrow> disk s2 q = disk st q)"
    proof -
      assume r: "manifest_ready rt st q kvs v0"
      from r have q: "q \<noteq> []" by (simp add: manifest_ready_def)
      from False fr a path q have "packageJsonUpdated a \<or> field = JNull"
        by (auto simp: wants_package_update_def)
      with rd[OF r] fv fr show ?thesis by (auto simp: first_version_append)
    qed
    with rd have c: "manifest_ready rt st q kvs v0 \<Longrightarrow>
            filter manifest_change (added @ recs)
              = map (manifest_record rt st q v0) (first_version (added @ recs))
            \<and> manifest_writes q (w @ ws)
                = (if dryRun st then []
                   else map (\<lambda>nv. (q, manifest_text kvs nv)) (first_version (added @ recs)))
            \<and> packageJsonUpdated s2 = (first_version (added @ recs) \<noteq> [])
            \<and> (\<not> packageJsonUpdated s2 \<longrightarrow> disk s2 q = disk st q)"
      using rp wsq by (simp add: mw)
    show ?thesis
      unfolding tracked_def b
      apply (rule exI[of _ "added @ recs"], rule exI[of _ "w @ ws"])
      using a ch wr fr lk rp wsq c by (simp add: mw)
  next
    case True
    then have g: "\<not> packageJsonUpdated a" "field \<noteq> JNull" "q \<noteq> []"
      using fr a path by (auto simp: wants_package_update_def)
    from fr a path have p2: "the (packageJsonPath s2) = q" by simp
    let ?u = "updatePackageJsonVersion rt q nv s2"
    from updatePackageJsonVersion_link[of rt q nv s2] obtain ex wx where
      l: "changes (snd ?u) = changes s2 @ ex" "writes (snd ?u) = writes s2 @ wx"
        "filter manifest_change ex = ex" "filter semver_record ex = []"
        "manifest_writes q wx = wx" "length wx = (if dryRun s2 then 0 else length ex)"
      by blast
    note us = updatePackageJsonVersion_static[of rt q nv s2]
    show ?thesis
    proof (cases "manifest_ready rt st q kvs v0")
      case nr: False
      show ?thesis
      proof (cases "fst ?u")
        case (Inl e)
        with updatePackageJsonVersion_error[of rt q nv s2 e] have s: "snd ?u = s2" by simp
        obtain ru su where pu: "?u = (ru, su)" by (cases ?u)
        with Inl s have "ru = Inl e" "su = s2" by simp_all
        with True p2 pu have b: "snd (finish_file rt res field nv s2) = s2"
          by (simp add: finish_file_def)
        show ?thesis
          unfolding tracked_def b
          apply (rule exI[of _ "added @ recs"], rule exI[of _ "w @ ws"])
          using a ch wr fr lk rp wsq nr by (simp add: mw)
      next
        case (Inr r)
        obtain ru su where pu: "?u = (ru, su)" by (cases ?u)
        with Inr have "ru = Inr r" by simp
        with True p2 pu have b: "snd (finish_file rt res field nv s2)
                                = (snd ?u)\<lparr>packageJsonUpdated := True\<rparr>"
          by (simp add: finish_file_def)
        show ?thesis
          unfolding tracked_def b
          apply (rule exI[of _ "added @ recs @ ex"], rule exI[of _ "w @ ws @ wx"])
          using a ch wr fr lk rp wsq nr l us by (simp add: mw)
      qed
    next
      case r: True
      from rd[OF r] g have e0: "first_version added = []" "filter manifest_change added = []"
        "manifest_writes q w = []" "disk a q = disk st q"
        by auto
      from r obtain c where m: "disk st q = Some (File c)" "json_parse rt c = Some (JObj kvs)"
        "map_of kvs ''version'' = Some v0" "truthy v0"
        unfolding manifest_ready_def by blast
      from m e0 fr have d2: "disk s2 q = Some (File c)" by simp
      note u = updatePackageJsonVersion_success[OF d2 m(2,3,4), of nv]
      have rec: "manifest_record rt s2 q v0 nv = manifest_record rt st q v0 nv"
        using fr a by (simp add: manifest_record_def relative_file_def)
      from True p2 u have b: "snd (finish_file rt res field nv s2)
          = (recordPackageJsonChange rt q v0 nv
               (if dryRun s2 then s2 else writeFileSync q (manifest_text kvs nv) s2))
            \<lparr>packageJsonUpdated := True\<rparr>"
        by (simp add: finish_file_def manifest_text_def del: serialize.simps)
      have mc: "manifest_change (manifest_record rt st q v0 nv)"
        "\<not> semver_record (manifest_record rt st q v0 nv)"
        by (simp_all add: manifest_change_def semver_record_def manifest_record_def)
      have rc: "\<And>s. changes (recordPackageJsonChange rt q v0 nv s)
                    = changes s @ [manifest_record rt s q v0 nv]"
        by (simp add: recordPackageJsonChange_def manifest_record_def)
      have fv2: "first_version (added @ recs @ [manifest_record rt st q v0 nv]) = [nv]"
        using e0(1) fv g(2) mc(2) by (simp add: first_version_append)
      show ?thesis
      proof (cases "dryRun st")
        case True
        with fr a have dd: "dryRun s2" by simp
        show ?thesis
          unfolding tracked_def b
          apply (rule exI[of _ "added @ recs @ [manifest_record rt st q v0 nv]"],
                 rule exI[of _ "w @ ws"])
          using a ch wr fr rp wsq e0 mc fv2 dd True rec
          by (simp add: mw rc recordPackageJsonChange_def manifest_record_def relative_file_def)
      next
        case False
        with fr a have dd: "\<not> dryRun s2" by simp
        show ?thesis
          unfolding tracked_def b
          apply (rule exI[of _ "added @ recs @ [manifest_record rt st q v0 nv]"],
                 rule exI[of _ "w @ ws @ [(q, manifest_text kvs nv)]"])
          using a ch wr fr rp wsq e0 mc fv2 dd False rec
          by (simp add: mw rc recordPackageJsonChange_def manifest_record_def relative_file_def
                writeFileSync_def manifest_writes_def)
      qed
    qed
  qed
qed

lemma processAndroidFile_tracked:
  assumes "tracked rt st q kvs v0 a" and "packageJsonPath st = Some q" and "f \<noteq> q"
  shows "tracked rt st q kvs v0 (snd (processAndroidFile rt f vc vn a))"
proof -
  have fin: "tracked rt st q kvs v0
      (snd (finish_file rt res vn nvn
         (recordAndroidChanges rt f cvc nvc cvn nvn (vn \<noteq> JNull)
            (if \<not> dryRun a then writeFileSync f c' a else a))))" for res cvc nvc cvn nvn c'
    by (rule finish_file_tracked[OF assms(1,2),
          where recs = "\<lparr>platform = ''Android'', file_rel = relative_file rt a f,
                          item = ''versionCode'', oldValue = JStr cvc, newValue = JNum nvc\<rparr>
                        # (if vn \<noteq> JNull
                           then [\<lparr>platform = ''Android'', file_rel = relative_file rt a f,
                                   item = ''versionName'', oldValue = JStr cvn, newValue = nvn\<rparr>]
                           else [])"
            and ws = "if \<not> dryRun a then [(f, c')] else []"])
       (use assms(3) in \<open>auto simp: recordAndroidChanges_def Let_def writeFileSync_def
          relative_file_def manifest_writes_def manifest_change_def semver_record_def\<close>)
  show ?thesis
    unfolding processAndroidFile_plan
    using assms(1) fin by (auto simp: tracked_warn split: sum.splits option.splits)
qed

lemma processIOSFile_tracked:
  assumes "tracked rt st q kvs v0 a" and "packageJsonPath st = Some q" and "f \<noteq> q"
  shows "tracked rt st q kvs v0 (snd (processIOSFile rt f cpv mv a))"
proof -
  have fin: "tracked rt st q kvs v0
      (snd (finish_file rt res mv nmv
         (recordIOSChanges rt f cv ncv mvv nmv (cpv \<noteq> JNull) (mv \<noteq> JNull)
            (if \<not> dryRun a then writeFileSync f c' a else a))))" for res cv ncv mvv nmv c'
    by (rule finish_file_tracked[OF assms(1,2),
          where recs = "(if cpv \<noteq> JNull
                         then [\<lparr>platform = ''iOS'', file_rel = relative_file rt a f,
                                 item = ''CURRENT_PROJECT_VERSION'', oldValue = JStr cv,
                                 newValue = JNum ncv\<rparr>]
                         else [])
                        @ (if mv \<noteq> JNull
                           then [\<lparr>platform = ''iOS'', file_rel = relative_file rt a f,
                                   item = ''MARKETING_VERSION'', oldValue = JStr mvv, newValue = nmv\<rparr>]
                           else [])"
            and ws = "if \<not> dryRun a then [(f, c')] else []"])
       (use assms(3) in \<open>auto simp: recordIOSChanges_def Let_def writeFileSync_def
          relative_file_def manifest_writes_def manifest_change_def semver_record_def\<close>)
  show ?thesis
    unfolding processIOSFile_plan
    using assms(1) fin by (auto simp: tracked_warn split: sum.splits option.splits)
qed

text \<open>What every file of a run preserves, the run preserves.\<close>

lemma updateAndroidVersions_invariant:
  assumes "\<And>a f. P a \<Longrightarrow> f \<in> set files \<Longrightarrow> P (snd (processAndroidFile rt f vc vn a))"
  shows "P st \<Longrightarrow> P (snd (updateAndroidVersions rt files vc vn st))"
  using assms
proof (induction files arbitrary: st)
  case Nil
  then show ?case by simp
next
  case (Cons f files)
  obtain r s1 where p: "processAndroidFile rt f vc vn st = (r, s1)"
    by (cases "processAndroidFile rt f vc vn st")
  from Cons.prems(2)[OF Cons.prems(1), of f] p have s1: "P s1" by simp
  have "P (snd (updateAndroidVersions rt files vc vn s1))"
    by (rule Cons.IH[OF s1]) (rule Cons.prems(2), simp_all)
  with s1 p show ?case by (auto split: sum.splits prod.splits)
qed

lemma updateIOSVersions_invariant:
  assumes "\<And>a f. P a \<Longrightarrow> f \<in> set files \<Longrightarrow> P (snd (processIOSFile rt f cpv mv a))"
  shows "P st \<Longrightarrow> P (snd (updateIOSVersions rt files cpv mv st))"
  using assms
proof (induction files arbitrary: st)
  case Nil
  then show ?case by simp
next
  case (Cons f files)
  obtain r s1 where p: "processIOSFile rt f cpv mv st = (r, s1)"
    by (cases "processIOSFile rt f cpv mv st")
  from Cons.prems(2)[OF Cons.prems(1), of f] p have s1: "P s1" by simp
  have "P (snd (updateIOSVersions rt files cpv mv s1))"
    by (rule Cons.IH[OF s1]) (rule Cons.prems(2), simp_all)
  with s1 p show ?case by (auto split: sum.splits prod.splits)
qed

lemma run_if_invariant:
  assumes "\<And>s. P s \<Longrightarrow> P (snd (f s))" and "P (snd r)"
  shows "P (snd (run_if c f r))"
proof (cases r)
  case (Pair x s)
  with assms(2) have s: "P s" by simp
  from assms(1)[OF s] have "P (snd (f s))" .
  with s Pair show ?thesis
    by (cases "f s"; cases x) (auto simp: run_if_def split: sum.splits)
qed

lemma executePlatformUpdates_invariant:
  assumes "P st"
    and "\<And>a f vc' vn'. P a \<Longrightarrow> f \<in> set af \<Longrightarrow> P (snd (processAndroidFile rt f vc' vn' a))"
    and "\<And>a f cpv' mv'. P a \<Longrightarrow> f \<in> set ifs \<Longrightarrow> P (snd (processIOSFile rt f cpv' mv' a))"
  shows "P (snd (executePlatformUpdates rt platforms af ifs vc vn cpv mv st))"
proof -
  have A: "\<And>vc' vn' s. P s \<Longrightarrow> P (snd (updateAndroidVersions rt af vc' vn' s))"
    by (rule updateAndroidVersions_invariant[where P = P]) (rule assms(2))
  have I: "\<And>cpv' mv' s. P s \<Longrightarrow> P (snd (updateIOSVersions rt ifs cpv' mv' s))"
    by (rule updateIOSVersions_invariant[where P = P]) (rule assms(3))
  show ?thesis
    unfolding executePlatformUpdates_def Let_def
    by (intro run_if_invariant[where P = P] A I) (simp_all add: assms(1))
qed

lemma executePlatformUpdates_tracked:
  assumes "packageJsonPath st = Some q" and "q \<notin> set af" and "q \<notin> set ifs"
  shows "tracked rt st q kvs v0 (snd (executePlatformUpdates rt platforms af ifs vc vn cpv mv st))"
proof (rule executePlatformUpdates_invariant)
  show "tracked rt st q kvs v0 st" by (rule tracked_start)
next
  fix a f vc' vn'
  assume "tracked rt st q kvs v0 a" and "f \<in> set af"
  with assms show "tracked rt st q kvs v0 (snd (processAndroidFile rt f vc' vn' a))"
    by (intro processAndroidFile_tracked) auto
next
  fix a f cpv' mv'
  assume "tracked rt st q kvs v0 a" and "f \<in> set ifs"
  with assms show "tracked rt st q kvs v0 (snd (processIOSFile rt f cpv' mv' a))"
    by (intro processIOSFile_tracked) auto
qed

lemma tracked_added:
  assumes "tracked rt st q kvs v0 a"
  shows "changes a = changes st @ added_changes st a \<and> writes a = writes st @ added_writes st a
    \<and> length (manifest_writes q (added_writes st a))
        = (if dryRun st then 0 else length (filter manifest_change (added_changes st a)))
    \<and> (manifest_ready rt st q kvs v0 \<longrightarrow>
          filter manifest_change (added_changes st a)
            = map (manifest_record rt st q v0) (first_version (added_changes st a))
        \<and> manifest_writes q (added_writes st a)
            = (if dryRun st then []
               else map (\<lambda>nv. (q, manifest_text kvs nv)) (first_version (added_changes st a)))
        \<and> packageJsonUpdated a = (first_version (added_changes st a) \<noteq> []))"
proof -
  from assms obtain added w where
    a: "changes a = changes st @ added" "writes a = writes st @ w" and
    r: "length (manifest_writes q w)
            = (if dryRun st then 0 else length (filter manifest_change added))
        \<and> (manifest_ready rt st q kvs v0 \<longrightarrow>
              filter manifest_change added = map (manifest_record rt st q v0) (first_version added)
            \<and> manifest_writes q w
                = (if dryRun st then [] else map (\<lambda>nv. (q, manifest_text kvs nv)) (first_version added))
            \<and> packageJsonUpdated a = (first_version added \<noteq> []))"
    unfolding tracked_def by blast
  from a have "added_changes st a = added" "added_writes st a = w"
    by (simp_all add: added_changes_def added_writes_def)
  with a r show ?thesis by simp
qed

text \<open>A manifest without a \<open>version\<close> field in the example project.\<close>

definition example_unversioned :: state where
  "example_unversioned =
     example_configured\<lparr>disk := (disk example_configured)
        (''/app/package.json'' \<mapsto> File (''{'' @ [dq] @ ''name'' @ [dq] @ '':'' @ [dq] @ ''app'' @ [dq] @ ''}''))\<rparr>"

text \<open>
  Claim C4, as amended. In one invocation of \<open>executePlatformUpdates\<close>, whatever the
  platforms, files and requested values, and whether it returns or throws: at most one
  change record against the shared manifest is added, and none when the guard
  \<open>packageJsonUpdated\<close> is already set. When the configured manifest is not itself one of
  the platform files, it is written once for each such record, and not at all in a dry
  run. When moreover the guard is down and the manifest exists and parses to an object
  with a truthy \<open>version\<close>, then the record is added exactly if a platform file is
  processed with its semantic-version field enabled; it carries the new semantic version
  of the first such file, the first \<open>versionName\<close> or \<open>MARKETING_VERSION\<close> the run has
  recorded; the manifest is written once, its \<open>version\<close> set to that value; and the guard
  is up afterwards exactly in that case.
\<close>

theorem manifest_updated_once:
  fixes rt platforms af ifs vc vn cpv mv st
  defines "st' \<equiv> snd (executePlatformUpdates rt platforms af ifs vc vn cpv mv st)"
  shows
  "length (pkg_records st') \<le> Suc (length (pkg_records st))
   \<and> (packageJsonUpdated st \<longrightarrow> pkg_records st' = pkg_records st)
   \<and> (packageJsonPath st = Some q \<and> q \<notin> set af \<and> q \<notin> set ifs \<longrightarrow>
        changes st' = changes st @ added_changes st st'
      \<and> writes st' = writes st @ added_writes st st'
      \<and> pkg_records st' = pkg_records st @ filter manifest_change (added_changes st st')
      \<and> length (manifest_writes q (added_writes st st'))
          = (if dryRun st then 0 else length (filter manifest_change (added_changes st st')))
      \<and> (\<not> packageJsonUpdated st \<and> q \<noteq> []
          \<and> disk st q = Some (File c) \<and> json_parse rt c = Some (JObj kvs)
          \<and> map_of kvs ''version'' = Some v0 \<and> truthy v0 \<longrightarrow>
            filter manifest_change (added_changes st st')
              = map (\<lambda>nv. \<lparr>platform = ''Package.json'', file_rel = relative_file rt st q,
                            item = ''version'', oldValue = v0, newValue = nv\<rparr>)
                  (first_version (added_changes st st'))
          \<and> manifest_writes q (added_writes st st')
              = (if dryRun st then []
                 else map (\<lambda>nv. (q, serialize [] (JObj (set_prop kvs ''version'' nv)) @ [newline]))
                        (first_version (added_changes st st')))
          \<and> packageJsonUpdated st' = (first_version (added_changes st st') \<noteq> [])))"
proof (intro conjI impI)
  note o = executePlatformUpdates_once[of st rt platforms af ifs vc vn cpv mv]
  from o show "length (pkg_records st') \<le> Suc (length (pkg_records st))"
    unfolding once_def st'_def by auto
  { assume "packageJsonUpdated st"
    with o show "pkg_records st' = pkg_records st"
      by (simp add: once_def st'_def) }
next
  assume h: "packageJsonPath st = Some q \<and> q \<notin> set af \<and> q \<notin> set ifs"
  then have "tracked rt st q kvs v0 st'"
    unfolding st'_def by (intro executePlatformUpdates_tracked) simp_all
  note t = tracked_added[OF this]
  from t show c: "changes st' = changes st @ added_changes st st'" by blast
  from t show "writes st' = writes st @ added_writes st st'" by blast
  from t show "length (manifest_writes q (added_writes st st'))
          = (if dryRun st then 0 else length (filter manifest_change (added_changes st st')))"
    by blast
  have "pkg_records st' = filter manifest_change (changes st')"
    by (simp add: pkg_records_def manifest_change_def[abs_def])
  also have "\<dots> = pkg_records st @ filter manifest_change (added_changes st st')"
    by (subst c) (simp add: pkg_records_def manifest_change_def[abs_def])
  finally show "pkg_records st' = pkg_records st @ filter manifest_change (added_changes st st')" .
next
  assume h: "packageJsonPath st = Some q \<and> q \<notin> set af \<and> q \<notin> set ifs"
    and r: "\<not> packageJsonUpdated st \<and> q \<noteq> []
          \<and> disk st q = Some (File c) \<and> json_parse rt c = Some (JObj kvs)
          \<and> map_of kvs ''version'' = Some v0 \<and> truthy v0"
  from h have "tracked rt st q kvs v0 st'"
    unfolding st'_def by (intro executePlatformUpdates_tracked) simp_all
  note t = tracked_added[OF this]
  from h r have rdy: "manifest_ready rt st q kvs v0" unfolding manifest_ready_def by blast
  have m: "manifest_record rt st q v0
             = (\<lambda>nv. \<lparr>platform = ''Package.json'', file_rel = relative_file rt st q,
                       item = ''version'', oldValue = v0, newValue = nv\<rparr>)"
    by (simp add: manifest_record_def fun_eq_iff)
  have x: "manifest_text kvs = (\<lambda>nv. serialize [] (JObj (set_prop kvs ''version'' nv)) @ [newline])"
    by (simp add: manifest_text_def fun_eq_iff del: serialize.simps)
  from t rdy show "filter manifest_change (added_changes st st')
              = map (\<lambda>nv. \<lparr>platform = ''Package.json'', file_rel = relative_file rt st q,
                            item = ''version'', oldValue = v0, newValue = nv\<rparr>)
                  (first_version (added_changes st st'))"
    unfolding m by blast
  from t rdy show "manifest_writes q (added_writes st st')
              = (if dryRun st then []
                 else map (\<lambda>nv. (q, serialize [] (JObj (set_prop kvs ''version'' nv)) @ [newline]))
                        (first_version (added_changes st st')))"
    unfolding x by blast
  from t rdy show "packageJsonUpdated st' = (first_version (added_changes st st') \<noteq> [])"
    by blast
qed

text \<open>The theorem at the example project. With Android and iOS updated, the record and
  the one write of \<open>package.json\<close> carry the new Android version name; with the iOS
  marketing version alone, given as \<open>2.0.0\<close>, they carry that.\<close>

theorem manifest_updated_once_witness:
  "packageJsonPath example_configured = Some ''/app/package.json''
   \<and> ''/app/package.json'' \<notin> set [''/app/android/app/build.gradle''] \<and> ''/app/package.json'' \<notin> set [''/app/ios/App.xcodeproj/project.pbxproj'']
   \<and> \<not> packageJsonUpdated example_configured
   \<and> disk example_configured ''/app/package.json'' = Some (File example_package_json)
   \<and> json_parse example_runtime example_package_json
        = Some (JObj [(''name'', JStr ''app''), (''version'', JStr ''1.0.0'')])
   \<and> first_version (added_changes example_configured
        (snd (executePlatformUpdates example_runtime [''android'', ''ios''] [''/app/android/app/build.gradle''] [''/app/ios/App.xcodeproj/project.pbxproj'']
               (JBool True) (JBool True) (JBool True) (JBool True) example_configured)))
       = [JStr ''1.0.1'']
   \<and> filter manifest_change (added_changes example_configured
        (snd (executePlatformUpdates example_runtime [''android'', ''ios''] [''/app/android/app/build.gradle''] [''/app/ios/App.xcodeproj/project.pbxproj'']
               (JBool True) (JBool True) (JBool True) (JBool True) example_configured)))
       = [\<lparr>platform = ''Package.json'', file_rel = ''package.json'', item = ''version'',
           oldValue = JStr ''1.0.0'', newValue = JStr ''1.0.1''\<rparr>]
   \<and> length (manifest_writes ''/app/package.json'' (added_writes example_configured
        (snd (executePlatformUpdates example_runtime [''android'', ''ios''] [''/app/android/app/build.gradle''] [''/app/ios/App.xcodeproj/project.pbxproj'']
               (JBool True) (JBool True) (JBool True) (JBool True) example_configured)))) = 1
   \<and> first_version (added_changes example_configured
        (snd (executePlatformUpdates example_runtime [''ios-marketing-only''] [''/app/android/app/build.gradle''] [''/app/ios/App.xcodeproj/project.pbxproj'']
               JNull JNull JNull (JStr ''2.0.0'') example_configured)))
       = [JStr ''2.0.0'']
   \<and> filter manifest_change (added_changes example_configured
        (snd (executePlatformUpdates example_runtime [''ios-marketing-only''] [''/app/android/app/build.gradle''] [''/app/ios/App.xcodeproj/project.pbxproj'']
               JNull JNull JNull (JStr ''2.0.0'') example_configured)))
       = [\<lparr>platform = ''Package.json'', file_rel = ''package.json'', item = ''version'',
           oldValue = JStr ''1.0.0'', newValue = JStr ''2.0.0''\<rparr>]
   \<and> first_version (added_changes example_configured
        (snd (executePlatformUpdates example_runtime [''build-numbers-only''] [''/app/android/app/build.gradle''] [''/app/ios/App.xcodeproj/project.pbxproj'']
               (JBool True) JNull (JBool True) JNull example_configured)))
       = []
   \<and> filter manifest_change (added_changes example_configured
        (snd (executePlatformUpdates example_runtime [''build-numbers-only''] [''/app/android/app/build.gradle''] [''/app/ios/App.xcodeproj/project.pbxproj'']
               (JBool True) JNull (JBool True) JNull example_configured)))
       = []"
proof -
  have h1: "packageJsonPath example_configured = Some ''/app/package.json''
      \<and> ''/app/package.json'' \<notin> set [''/app/android/app/build.gradle''] \<and> ''/app/package.json'' \<notin> set [''/app/ios/App.xcodeproj/project.pbxproj'']"
    by (simp add: example_configured_def example_project_def example_state_def)
  have h2: "\<not> packageJsonUpdated example_configured \<and> ''/app/package.json'' \<noteq> []
      \<and> disk example_configured ''/app/package.json'' = Some (File example_package_json)"
    by (simp add: example_configured_def example_project_def example_state_def)
  have h3: "json_parse example_runtime example_package_json
        = Some (JObj [(''name'', JStr ''app''), (''version'', JStr ''1.0.0'')])"
    by code_simp
  have h4: "map_of [(''name'', JStr ''app''), (''version'', JStr ''1.0.0'')] ''version''
        = Some (JStr ''1.0.0'') \<and> truthy (JStr ''1.0.0'')"
    by simp
  have rel: "relative_file example_runtime example_configured ''/app/package.json'' = ''package.json''"
    by code_simp
  have v1: "first_version (added_changes example_configured
        (snd (executePlatformUpdates example_runtime [''android'', ''ios''] [''/app/android/app/build.gradle''] [''/app/ios/App.xcodeproj/project.pbxproj'']
               (JBool True) (JBool True) (JBool True) (JBool True) example_configured)))
       = [JStr ''1.0.1'']"
    by code_simp
  have v2: "first_version (added_changes example_configured
        (snd (executePlatformUpdates example_runtime [''ios-marketing-only''] [''/app/android/app/build.gradle''] [''/app/ios/App.xcodeproj/project.pbxproj'']
               JNull JNull JNull (JStr ''2.0.0'') example_configured)))
       = [JStr ''2.0.0'']"
    by code_simp
  have v3: "first_version (added_changes example_configured
        (snd (executePlatformUpdates example_runtime [''build-numbers-only''] [''/app/android/app/build.gradle''] [''/app/ios/App.xcodeproj/project.pbxproj'']
               (JBool True) JNull (JBool True) JNull example_configured)))
       = []"
    by code_simp
  have d: "\<not> dryRun example_configured"
    by (simp add: example_configured_def example_project_def example_state_def)
  from manifest_updated_once[of example_runtime "[''android'', ''ios'']" "[''/app/android/app/build.gradle'']" "[''/app/ios/App.xcodeproj/project.pbxproj'']"
      "JBool True" "JBool True" "JBool True" "JBool True" example_configured
      "''/app/package.json''" example_package_json
      "[(''name'', JStr ''app''), (''version'', JStr ''1.0.0'')]" "JStr ''1.0.0''"]
    h1 h2 h3 h4
  have c1: "filter manifest_change (added_changes example_configured
        (snd (executePlatformUpdates example_runtime [''android'', ''ios''] [''/app/android/app/build.gradle''] [''/app/ios/App.xcodeproj/project.pbxproj'']
               (JBool True) (JBool True) (JBool True) (JBool True) example_configured)))
       = map (\<lambda>nv. \<lparr>platform = ''Package.json'',
                     file_rel = relative_file example_runtime example_configured ''/app/package.json'',
                     item = ''version'', oldValue = JStr ''1.0.0'', newValue = nv\<rparr>)
           (first_version (added_changes example_configured
             (snd (executePlatformUpdates example_runtime [''android'', ''ios''] [''/app/android/app/build.gradle''] [''/app/ios/App.xcodeproj/project.pbxproj'']
               (JBool True) (JBool True) (JBool True) (JBool True) example_configured))))"
    and w1: "length (manifest_writes ''/app/package.json'' (added_writes example_configured
        (snd (executePlatformUpdates example_runtime [''android'', ''ios''] [''/app/android/app/build.gradle''] [''/app/ios/App.xcodeproj/project.pbxproj'']
               (JBool True) (JBool True) (JBool True) (JBool True) example_configured))))
       = (if dryRun example_configured then 0
          else length (filter manifest_change (added_changes example_configured
            (snd (executePlatformUpdates example_runtime [''android'', ''ios''] [''/app/android/app/build.gradle''] [''/app/ios/App.xcodeproj/project.pbxproj'']
               (JBool True) (JBool True) (JBool True) (JBool True) example_configured)))))"
    by blast+
  from manifest_updated_once[of example_runtime "[''ios-marketing-only'']" "[''/app/android/app/build.gradle'']" "[''/app/ios/App.xcodeproj/project.pbxproj'']"
      JNull JNull JNull "JStr ''2.0.0''" example_configured
      "''/app/package.json''" example_package_json
      "[(''name'', JStr ''app''), (''version'', JStr ''1.0.0'')]" "JStr ''1.0.0''"]
    h1 h2 h3 h4
  have c2: "filter manifest_change (added_changes example_configured
        (snd (executePlatformUpdates example_runtime [''ios-marketing-only''] [''/app/android/app/build.gradle''] [''/app/ios/App.xcodeproj/project.pbxproj'']
               JNull JNull JNull (JStr ''2.0.0'') example_configured)))
       = map (\<lambda>nv. \<lparr>platform = ''Package.json'',
                     file_rel = relative_file example_runtime example_configured ''/app/package.json'',
                     item = ''version'', oldValue = JStr ''1.0.0'', newValue = nv\<rparr>)
           (first_version (added_changes example_configured
             (snd (executePlatformUpdates example_runtime [''ios-marketing-only''] [''/app/android/app/build.gradle''] [''/app/ios/App.xcodeproj/project.pbxproj'']
               JNull JNull JNull (JStr ''2.0.0'') example_configured))))"
    by blast
  from manifest_updated_once[of example_runtime "[''build-numbers-only'']" "[''/app/android/app/build.gradle'']" "[''/app/ios/App.xcodeproj/project.pbxproj'']"
      "JBool True" JNull "JBool True" JNull example_configured
      "''/app/package.json''" example_package_json
      "[(''name'', JStr ''app''), (''version'', JStr ''1.0.0'')]" "JStr ''1.0.0''"]
    h1 h2 h3 h4
  have c3: "filter manifest_change (added_changes example_configured
        (snd (executePlatformUpdates example_runtime [''build-numbers-only''] [''/app/android/app/build.gradle''] [''/app/ios/App.xcodeproj/project.pbxproj'']
               (JBool True) JNull (JBool True) JNull example_configured)))
       = map (\<lambda>nv. \<lparr>platform = ''Package.json'',
                     file_rel = relative_file example_runtime example_configured ''/app/package.json'',
                     item = ''version'', oldValue = JStr ''1.0.0'', newValue = nv\<rparr>)
           (first_version (added_changes example_configured
             (snd (executePlatformUpdates example_runtime [''build-numbers-only''] [''/app/android/app/build.gradle''] [''/app/ios/App.xcodeproj/project.pbxproj'']
               (JBool True) JNull (JBool True) JNull example_configured))))"
    by blast
  have r1: "filter manifest_change (added_changes example_configured
        (snd (executePlatformUpdates example_runtime [''android'', ''ios''] [''/app/android/app/build.gradle''] [''/app/ios/App.xcodeproj/project.pbxproj'']
               (JBool True) (JBool True) (JBool True) (JBool True) example_configured)))
       = [\<lparr>platform = ''Package.json'', file_rel = ''package.json'', item = ''version'',
           oldValue = JStr ''1.0.0'', newValue = JStr ''1.0.1''\<rparr>]"
    unfolding c1 v1 rel by simp
  have r2: "filter manifest_change (added_changes example_configured
        (snd (executePlatformUpdates example_runtime [''ios-marketing-only''] [''/app/android/app/build.gradle''] [''/app/ios/App.xcodeproj/project.pbxproj'']
               JNull JNull JNull (JStr ''2.0.0'') example_configured)))
       = [\<lparr>platform = ''Package.json'', file_rel = ''package.json'', item = ''version'',
           oldValue = JStr ''1.0.0'', newValue = JStr ''2.0.0''\<rparr>]"
    unfolding c2 v2 rel by simp
  have r3: "filter manifest_change (added_changes example_configured
        (snd (executePlatformUpdates example_runtime [''build-numbers-only''] [''/app/android/app/build.gradle''] [''/app/ios/App.xcodeproj/project.pbxproj'']
               (JBool True) JNull (JBool True) JNull example_configured)))
       = []"
    unfolding c3 v3 by simp
  from w1 d r1 have l1: "length (manifest_writes ''/app/package.json'' (added_writes example_configured
        (snd (executePlatformUpdates example_runtime [''android'', ''ios''] [''/app/android/app/build.gradle''] [''/app/ios/App.xcodeproj/project.pbxproj'']
               (JBool True) (JBool True) (JBool True) (JBool True) example_configured)))) = 1"
    by simp
  from h1 h2 h3 v1 v2 v3 r1 r2 r3 l1 show ?thesis by blast
qed

text \<open>
  Claim C4 as stated fails when the configured manifest has no \<open>version\<close> field: Android
  and iOS are both processed with the semantic-version field enabled, the guard goes up,
  and no change record against the manifest is produced.
\<close>

theorem manifest_without_version_counterexample:
  "packageJsonPath example_unversioned = Some ''/app/package.json''
   \<and> fst (updateAndroidVersions example_runtime [''/app/android/app/build.gradle'']
            (JBool True) (JBool True) example_unversioned)
        = Inr [AndroidResult ''/app/android/app/build.gradle'' (Num 2) (JStr ''1.0.1'')]
   \<and> fst (executePlatformUpdates example_runtime [''android'', ''ios'']
        [''/app/android/app/build.gradle''] [''/app/ios/App.xcodeproj/project.pbxproj'']
        (JBool True) (JBool True) (JBool True) (JBool True) example_unversioned) = Inr ()
   \<and> pkg_records (snd (executePlatformUpdates example_runtime [''android'', ''ios'']
        [''/app/android/app/build.gradle''] [''/app/ios/App.xcodeproj/project.pbxproj'']
        (JBool True) (JBool True) (JBool True) (JBool True) example_unversioned)) = []
   \<and> packageJsonUpdated (snd (executePlatformUpdates example_runtime [''android'', ''ios'']
        [''/app/android/app/build.gradle''] [''/app/ios/App.xcodeproj/project.pbxproj'']
        (JBool True) (JBool True) (JBool True) (JBool True) example_unversioned))"
  by code_simp

section \<open>Project detection: proofs\<close>

lemma isAbsolute_Cons: "isAbsolute p \<longleftrightarrow> (\<exists>t. p = CHR ''/'' # t)"
  by (cases p) (auto simp: isAbsolute_def)

lemma dropWhile_rev_length: "length (rev (dropWhile P (rev xs))) \<le> length xs"
  by (simp add: length_dropWhile_le le_trans[OF length_dropWhile_le])

lemma dropWhile_hd_shorter:
  "xs \<noteq> [] \<Longrightarrow> Q (hd xs) \<Longrightarrow> length (dropWhile Q xs) < length xs"
  by (cases xs) (auto simp: le_imp_less_Suc length_dropWhile_le)

lemma strip_cut_shorter:
  fixes t :: "'a list"
  assumes "rev (dropWhile (\<lambda>c. \<not> P c) (rev (rev (dropWhile P (rev t))))) \<noteq> []"
  shows "length (rev (dropWhile (\<lambda>c. \<not> P c) (rev (rev (dropWhile P (rev t))))))
           < length (rev (dropWhile P (rev t)))"
proof -
  define xs where "xs = dropWhile P (rev t)"
  from assms have ne: "dropWhile (\<lambda>c. \<not> P c) xs \<noteq> []"
    by (simp only: xs_def rev_rev_ident rev_is_Nil_conv not_False_eq_True)
  then have x: "xs \<noteq> []" by auto
  then have "\<not> P (hd xs)" unfolding xs_def by (rule hd_dropWhile)
  with x have "length (dropWhile (\<lambda>c. \<not> P c) xs) < length xs"
    by (intro dropWhile_hd_shorter)
  then show ?thesis by (simp only: xs_def rev_rev_ident length_rev)
qed

lemma path_dirname_shorter:
  assumes "isAbsolute p" and "p \<noteq> ''/''"
  shows "isAbsolute (path_dirname p) \<and> length (path_dirname p) < length p"
proof -
  from assms obtain t where p: "p = CHR ''/'' # t" and t: "t \<noteq> []"
    by (auto simp: isAbsolute_Cons)
  define body where "body = rev (dropWhile (\<lambda>c. c = CHR ''/'') (rev t))"
  define dir where "dir = rev (dropWhile (\<lambda>c. c \<noteq> CHR ''/'') (rev body))"
  have lb: "length body \<le> length t" unfolding body_def by (rule dropWhile_rev_length)
  have d: "path_dirname p =
      (if dir = [] then ''/'' else if length dir = 1 then ''//'' else CHR ''/'' # butlast dir)"
  proof -
    have f: "(CHR ''/'' # t = []) = False" "tl (CHR ''/'' # t) = t"
      "(take 1 (CHR ''/'' # t) = ''/'') = True" "hd (CHR ''/'' # t) = CHR ''/''"
      by simp_all
    show ?thesis
      unfolding path_dirname_def Let_def p isAbsolute_def f dir_def body_def
      by (simp only: if_False if_True simp_thms)
  qed
  have strict: "dir \<noteq> [] \<Longrightarrow> length dir < length body"
    unfolding dir_def body_def by (rule strip_cut_shorter[where P = "\<lambda>c. c = CHR ''/''"])
  show ?thesis
  proof (cases "dir = []")
    case True
    then have "path_dirname p = ''/''" unfolding d by simp
    with t p show ?thesis by (simp add: isAbsolute_def)
  next
    case False
    from strict[OF False] lb have l: "length dir < length t" by simp
    show ?thesis
    proof (cases "length dir = 1")
      case True
      with False have "path_dirname p = ''//''" unfolding d by simp
      with l True p show ?thesis by (simp add: isAbsolute_def)
    next
      case F2: False
      with False have "path_dirname p = CHR ''/'' # butlast dir"
        unfolding d by simp
      with l False p show ?thesis by (simp add: isAbsolute_def)
    qed
  qed
qed

text \<open>The directories the walk examines from an absolute start: the start and its
  parents, up to but not including the root \<open>/\<close>.\<close>

function ancestors :: "string \<Rightarrow> string list" where
  "ancestors p = (if isAbsolute p \<and> p \<noteq> ''/'' then p # ancestors (path_dirname p) else [])"
  by pat_completeness auto
termination
  by (relation "measure length") (auto dest: path_dirname_shorter)

declare ancestors.simps [simp del]

lemma detect_loop_find:
  "isAbsolute p \<Longrightarrow> detect_loop rt st ''/'' p = Some (find (is_project_dir rt st) (ancestors p))"
proof (induction p rule: ancestors.induct)
  case (1 p)
  show ?case
  proof (cases "p = ''/''")
    case True
    then show ?thesis
      by (simp add: detect_loop.simps[of rt st "''/''" "''/''"] ancestors.simps[of "''/''"])
  next
    case False
    with 1 path_dirname_shorter[of p]
    have ih: "detect_loop rt st ''/'' (path_dirname p)
                = Some (find (is_project_dir rt st) (ancestors (path_dirname p)))"
      by simp
    from False 1(2) ih show ?thesis
      by (simp add: detect_loop.simps[of rt st "''/''" p] ancestors.simps[of p])
  qed
qed

lemma root_not_examined: "''/'' \<notin> set (ancestors p)"
proof (induction p rule: ancestors.induct)
  case (1 p)
  then show ?case by (auto simp: ancestors.simps[of p])
qed


text \<open>What an object spread of the two dependency sections leaves: the later binding of
  a name wins, \<open>devDependencies\<close> over \<open>dependencies\<close>.\<close>

lemma assign_all_map_of: "map_of (assign_all t s) = map_of t ++ map_of (rev s)"
proof (induction s arbitrary: t)
  case Nil
  show ?case by (simp add: assign_all_def)
next
  case (Cons kv s)
  have "assign_all t (kv # s) = assign_all (set_prop t (fst kv) (snd kv)) s"
    by (simp add: assign_all_def)
  then show ?case
    by (cases kv) (auto simp: Cons.IH set_prop_map_of fun_eq_iff map_add_def split: option.splits)
qed

lemma map_of_rev_mem: "map_of (rev s) k = Some v \<Longrightarrow> (k, v) \<in> set s"
  by (drule map_of_SomeD) simp

lemma map_of_rev_None: "map_of (rev s) k = None \<longleftrightarrow> k \<notin> fst ` set s"
  by (simp add: map_of_eq_None_iff)

text \<open>The manifest of a directory as the specification reads it: the parsed content of
  the regular file \<open>package.json\<close>, if it is there and parses.\<close>

definition manifest :: "runtime \<Rightarrow> state \<Rightarrow> string \<Rightarrow> jsval option" where
  "manifest rt st dir =
     (case disk st (path_join dir ''package.json'') of
        Some (File content) \<Rightarrow> json_parse rt content
      | _ \<Rightarrow> None)"

definition section_members :: "jsval \<Rightarrow> string \<Rightarrow> (string \<times> jsval) list" where
  "section_members packageJson name =
     (case get_prop packageJson name of Inl e \<Rightarrow> [] | Inr v \<Rightarrow> spread_props v)"

text \<open>A manifest declares react-native when a name of the allow-list is, exactly, a key
  of its \<open>dependencies\<close> or of its \<open>devDependencies\<close>.\<close>

definition declares_react_native :: "jsval \<Rightarrow> bool" where
  "declares_react_native packageJson =
     list_ex (\<lambda>pkg. pkg \<in> fst ` set (section_members packageJson ''dependencies'')
                  \<or> pkg \<in> fst ` set (section_members packageJson ''devDependencies''))
       reactNativePackages"

definition project_directory :: "runtime \<Rightarrow> state \<Rightarrow> string \<Rightarrow> bool" where
  "project_directory rt st dir =
     (case manifest rt st dir of
        None \<Rightarrow> False
      | Some packageJson \<Rightarrow>
          declares_react_native packageJson
          \<and> (existsSync st (path_join dir ''android'') \<or> existsSync st (path_join dir ''ios'')))"

text \<open>The versions a manifest gives to the names of the allow-list are truthy: none is the
  empty string, \<open>0\<close>, \<open>null\<close> or \<open>false\<close>.\<close>

definition truthy_versions :: "jsval \<Rightarrow> bool" where
  "truthy_versions packageJson =
     list_all (\<lambda>name. list_all (\<lambda>kv. fst kv \<in> set reactNativePackages \<longrightarrow> truthy (snd kv))
                         (section_members packageJson name))
       [''dependencies'', ''devDependencies'']"

definition well_versioned :: "runtime \<Rightarrow> state \<Rightarrow> string \<Rightarrow> bool" where
  "well_versioned rt st dir =
     (case manifest rt st dir of None \<Rightarrow> True | Some packageJson \<Rightarrow> truthy_versions packageJson)"

lemma hasReactNativeDependencies_declares:
  assumes "truthy_versions pj"
  shows "(case hasReactNativeDependencies pj of Inl e \<Rightarrow> False | Inr has \<Rightarrow> has \<and> X)
           = (declares_react_native pj \<and> X)"
proof (cases "\<exists>e. get_prop pj ''dependencies'' = Inl e")
  case True
  then have "pj = JUndefined \<or> pj = JNull"
    by (cases pj) (auto simp: get_prop_def)
  then show ?thesis
    by (auto simp: hasReactNativeDependencies_def declares_react_native_def
        section_members_def get_prop_def list_ex_iff)
next
  case False
  then obtain deps where d: "get_prop pj ''dependencies'' = Inr deps"
    by (cases "get_prop pj ''dependencies''") auto
  then obtain dev where v: "get_prop pj ''devDependencies'' = Inr dev"
    by (cases pj) (auto simp: get_prop_def)
  let ?a = "spread_props deps" and ?b = "spread_props dev"
  from assms d v
  have tr: "\<And>k x. (k, x) \<in> set ?a \<union> set ?b \<Longrightarrow> k \<in> set reactNativePackages \<Longrightarrow> truthy x"
    by (auto simp: truthy_versions_def section_members_def list_all_iff)
  have m: "map_of (assign_all (assign_all [] ?a) ?b) = map_of (rev ?a) ++ map_of (rev ?b)"
    by (simp add: assign_all_map_of)
  have "(case (map_of (rev ?a) ++ map_of (rev ?b)) pkg of None \<Rightarrow> False | Some x \<Rightarrow> truthy x)
          \<longleftrightarrow> pkg \<in> fst ` set ?a \<or> pkg \<in> fst ` set ?b"
    if p: "pkg \<in> set reactNativePackages" for pkg
  proof (cases "(map_of (rev ?a) ++ map_of (rev ?b)) pkg")
    case None
    then have "map_of (rev ?a) pkg = None" "map_of (rev ?b) pkg = None" by simp_all
    then have "pkg \<notin> fst ` set ?a" "pkg \<notin> fst ` set ?b"
      using map_of_rev_None[of ?a pkg] map_of_rev_None[of ?b pkg] by blast+
    then show ?thesis unfolding None by simp
  next
    case (Some x)
    then have "map_of (rev ?b) pkg = Some x \<or> map_of (rev ?a) pkg = Some x"
      by (auto simp: map_add_Some_iff)
    then have mem: "(pkg, x) \<in> set ?a \<union> set ?b" by (auto dest: map_of_rev_mem)
    then have "pkg \<in> fst ` set ?a \<or> pkg \<in> fst ` set ?b" by force
    moreover from tr[OF mem p] have "truthy x" .
    ultimately show ?thesis unfolding Some by simp
  qed
  then have "hasReactNativeDependencies pj = Inr (declares_react_native pj)"
    unfolding hasReactNativeDependencies_def declares_react_native_def section_members_def
      Let_def d v
    by (simp add: list_ex_iff m)
  then show ?thesis by simp
qed

lemma is_project_dir_spec:
  assumes "well_versioned rt st dir"
  shows "is_project_dir rt st dir = project_directory rt st dir"
proof (cases "disk st (path_join dir ''package.json'')")
  case None
  then show ?thesis
    by (simp add: is_project_dir_def project_directory_def manifest_def existsSync_def)
next
  case (Some n)
  show ?thesis
  proof (cases n)
    case Dir
    with Some show ?thesis
      by (simp add: is_project_dir_def project_directory_def manifest_def existsSync_def
          readFileSync_def)
  next
    case (File content)
    show ?thesis
    proof (cases "json_parse rt content")
      case None
      with Some File show ?thesis
        by (simp add: is_project_dir_def project_directory_def manifest_def existsSync_def
            readFileSync_def)
    next
      case (Some pj)
      with \<open>disk st (path_join dir ''package.json'') = Some n\<close> File assms
      have tv: "truthy_versions pj" by (simp add: well_versioned_def manifest_def)
      from Some \<open>disk st (path_join dir ''package.json'') = Some n\<close> File
      show ?thesis
        by (simp add: is_project_dir_def project_directory_def manifest_def existsSync_def
            readFileSync_def hasReactNativeDependencies_declares[OF tv])
    qed
  qed
qed

lemma find_cong_set: "(\<And>x. x \<in> set xs \<Longrightarrow> P x = Q x) \<Longrightarrow> find P xs = find Q xs"
  by (induction xs) auto

text \<open>A tree with the project at \<open>/app\<close>, below it a directory whose \<open>package.json\<close> does
  not parse; and a tree whose manifest names react-native with the empty version.\<close>

definition example_manifest :: "string \<Rightarrow> string" where
  "example_manifest version =
     ''{'' @ [dq] @ ''dependencies'' @ [dq] @ '':{'' @ [dq] @ ''react-native'' @ [dq] @ '':''
       @ [dq] @ version @ [dq] @ ''}}''"

definition example_tree :: state where
  "example_tree =
     example_state
       [(''/app'', Dir), (''/app/package.json'', File (example_manifest ''0.72.0'')),
        (''/app/android'', Dir), (''/app/src'', Dir),
        (''/app/src/package.json'', File ''{oops''), (''/app/src/ios'', Dir),
        (''/app/src/screens'', Dir)]"

definition example_unversioned_tree :: state where
  "example_unversioned_tree =
     example_state
       [(''/app'', Dir), (''/app/package.json'', File (example_manifest [])),
        (''/app/ios'', Dir), (''/app/src'', Dir)]"

text \<open>Claim C10, as amended. From an absolute \<open>startDir\<close>, in a tree where the manifests
  give truthy versions to the names of the allow-list, \<open>detectReactNativeProject\<close>
  returns: it examines \<open>startDir\<close> and then each parent in turn, never the root \<open>/\<close>, and
  its result is the first of these directories whose \<open>package.json\<close> is a regular file
  that parses, has a name of the allow-list as a key of \<open>dependencies\<close> or
  \<open>devDependencies\<close>, and stands beside an entry \<open>android\<close> or \<open>ios\<close>; a directory whose
  manifest is missing or does not parse is passed over; the result is \<open>null\<close> when no
  examined directory qualifies.\<close>

theorem first_project_directory:
  assumes "isAbsolute startDir"
    and "\<forall>dir \<in> set (ancestors startDir). well_versioned rt st dir"
  shows "detectReactNativeProject rt startDir st
           = Some (find (project_directory rt st) (ancestors startDir))
         \<and> ''/'' \<notin> set (ancestors startDir)"
proof -
  from assms(1) have "detectReactNativeProject rt startDir st
      = Some (find (is_project_dir rt st) (ancestors startDir))"
    by (simp add: detectReactNativeProject_def path_root_def detect_loop_find)
  moreover from assms(2)
  have "find (is_project_dir rt st) (ancestors startDir)
          = find (project_directory rt st) (ancestors startDir)"
    by (intro find_cong_set is_project_dir_spec) simp
  ultimately show ?thesis by (simp add: root_not_examined)
qed

theorem first_project_directory_witness:
  "isAbsolute ''/app/src/screens''
   \<and> list_all (well_versioned example_runtime example_tree) (ancestors ''/app/src/screens'')
   \<and> ancestors ''/app/src/screens'' = [''/app/src/screens'', ''/app/src'', ''/app'']
   \<and> manifest example_runtime example_tree ''/app/src'' = None
   \<and> detectReactNativeProject example_runtime ''/app/src/screens'' example_tree
       = Some (Some ''/app'')"
proof -
  have h1: "isAbsolute ''/app/src/screens''" by code_simp
  have h2: "\<forall>dir \<in> set (ancestors ''/app/src/screens'').
              well_versioned example_runtime example_tree dir"
    by code_simp
  have a: "ancestors ''/app/src/screens'' = [''/app/src/screens'', ''/app/src'', ''/app'']"
    by code_simp
  have m: "manifest example_runtime example_tree ''/app/src'' = None" by code_simp
  have f: "find (project_directory example_runtime example_tree)
             [''/app/src/screens'', ''/app/src'', ''/app''] = Some ''/app''"
    by code_simp
  from first_project_directory[of "''/app/src/screens''" example_runtime example_tree] h1 h2
  have "detectReactNativeProject example_runtime ''/app/src/screens'' example_tree
          = Some (find (project_directory example_runtime example_tree)
                    (ancestors ''/app/src/screens''))"
    by blast
  with a f have "detectReactNativeProject example_runtime ''/app/src/screens'' example_tree
          = Some (Some ''/app'')" by simp
  moreover from h2
  have "list_all (well_versioned example_runtime example_tree) (ancestors ''/app/src/screens'')"
    by (simp only: list_all_iff)
  ultimately show ?thesis using h1 a m by blast
qed

text \<open>Claim C10 as stated fails on a manifest that names react-native with the empty
  version: \<open>/app\<close> has a parseable \<open>package.json\<close> with the key \<open>react-native\<close> in
  \<open>dependencies\<close> and an \<open>ios\<close> entry beside it, yet the walk from \<open>/app/src\<close> passes it
  over and returns \<open>null\<close>.\<close>

theorem empty_version_counterexample:
  "manifest example_runtime example_unversioned_tree ''/app''
     = Some (JObj [(''dependencies'', JObj [(''react-native'', JStr [])])])
   \<and> project_directory example_runtime example_unversioned_tree ''/app''
   \<and> hasReactNativeDependencies (JObj [(''dependencies'', JObj [(''react-native'', JStr [])])])
       = Inr False
   \<and> detectReactNativeProject example_runtime ''/app/src'' example_unversioned_tree = Some None"
  by code_simp

section \<open>Configuration loading: proofs\<close>

text \<open>The configuration files \<open>loadProjectConfiguration\<close> tries, in order: the custom path
  if one is given, then the four standard names under the project root.\<close>

definition candidates :: "string \<Rightarrow> string option \<Rightarrow> string list" where
  "candidates projectRoot' customConfigPath =
     (case customConfigPath of None \<Rightarrow> [] | Some p \<Rightarrow> if p = [] then [] else [p])
     @ map (path_join projectRoot') configFiles"

text \<open>What one candidate holds: the members of the object it loads to, if it exists,
  loads, parses and is an object; and the warning it is skipped with, if it exists and
  is not that.\<close>

definition loaded :: "runtime \<Rightarrow> state \<Rightarrow> string \<Rightarrow> (string \<times> jsval) list option" where
  "loaded rt st p =
     (if existsSync st p then
        (case load_config_value rt st p of
           Inl e \<Rightarrow> None
         | Inr config \<Rightarrow> (case config of JObj kvs \<Rightarrow> Some kvs | _ \<Rightarrow> None))
      else None)"

definition skip_warning :: "runtime \<Rightarrow> state \<Rightarrow> string \<Rightarrow> string list" where
  "skip_warning rt st p =
     (if existsSync st p then
        (case load_config_value rt st p of
           Inl e \<Rightarrow> [''Warning: Could not load config from '' @ path_basename p @ '': '' @ message e]
         | Inr config \<Rightarrow>
            (case config of
               JObj kvs \<Rightarrow> []
             | _ \<Rightarrow> [''Warning: Invalid configuration in '' @ path_basename p
                       @ '': must be an object'']))
      else [])"

definition skipped :: "runtime \<Rightarrow> state \<Rightarrow> string list \<Rightarrow> string list" where
  "skipped rt st ps = takeWhile (\<lambda>p. loaded rt st p = None) ps"

text \<open>A shallow merge in the words of the specification: a key of the defaults is given
  the user's value if there is one, an object-valued one merged key by key over an
  object-valued default; the user's other keys are added; the result enumerates its keys
  as every object does.\<close>

definition merge_key :: "jsval \<Rightarrow> jsval \<Rightarrow> jsval" where
  "merge_key defaultValue userValue =
     (case userValue of
        JUndefined \<Rightarrow> defaultValue
      | JObj ukvs \<Rightarrow>
          (case defaultValue of
             JObj dkvs \<Rightarrow> JObj (own_property_order (assign_all dkvs ukvs))
           | _ \<Rightarrow> userValue)
      | _ \<Rightarrow> userValue)"

definition shallow_merge ::
  "(string \<times> jsval) list \<Rightarrow> (string \<times> jsval) list \<Rightarrow> (string \<times> jsval) list" where
  "shallow_merge defaultConfig userConfig =
     own_property_order
       (map (\<lambda>kv. (fst kv, case map_of userConfig (fst kv) of
                            None \<Rightarrow> snd kv
                          | Some u \<Rightarrow> merge_key (snd kv) u)) defaultConfig
        @ filter (\<lambda>kv. fst kv \<notin> fst ` set defaultConfig) userConfig)"

text \<open>The configurations on which \<open>mergeConfigs\<close> is that shallow merge: no key is written
  twice, none bears the name of a member of \<open>Object.prototype\<close>, and \<open>packageJson\<close>, whose
  default is a string, is not given an object.\<close>

definition mergeable :: "(string \<times> jsval) list \<Rightarrow> bool" where
  "mergeable userConfig =
     (distinct (map fst userConfig)
      \<and> list_all (\<lambda>kv. fst kv \<notin> set object_prototype_names) userConfig
      \<and> \<not> is_plain_object (own_or_undefined userConfig ''packageJson''))"

text \<open>A project whose \<open>vbump.config.json\<close> holds \<open>{"toString":"x"}\<close>.\<close>

definition example_toString_config :: state where
  "example_toString_config =
     example_state
       [(''/app/vbump.config.json'',
         File (''{'' @ [dq] @ ''toString'' @ [dq] @ '':'' @ [dq] @ ''x'' @ [dq] @ ''}''))]"

subsection \<open>One candidate\<close>

lemma existsSync_warn [simp]: "existsSync (warn m st) p = existsSync st p"
  by (simp add: existsSync_def)

lemma load_config_value_warn [simp]:
  "load_config_value rt (warn m st) p = load_config_value rt st p"
  by (simp add: load_config_value_def readFileSync_def)

lemma loaded_warn [simp]: "loaded rt (warn m st) p = loaded rt st p"
  by (simp add: loaded_def)

lemma skip_warning_warn [simp]: "skip_warning rt (warn m st) p = skip_warning rt st p"
  by (simp add: skip_warning_def)

lemma loadConfigFromPath_spec:
  "loadConfigFromPath rt p st
     = (loaded rt st p, st\<lparr>warnings := warnings st @ skip_warning rt st p\<rparr>)"
  by (auto simp: loadConfigFromPath_def loaded_def skip_warning_def warn_def
      split: sum.splits jsval.splits)

lemma skip_warning_loaded: "loaded rt st p = Some kvs \<Longrightarrow> skip_warning rt st p = []"
  by (auto simp: loaded_def skip_warning_def split: if_splits sum.splits jsval.splits)

lemma skip_warning_one:
  "existsSync st p \<Longrightarrow> loaded rt st p = None \<Longrightarrow> length (skip_warning rt st p) = 1"
  by (auto simp: loaded_def skip_warning_def split: sum.splits jsval.splits)

lemma skip_warning_absent: "\<not> existsSync st p \<Longrightarrow> skip_warning rt st p = []"
  by (simp add: skip_warning_def)

subsection \<open>The candidates in turn\<close>

definition outcome :: "runtime \<Rightarrow> state \<Rightarrow> string list \<Rightarrow> jsval \<times> state" where
  "outcome rt st ps =
     ((case List.map_filter (loaded rt st) ps of
         [] \<Rightarrow> getDefaultConfig
       | kvs # rest \<Rightarrow> mergeConfigs default_members kvs),
      st\<lparr>warnings := warnings st @ concat (map (skip_warning rt st) (skipped rt st ps))\<rparr>)"

lemma loaded_more [simp]: "loaded rt (st\<lparr>warnings := w\<rparr>) p = loaded rt st p"
  by (simp add: loaded_def existsSync_def load_config_value_def readFileSync_def)

lemma skip_warning_more [simp]: "skip_warning rt (st\<lparr>warnings := w\<rparr>) p = skip_warning rt st p"
  by (simp add: skip_warning_def existsSync_def load_config_value_def readFileSync_def)

lemma outcome_Nil: "outcome rt st [] = (getDefaultConfig, st)"
  by (simp add: outcome_def skipped_def List.map_filter_simps)

lemma outcome_Cons:
  "outcome rt st (p # ps) =
     (case loaded rt st p of
        Some kvs \<Rightarrow> (mergeConfigs default_members kvs, st)
      | None \<Rightarrow> outcome rt (st\<lparr>warnings := warnings st @ skip_warning rt st p\<rparr>) ps)"
proof (cases "loaded rt st p")
  case None
  have c: "\<And>s. loaded rt (st\<lparr>warnings := s\<rparr>) = loaded rt st"
    "\<And>s. skip_warning rt (st\<lparr>warnings := s\<rparr>) = skip_warning rt st"
    by (simp_all add: fun_eq_iff)
  show ?thesis
    unfolding outcome_def skipped_def
    by (simp add: None List.map_filter_simps c)
next
  case (Some kvs)
  then show ?thesis
    by (simp add: outcome_def skipped_def List.map_filter_simps)
qed

lemma search_configs_outcome:
  "search_configs rt root fs st = outcome rt st (map (path_join root) fs)"
proof (induction fs arbitrary: st)
  case Nil
  show ?case by (simp add: outcome_Nil)
next
  case (Cons f fs)
  show ?case
    by (cases "loaded rt st (path_join root f)")
       (simp_all add: loadConfigFromPath_spec outcome_Cons Cons.IH skip_warning_loaded)
qed

text \<open>\<open>loadProjectConfiguration\<close> returns for every root, custom path and state: the
  result is the merge of the first candidate that loads, or the defaults when none does;
  every candidate before it has added its warning, one if the file exists and none if
  not; nothing else of the state changes.\<close>

lemma loadProjectConfiguration_outcome:
  "loadProjectConfiguration rt root custom st = outcome rt st (candidates root custom)"
proof (cases "\<exists>p. custom = Some p \<and> p \<noteq> []")
  case True
  then obtain p where p: "custom = Some p" "p \<noteq> []" by blast
  show ?thesis
    by (cases "loaded rt st p")
       (simp_all add: loadProjectConfiguration_def candidates_def p loadConfigFromPath_spec
          outcome_Cons search_configs_outcome skip_warning_loaded)
next
  case False
  then have "custom = None \<or> custom = Some []" by (cases custom) auto
  then show ?thesis
    by (auto simp: loadProjectConfiguration_def candidates_def search_configs_outcome)
qed

subsection \<open>The merge\<close>

lemma set_prop_fresh: "k \<notin> fst ` set kvs \<Longrightarrow> set_prop kvs k v = kvs @ [(k, v)]"
  by (induction kvs) auto

lemma assign_all_fresh:
  "distinct (map fst xs) \<Longrightarrow> fst ` set xs \<inter> fst ` set acc = {} \<Longrightarrow> assign_all acc xs = acc @ xs"
proof (induction xs arbitrary: acc)
  case Nil
  show ?case by (simp add: assign_all_def)
next
  case (Cons kv xs)
  from Cons.prems have f: "fst kv \<notin> fst ` set acc" by auto
  have "assign_all acc (kv # xs) = assign_all (acc @ [kv]) xs"
    by (simp add: assign_all_def set_prop_fresh[OF f])
  also from Cons.prems have "\<dots> = (acc @ [kv]) @ xs"
    by (intro Cons.IH) auto
  finally show ?case by simp
qed

lemma foldl_filter:
  "foldl (\<lambda>r x. if P x then f r x else r) a xs = foldl f a (filter P xs)"
  by (induction xs arbitrary: a) auto

lemma merged_value_merge_key:
  assumes "\<exists>dkvs. d = JObj dkvs \<and> distinct (map fst dkvs)"
  shows "merged_value d u = merge_key d u"
proof -
  from assms obtain dkvs where d: "d = JObj dkvs" and dist: "distinct (map fst dkvs)" by blast
  from dist have "assign_all [] dkvs = dkvs" using assign_all_fresh[of dkvs "[]"] by simp
  then show ?thesis
    by (cases u) (simp_all add: merged_value_def merge_key_def d is_plain_object_def spread_props_def)
qed

lemma merged_value_scalar:
  "\<not> is_plain_object u \<Longrightarrow> d \<noteq> JNull \<Longrightarrow> merged_value d u = merge_key d u"
  by (cases u; cases d) (simp_all add: merged_value_def merge_key_def is_plain_object_def)

text \<open>On a mergeable configuration \<open>mergeConfigs\<close> is the shallow merge.\<close>

lemma mergeConfigs_shallow:
  assumes "mergeable kvs"
  shows "mergeConfigs default_members kvs = JObj (shallow_merge default_members kvs)"
proof -
  from assms have dist: "distinct (map fst kvs)"
    and np: "\<And>kv. kv \<in> set kvs \<Longrightarrow> fst kv \<notin> set object_prototype_names"
    and pj: "\<not> is_plain_object (own_or_undefined kvs ''packageJson'')"
    by (auto simp: mergeable_def list_all_iff)
  let ?A = "JObj [(''files'', JArr [JStr ''android/app/build.gradle''])]"
  let ?I = "JObj [(''files'', JArr [JStr ''ios/*.xcodeproj/project.pbxproj''])]"
  let ?P = "JStr ''package.json''"
  have dm: "default_members = [(''android'', ?A), (''ios'', ?I), (''packageJson'', ?P)]"
    by (simp add: default_members_def DEFAULT_CONFIG_def)
  let ?r1 = "[(''android'', merge_key ?A (own_or_undefined kvs ''android'')),
              (''ios'', merge_key ?I (own_or_undefined kvs ''ios'')),
              (''packageJson'', merge_key ?P (own_or_undefined kvs ''packageJson''))]"
  have r1: "foldl (\<lambda>result kv. set_prop result (fst kv)
                     (merged_value (snd kv) (own_or_undefined kvs (fst kv)))) [] default_members
              = ?r1"
    unfolding dm
    by (simp add: merged_value_merge_key merged_value_scalar[OF pj])
  let ?rest = "filter (\<lambda>kv. \<not> key_in (fst kv) default_members) kvs"
  have fr: "?rest = filter (\<lambda>kv. fst kv \<notin> fst ` set default_members) kvs"
    by (rule filter_cong) (auto simp: key_in_def dest: np)
  have r2: "foldl (\<lambda>result kv. if \<not> key_in (fst kv) default_members
                                then set_prop result (fst kv) (snd kv) else result) ?r1 kvs
              = ?r1 @ ?rest"
  proof -
    have "foldl (\<lambda>result kv. if \<not> key_in (fst kv) default_members
                                then set_prop result (fst kv) (snd kv) else result) ?r1 kvs
            = assign_all ?r1 ?rest"
      unfolding assign_all_def by (rule foldl_filter)
    also have "\<dots> = ?r1 @ ?rest"
    proof (rule assign_all_fresh)
      from dist show "distinct (map fst ?rest)" by (rule distinct_map_filter)
      show "fst ` set ?rest \<inter> fst ` set ?r1 = {}"
        by (auto simp: key_in_def dm)
    qed
    finally show ?thesis .
  qed
  have sm: "shallow_merge default_members kvs = own_property_order (?r1 @ ?rest)"
    unfolding fr
    by (simp add: shallow_merge_def dm own_or_undefined_def merge_key_def split: option.splits)
  show ?thesis
    unfolding mergeConfigs_def Let_def r1 r2 sm ..
qed

text \<open>Claim C9. \<open>loadProjectConfiguration\<close> with a \<open>vbump.config.json\<close> that holds
  \<open>{"toString":"x"}\<close>: the file loads, no warning is given, and the result is the defaults
  alone. The key \<open>toString\<close>, which a shallow merge over the defaults keeps, is dropped:
  \<open>key in defaultConfig\<close> finds it on \<open>Object.prototype\<close>. A second slip of the merge: an
  object given for \<open>packageJson\<close> is spread over the characters of the default string.\<close>

theorem prototype_named_key_dropped:
  "loaded example_runtime example_toString_config ''/app/vbump.config.json''
     = Some [(''toString'', JStr ''x'')]
   \<and> skipped example_runtime example_toString_config (candidates ''/app'' None)
       = [''/app/vbump.config.js'']
   \<and> fst (loadProjectConfiguration example_runtime ''/app'' None example_toString_config)
       = DEFAULT_CONFIG
   \<and> warnings (snd (loadProjectConfiguration example_runtime ''/app'' None example_toString_config))
       = []
   \<and> shallow_merge default_members [(''toString'', JStr ''x'')]
       = default_members @ [(''toString'', JStr ''x'')]
   \<and> get_prop (mergeConfigs default_members [(''packageJson'', JObj [(''path'', JStr ''app.json'')])])
        ''packageJson''
       = Inr (JObj [(''0'', JStr ''p''), (''1'', JStr ''a''), (''2'', JStr ''c''),
                    (''3'', JStr ''k''), (''4'', JStr ''a''), (''5'', JStr ''g''),
                    (''6'', JStr ''e''), (''7'', JStr ''.''), (''8'', JStr ''j''),
                    (''9'', JStr ''s''), (''10'', JStr ''o''), (''11'', JStr ''n''),
                    (''path'', JStr ''app.json'')])"
  by code_simp

end
